(* ===== verification/Prelude.thy ===== *)
theory Prelude
  imports Main "HOL-Library.Word"
begin

text \<open>
  Shared vocabulary of the development: bytes and byte strings (\<open>std::byte\<close>,
  \<open>legio::binary\<close>), C++ exceptions as values, computations that change a state and may
  throw, the unordered and ordered containers of the standard library that the components
  keep their data in, and the contracts (locales) several components share.
\<close>

section \<open>Bytes, strings and exceptions\<close>

type_synonym byte = "8 word"
type_synonym binary = "byte list"

text \<open>
  The exception classes of the standard library the source throws, with the text given to
  their constructor (\<open>e.what()\<close>).
\<close>

datatype exn =
    Runtime_error string
  | Invalid_argument string
  | Logic_error string

named_theorems exn_simps \<open>unfolding of the plumbing of throwing computations\<close>

text \<open>
  A computation over a state \<open>'w\<close> ends in one of three ways: it returns a value, it throws
  (the changes made to the state before the throw stay), or it exhausts the call stack.
  \<open>Overflow\<close> is not an exception: no handler catches it.
\<close>

datatype 'a outcome = Return 'a | Throw exn | Overflow

type_synonym ('w, 'a) prog = "'w \<Rightarrow> 'a outcome \<times> 'w"

definition bindp :: "('w, 'a) prog \<Rightarrow> ('a \<Rightarrow> ('w, 'b) prog) \<Rightarrow> ('w, 'b) prog" where
  "bindp m f w =
     (case m w of
        (Return a, w') \<Rightarrow> f a w'
      | (Throw e, w') \<Rightarrow> (Throw e, w')
      | (Overflow, w') \<Rightarrow> (Overflow, w'))"

text \<open>\<open>try { m } catch (const std::exception &e) { h(e) }\<close>\<close>

definition catchp :: "('w, 'a) prog \<Rightarrow> (exn \<Rightarrow> ('w, 'a) prog) \<Rightarrow> ('w, 'a) prog" where
  "catchp m h w =
     (case m w of
        (Return a, w') \<Rightarrow> (Return a, w')
      | (Throw e, w') \<Rightarrow> h e w'
      | (Overflow, w') \<Rightarrow> (Overflow, w'))"

lemma bindp_Return [exn_simps]: "m w = (Return a, w') \<Longrightarrow> bindp m f w = f a w'"
  by (simp add: bindp_def)

lemma bindp_Throw [exn_simps]: "m w = (Throw e, w') \<Longrightarrow> bindp m f w = (Throw e, w')"
  by (simp add: bindp_def)

lemma bindp_Overflow [exn_simps]: "m w = (Overflow, w') \<Longrightarrow> bindp m f w = (Overflow, w')"
  by (simp add: bindp_def)

text \<open>Pure fallible code returns \<open>exn + 'a\<close>; \<open>sbind\<close> stops at the first exception.\<close>

definition sbind :: "exn + 'a \<Rightarrow> ('a \<Rightarrow> exn + 'b) \<Rightarrow> exn + 'b" where
  "sbind m f = (case m of Inl e \<Rightarrow> Inl e | Inr a \<Rightarrow> f a)"

lemma sbind_simps [simp]:
  "sbind (Inl e) f = Inl e"
  "sbind (Inr a) f = f a"
  by (simp_all add: sbind_def)

lemma sbind_Inr_iff:
  "sbind m f = Inr b \<longleftrightarrow> (\<exists>a. m = Inr a \<and> f a = Inr b)"
  by (cases m) auto

lemma sbind_pairE:
  assumes "sbind m (\<lambda>(a, r). f a r) = Inr b"
  obtains a r where "m = Inr (a, r)" "f a r = Inr b"
  using assms by (cases m) auto

text \<open>Characters: C++ \<open>char\<close> and \<open>byte\<close> hold the same eight bits.\<close>

definition byte_of_char :: "char \<Rightarrow> byte" where
  "byte_of_char c = of_char c"

definition char_of_byte :: "byte \<Rightarrow> char" where
  "char_of_byte b = char_of (unat b)"

lemma unat_byte_of_char [simp]: "unat (byte_of_char c) = of_char c"
proof -
  have "(of_char c :: byte) = word_of_nat (of_char c)"
    by (simp add: of_nat_of_char)
  then show ?thesis
    by (simp only: byte_of_char_def unat_of_nat) simp
qed

lemma char_of_byte_of_char [simp]: "char_of_byte (byte_of_char c) = c"
  by (simp add: char_of_byte_def)

lemma byte_of_char_of_byte [simp]: "byte_of_char (char_of_byte b) = b"
proof -
  have "unat b < 256"
    using unsigned_less [of b, where ?'a = nat] by simp
  then have "of_char (char_of (unat b)) = unat b"
    by simp
  then have "word_of_nat (of_char (char_of (unat b))) = b"
    by simp
  then show ?thesis
    by (simp only: byte_of_char_def char_of_byte_def of_nat_of_char)
qed

section \<open>Containers\<close>

text \<open>
  A \<open>std::unordered_map\<close> is its list of entries in iteration order. \<open>emplace\<close> does
  nothing when the key is there, \<open>erase\<close> removes the entry of a key, \<open>it->second = v\<close>
  replaces the value of an entry in place. The iteration order of the library container is
  unspecified; facts about it are stated for every list of entries.
\<close>

type_synonym ('k, 'v) umap = "('k \<times> 'v) list"

definition um_find :: "('k, 'v) umap \<Rightarrow> 'k \<Rightarrow> 'v option" where
  "um_find m k = map_of m k"

definition um_emplace :: "'k \<Rightarrow> 'v \<Rightarrow> ('k, 'v) umap \<Rightarrow> ('k, 'v) umap" where
  "um_emplace k v m = (if um_find m k = None then m @ [(k, v)] else m)"

definition um_erase :: "'k \<Rightarrow> ('k, 'v) umap \<Rightarrow> ('k, 'v) umap" where
  "um_erase k m = filter (\<lambda>p. fst p \<noteq> k) m"

definition um_assign :: "'k \<Rightarrow> 'v \<Rightarrow> ('k, 'v) umap \<Rightarrow> ('k, 'v) umap" where
  "um_assign k v m = map (\<lambda>p. if fst p = k then (k, v) else p) m"

definition um_keys :: "('k, 'v) umap \<Rightarrow> 'k list" where
  "um_keys m = map fst m"

text \<open>The container's own invariant: no key has two entries.\<close>

definition um_ok :: "('k, 'v) umap \<Rightarrow> bool" where
  "um_ok m \<longleftrightarrow> distinct (um_keys m)"

lemma um_find_None_iff: "um_find m k = None \<longleftrightarrow> k \<notin> set (um_keys m)"
  by (simp add: um_find_def um_keys_def map_of_eq_None_iff)

lemma um_find_Some_key: "um_find m k = Some v \<Longrightarrow> k \<in> set (um_keys m)"
  using um_find_None_iff [of m k] by auto

lemma um_find_Some_in: "um_find m k = Some v \<Longrightarrow> (k, v) \<in> set m"
  by (simp add: um_find_def map_of_SomeD)

lemma um_find_in_iff: "um_ok m \<Longrightarrow> um_find m k = Some v \<longleftrightarrow> (k, v) \<in> set m"
  by (simp add: um_find_def um_ok_def um_keys_def)

lemma um_find_append: "um_find (m @ n) k = (case um_find m k of None \<Rightarrow> um_find n k | Some v \<Rightarrow> Some v)"
  by (auto simp: um_find_def map_add_def split: option.splits)

lemma um_find_simps [simp]:
  "um_find [] k = None"
  "um_find ((x, v) # m) k = (if x = k then Some v else um_find m k)"
  by (auto simp: um_find_def)

lemma um_find_emplace:
  "um_find (um_emplace k v m) x = (if x = k \<and> um_find m k = None then Some v else um_find m x)"
  by (auto simp: um_emplace_def um_find_append split: option.splits)

lemma um_find_erase: "um_find (um_erase k m) x = (if x = k then None else um_find m x)"
  by (induction m) (auto simp: um_erase_def um_find_def)

lemma um_find_assign:
  "um_find (um_assign k v m) x = (if x = k \<and> um_find m k \<noteq> None then Some v else um_find m x)"
  by (induction m) (auto simp: um_assign_def um_find_def)

lemma um_keys_emplace:
  "um_keys (um_emplace k v m) = (if k \<in> set (um_keys m) then um_keys m else um_keys m @ [k])"
  by (auto simp: um_emplace_def um_find_None_iff) (auto simp: um_keys_def)

lemma um_keys_erase: "um_keys (um_erase k m) = filter (\<lambda>x. x \<noteq> k) (um_keys m)"
  by (induction m) (auto simp: um_erase_def um_keys_def)

lemma um_keys_assign [simp]: "um_keys (um_assign k v m) = um_keys m"
  by (induction m) (auto simp: um_assign_def um_keys_def)

lemma um_ok_Nil [simp]: "um_ok []"
  by (simp add: um_ok_def um_keys_def)

lemma um_ok_emplace [simp]: "um_ok m \<Longrightarrow> um_ok (um_emplace k v m)"
  by (simp add: um_ok_def um_keys_emplace)

lemma um_ok_erase [simp]: "um_ok m \<Longrightarrow> um_ok (um_erase k m)"
  by (simp add: um_ok_def um_keys_erase)

lemma um_ok_assign [simp]: "um_ok m \<Longrightarrow> um_ok (um_assign k v m)"
  by (simp add: um_ok_def)

lemmas um_finds = um_find_emplace um_find_erase um_find_assign

text \<open>
  A \<open>std::set\<close> of an ordered type is the strictly increasing list of its elements, the
  order it is iterated in; a \<open>std::unordered_set\<close> is the list of its elements.
\<close>

definition oset_ok :: "'a::linorder list \<Rightarrow> bool" where
  "oset_ok xs \<longleftrightarrow> sorted xs \<and> distinct xs"

definition oset_insert :: "'a::linorder \<Rightarrow> 'a list \<Rightarrow> 'a list" where
  "oset_insert x xs = insort_insert x xs"

text \<open>\<open>std::set_difference\<close> of two sorted ranges.\<close>

definition oset_diff :: "'a::linorder list \<Rightarrow> 'a list \<Rightarrow> 'a list" where
  "oset_diff xs ys = filter (\<lambda>x. x \<notin> set ys) xs"

lemma oset_insert_set [simp]: "set (oset_insert x xs) = insert x (set xs)"
  by (simp add: oset_insert_def set_insort_insert)

lemma oset_ok_insert [simp]: "oset_ok xs \<Longrightarrow> oset_ok (oset_insert x xs)"
  by (simp add: oset_ok_def oset_insert_def sorted_insort_insert distinct_insort_insert)

lemma oset_ok_Nil [simp]: "oset_ok []"
  by (simp add: oset_ok_def)

lemma oset_diff_set [simp]: "set (oset_diff xs ys) = set xs - set ys"
  by (auto simp: oset_diff_def)

lemma oset_ok_diff [simp]: "oset_ok xs \<Longrightarrow> oset_ok (oset_diff xs ys)"
  by (simp add: oset_ok_def oset_diff_def sorted_filter [where f = "\<lambda>x. x", simplified])

lemma oset_eqI: "oset_ok xs \<Longrightarrow> oset_ok ys \<Longrightarrow> set xs = set ys \<Longrightarrow> xs = ys"
  by (simp add: oset_ok_def sorted_distinct_set_unique)

text \<open>Filling an ordered set from a range of elements, as the \<open>insert\<close> loops do.\<close>

definition oset_of :: "'a::linorder list \<Rightarrow> 'a list" where
  "oset_of xs = fold oset_insert xs []"

lemma oset_fold_set: "set (fold oset_insert xs s) = set xs \<union> set s"
  by (induction xs arbitrary: s) auto

lemma oset_fold_ok: "oset_ok s \<Longrightarrow> oset_ok (fold oset_insert xs s)"
  by (induction xs arbitrary: s) auto

lemma oset_of_set [simp]: "set (oset_of xs) = set xs"
  by (simp add: oset_of_def oset_fold_set)

lemma oset_of_ok [simp]: "oset_ok (oset_of xs)"
  by (simp add: oset_of_def oset_fold_ok)

lemma oset_of_id: "oset_ok xs \<Longrightarrow> oset_of xs = xs"
  by (rule oset_eqI) auto

lemma fold_oset_insert_id: "oset_ok xs \<Longrightarrow> fold oset_insert xs [] = xs"
  using oset_of_id by (simp add: oset_of_def)

definition us_emplace :: "'a \<Rightarrow> 'a list \<Rightarrow> 'a list" where
  "us_emplace x xs = (if x \<in> set xs then xs else xs @ [x])"

definition us_erase :: "'a \<Rightarrow> 'a list \<Rightarrow> 'a list" where
  "us_erase x xs = filter (\<lambda>y. y \<noteq> x) xs"

lemma us_emplace_set [simp]: "set (us_emplace x xs) = insert x (set xs)"
  by (auto simp: us_emplace_def)

lemma us_erase_set [simp]: "set (us_erase x xs) = set xs - {x}"
  by (auto simp: us_erase_def)

lemma us_distinct [simp]:
  "distinct xs \<Longrightarrow> distinct (us_emplace x xs)"
  "distinct xs \<Longrightarrow> distinct (us_erase x xs)"
  by (auto simp: us_emplace_def us_erase_def)

section \<open>Contracts shared by the components\<close>

text \<open>
  The contract of a keyed table that several components keep: \<open>emplace\<close> never overwrites,
  \<open>erase\<close> forgets one key and no other.
\<close>

locale dictionary =
  fixes find :: "'m \<Rightarrow> 'k \<Rightarrow> 'v option"
    and emplace :: "'k \<Rightarrow> 'v \<Rightarrow> 'm \<Rightarrow> 'm"
    and erase :: "'k \<Rightarrow> 'm \<Rightarrow> 'm"
  assumes find_emplace:
      "find (emplace k v m) x = (if x = k \<and> find m k = None then Some v else find m x)"
    and find_erase: "find (erase k m) x = (if x = k then None else find m x)"
begin

lemma emplace_present: "find m k = Some u \<Longrightarrow> find (emplace k v m) x = find m x"
  by (simp add: find_emplace)

lemma emplace_idem: "find (emplace k u (emplace k v m)) x = find (emplace k v m) x"
  by (simp add: find_emplace)

lemma erase_emplace_absent:
  "find m k = None \<Longrightarrow> find (erase k (emplace k v m)) x = find m x"
  by (simp add: find_emplace find_erase)

lemma erase_then_emplace: "find (emplace k v (erase k m)) k = Some v"
  by (simp add: find_emplace find_erase)

lemma emplace_monotone: "find m x = Some u \<Longrightarrow> find (emplace k v m) x = Some u"
  by (auto simp: find_emplace)

lemma fold_emplace_monotone:
  "find m x = Some u \<Longrightarrow> find (fold (\<lambda>(k, v). emplace k v) kvs m) x = Some u"
  by (induction kvs arbitrary: m) (auto simp: emplace_monotone)

end

interpretation umap: dictionary um_find um_emplace um_erase
  by unfold_locales (simp_all add: um_finds)

text \<open>
  The contract of a component whose operations keep an invariant of its state: whatever
  sequence of operations runs, in whatever order, the invariant survives.
\<close>

locale preserved =
  fixes step :: "'e \<Rightarrow> 's \<Rightarrow> 's"
    and inv :: "'s \<Rightarrow> bool"
  assumes step_inv: "inv s \<Longrightarrow> inv (step e s)"
begin

lemma run_inv: "inv s \<Longrightarrow> inv (fold step es s)"
  by (induction es arbitrary: s) (auto simp: step_inv)

end

end
