(* ===== verification/Byte_Order.thy ===== *)
theory Byte_Order
  imports Prelude
begin

text \<open>
  The network byte order functions of \<open>src/utils.cpp\<close>. Each reads the bytes of its argument
  in memory, in whatever order the host stores them, and assembles them most significant
  first. The host's order is a parameter, so what is proved holds on either kind of host.
\<close>

unbundle bit_operations_syntax

datatype endian = Little | Big

section \<open>Integers in memory\<close>

text \<open>
  The object representation of an unsigned integer, as \<open>reinterpret_cast<uint8_t *>(&n)\<close>
  exposes it, and the integer a piece of memory holds.
\<close>

definition be16 :: "16 word \<Rightarrow> binary" where
  "be16 n = [ucast (drop_bit 8 n), ucast n]"

definition be32 :: "32 word \<Rightarrow> binary" where
  "be32 n = [ucast (drop_bit 24 n), ucast (drop_bit 16 n), ucast (drop_bit 8 n), ucast n]"

definition be64 :: "64 word \<Rightarrow> binary" where
  "be64 n =
     [ucast (drop_bit 56 n), ucast (drop_bit 48 n), ucast (drop_bit 40 n), ucast (drop_bit 32 n),
      ucast (drop_bit 24 n), ucast (drop_bit 16 n), ucast (drop_bit 8 n), ucast n]"

definition host_order :: "endian \<Rightarrow> binary \<Rightarrow> binary" where
  "host_order e bs = (case e of Big \<Rightarrow> bs | Little \<Rightarrow> rev bs)"

definition mem16 :: "endian \<Rightarrow> 16 word \<Rightarrow> binary" where
  "mem16 e n = host_order e (be16 n)"

definition mem32 :: "endian \<Rightarrow> 32 word \<Rightarrow> binary" where
  "mem32 e n = host_order e (be32 n)"

definition mem64 :: "endian \<Rightarrow> 64 word \<Rightarrow> binary" where
  "mem64 e n = host_order e (be64 n)"

section \<open>htons, htonl, htonll and their inverses\<close>

definition htons :: "endian \<Rightarrow> 16 word \<Rightarrow> 16 word" where
  "htons e n = (let p = mem16 e n in push_bit 8 (ucast (p ! 0)) OR ucast (p ! 1))"

definition htonl :: "endian \<Rightarrow> 32 word \<Rightarrow> 32 word" where
  "htonl e n =
     (let p = mem32 e n
      in push_bit 24 (ucast (p ! 0)) OR push_bit 16 (ucast (p ! 1)) OR push_bit 8 (ucast (p ! 2))
         OR ucast (p ! 3))"

definition htonll :: "endian \<Rightarrow> 64 word \<Rightarrow> 64 word" where
  "htonll e n =
     (let p = mem64 e n
      in push_bit 56 (ucast (p ! 0)) OR push_bit 48 (ucast (p ! 1)) OR push_bit 40 (ucast (p ! 2))
         OR push_bit 32 (ucast (p ! 3)) OR push_bit 24 (ucast (p ! 4)) OR push_bit 16 (ucast (p ! 5))
         OR push_bit 8 (ucast (p ! 6)) OR ucast (p ! 7))"

definition ntohs :: "endian \<Rightarrow> 16 word \<Rightarrow> 16 word" where
  "ntohs e n = htons e n"

definition ntohl :: "endian \<Rightarrow> 32 word \<Rightarrow> 32 word" where
  "ntohl e n = htonl e n"

definition ntohll :: "endian \<Rightarrow> 64 word \<Rightarrow> 64 word" where
  "ntohll e n = htonll e n"

section \<open>Assembling bytes\<close>

text \<open>The integer whose bytes, most significant first, are the given ones.\<close>

definition asm16 :: "binary \<Rightarrow> 16 word" where
  "asm16 p = push_bit 8 (ucast (p ! 0)) OR ucast (p ! 1)"

definition asm32 :: "binary \<Rightarrow> 32 word" where
  "asm32 p = push_bit 24 (ucast (p ! 0)) OR push_bit 16 (ucast (p ! 1)) OR push_bit 8 (ucast (p ! 2))
     OR ucast (p ! 3)"

definition asm64 :: "binary \<Rightarrow> 64 word" where
  "asm64 p = push_bit 56 (ucast (p ! 0)) OR push_bit 48 (ucast (p ! 1)) OR push_bit 40 (ucast (p ! 2))
     OR push_bit 32 (ucast (p ! 3)) OR push_bit 24 (ucast (p ! 4)) OR push_bit 16 (ucast (p ! 5))
     OR push_bit 8 (ucast (p ! 6)) OR ucast (p ! 7)"

text \<open>Reading a piece of memory into an integer variable.\<close>

definition load16 :: "endian \<Rightarrow> binary \<Rightarrow> 16 word" where
  "load16 e bs = asm16 (host_order e bs)"

definition load32 :: "endian \<Rightarrow> binary \<Rightarrow> 32 word" where
  "load32 e bs = asm32 (host_order e bs)"

definition load64 :: "endian \<Rightarrow> binary \<Rightarrow> 64 word" where
  "load64 e bs = asm64 (host_order e bs)"

lemma htons_asm: "htons e n = asm16 (mem16 e n)"
  by (simp add: htons_def asm16_def Let_def)

lemma htonl_asm: "htonl e n = asm32 (mem32 e n)"
  by (simp add: htonl_def asm32_def Let_def)

lemma htonll_asm: "htonll e n = asm64 (mem64 e n)"
  by (simp add: htonll_def asm64_def Let_def)

lemmas hton_asm = htons_asm htonl_asm htonll_asm

lemma be_lengths [simp]:
  "length (be16 n) = 2" "length (be32 m) = 4" "length (be64 k) = 8"
  by (simp_all add: be16_def be32_def be64_def)

lemma length2: "length xs = 2 \<longleftrightarrow> (\<exists>a b. xs = [a, b])"
  by (auto simp: numeral_eq_Suc length_Suc_conv)

lemma length4: "length xs = 4 \<longleftrightarrow> (\<exists>a b c d. xs = [a, b, c, d])"
  by (auto simp: numeral_eq_Suc length_Suc_conv)

lemma length8: "length xs = 8 \<longleftrightarrow> (\<exists>a b c d e f g h. xs = [a, b, c, d, e, f, g, h])"
  by (auto simp: numeral_eq_Suc length_Suc_conv)

text \<open>Cutting one byte out of a word that was assembled from shifted bytes.\<close>

definition cut :: "nat \<Rightarrow> 'w::len word \<Rightarrow> byte" where
  "cut k w = ucast (drop_bit k w)"

definition put :: "nat \<Rightarrow> byte \<Rightarrow> 'w::len word" where
  "put l b = push_bit l (ucast b)"

lemma cut_or: "cut k (x OR y) = cut k x OR cut k y"
  by (rule bit_word_eqI) (auto simp: cut_def bit_simps)

lemma cut_put_same: "k + 8 \<le> LENGTH('w::len) \<Longrightarrow> cut k (put k b :: 'w word) = b"
  by (rule bit_word_eqI) (auto simp: cut_def put_def bit_simps)

lemma cut_put_below: "k + 8 \<le> l \<Longrightarrow> cut k (put l b :: 'w::len word) = 0"
  by (rule bit_word_eqI) (auto simp: cut_def put_def bit_simps)

lemma cut_put_above: "l + 8 \<le> k \<Longrightarrow> cut k (put l b :: 'w::len word) = 0"
  by (rule bit_word_eqI) (auto simp: cut_def put_def bit_simps dest: bit_imp_le_length)

lemmas cut_puts = cut_or cut_put_same cut_put_below cut_put_above

lemma be_cut:
  "be16 n = [cut 8 n, cut 0 n]"
  "be32 m = [cut 24 m, cut 16 m, cut 8 m, cut 0 m]"
  "be64 k = [cut 56 k, cut 48 k, cut 40 k, cut 32 k, cut 24 k, cut 16 k, cut 8 k, cut 0 k]"
  by (simp_all add: be16_def be32_def be64_def cut_def)

lemma asm_put:
  "asm16 p = put 8 (p ! 0) OR put 0 (p ! 1)"
  "asm32 q = put 24 (q ! 0) OR put 16 (q ! 1) OR put 8 (q ! 2) OR put 0 (q ! 3)"
  "asm64 r = put 56 (r ! 0) OR put 48 (r ! 1) OR put 40 (r ! 2) OR put 32 (r ! 3)
     OR put 24 (r ! 4) OR put 16 (r ! 5) OR put 8 (r ! 6) OR put 0 (r ! 7)"
  by (simp_all add: asm16_def asm32_def asm64_def put_def)

lemma bit_put_cut:
  "bit (put l (cut l w) :: 'w::len word) i \<longleftrightarrow> l \<le> i \<and> i < l + 8 \<and> bit (w :: 'w word) i"
  by (auto simp: cut_def put_def bit_simps dest: bit_imp_le_length)

lemma asm16_be16 [simp]: "asm16 (be16 n) = n"
  by (rule bit_word_eqI) (auto simp: be_cut asm_put bit_or_iff bit_put_cut)

lemma asm32_be32 [simp]: "asm32 (be32 n) = n"
  by (rule bit_word_eqI) (auto simp: be_cut asm_put bit_or_iff bit_put_cut)

lemma asm64_be64 [simp]: "asm64 (be64 n) = n"
proof (rule bit_word_eqI)
  fix i
  assume "i < LENGTH(64)"
  then have "i < 8 \<or> 8 \<le> i \<and> i < 16 \<or> 16 \<le> i \<and> i < 24 \<or> 24 \<le> i \<and> i < 32 \<or> 32 \<le> i \<and> i < 40
      \<or> 40 \<le> i \<and> i < 48 \<or> 48 \<le> i \<and> i < 56 \<or> 56 \<le> i \<and> i < 64"
    by simp arith
  then show "bit (asm64 (be64 n)) i = bit n i"
    by (elim disjE) (simp_all add: be_cut asm_put bit_or_iff bit_put_cut)
qed

lemma be16_asm16 [simp]: "length p = 2 \<Longrightarrow> be16 (asm16 p) = p"
  by (auto simp: length2 be_cut asm_put cut_puts)

lemma be32_asm32 [simp]: "length p = 4 \<Longrightarrow> be32 (asm32 p) = p"
  by (auto simp: length4 be_cut asm_put cut_puts)

lemma be64_asm64 [simp]: "length p = 8 \<Longrightarrow> be64 (asm64 p) = p"
  by (auto simp: length8 be_cut asm_put cut_puts)

lemma host_order_twice [simp]: "host_order e (host_order e bs) = bs"
  by (cases e) (simp_all add: host_order_def)

lemma length_host_order [simp]: "length (host_order e bs) = length bs"
  by (cases e) (simp_all add: host_order_def)

text \<open>
  On either kind of host, the memory of \<open>htons(n)\<close> is the network encoding of \<open>n\<close>, and
  \<open>ntohs\<close> of a value read from memory is the integer those bytes encode.
\<close>

lemma mem_hton [simp]:
  "mem16 e (htons e n) = be16 n"
  "mem32 e (htonl e m) = be32 m"
  "mem64 e (htonll e k) = be64 k"
  by (simp_all add: hton_asm mem16_def mem32_def mem64_def)

lemma ntoh_load:
  "length p = 2 \<Longrightarrow> ntohs e (load16 e p) = asm16 p"
  "length q = 4 \<Longrightarrow> ntohl e (load32 e q) = asm32 q"
  "length r = 8 \<Longrightarrow> ntohll e (load64 e r) = asm64 r"
  by (simp_all add: ntohs_def ntohl_def ntohll_def hton_asm mem16_def mem32_def mem64_def
      load16_def load32_def load64_def)

lemma ntoh_hton [simp]:
  "ntohs e (htons e n) = n"
  "ntohl e (htonl e m) = m"
  "ntohll e (htonll e k) = k"
  by (simp_all only: ntohs_def ntohl_def ntohll_def htons_asm [of e "htons e n"]
      htonl_asm [of e "htonl e m"] htonll_asm [of e "htonll e k"] mem_hton asm16_be16 asm32_be32
      asm64_be64)

end
