(* ===== verification/Binary.thy ===== *)
theory Binary
  imports Byte_Order
begin

text \<open>
  Byte strings (\<open>include/legio/binary.hpp\<close>, \<open>src/binary.cpp\<close>): concatenation and
  exclusive or, conversion to and from text, packed zero-terminated strings, the hash, and
  the sequential reader and writer every wire format of the program goes through.
\<close>

section \<open>Operators\<close>

text \<open>\<open>a ^= b\<close>: pad \<open>a\<close> with zero bytes to the longer length, then combine index by index.\<close>

definition xor_assign :: "binary \<Rightarrow> binary \<Rightarrow> binary" where
  "xor_assign a b =
     (let a' = a @ replicate (max (length a) (length b) - length a) 0
      in fold (\<lambda>i a. a[i := a ! i XOR b ! i]) [0..<min (length a') (length b)] a')"

definition bin_append :: "binary \<Rightarrow> binary \<Rightarrow> binary" where
  "bin_append a b = a @ b"

definition bin_to_string :: "binary \<Rightarrow> string" where
  "bin_to_string bin = map char_of_byte bin"

definition to_binary :: "string \<Rightarrow> binary" where
  "to_binary str = map byte_of_char str"

lemma to_string_to_binary [simp]: "bin_to_string (to_binary s) = s"
  by (simp add: bin_to_string_def to_binary_def comp_def)

lemma to_binary_to_string [simp]: "to_binary (bin_to_string b) = b"
  by (simp add: bin_to_string_def to_binary_def comp_def)

text \<open>The byte at an index, zero beyond the end.\<close>

definition byte_at :: "binary \<Rightarrow> nat \<Rightarrow> byte" where
  "byte_at a i = (if i < length a then a ! i else 0)"

lemma xor_loop:
  "n \<le> length a \<Longrightarrow>
   fold (\<lambda>i a. a[i := a ! i XOR b ! i]) [0..<n] a =
     map (\<lambda>i. if i < n then a ! i XOR b ! i else a ! i) [0..<length a]"
proof (induction n)
  case 0
  then show ?case by (simp add: map_nth)
next
  case (Suc n)
  then show ?case
    by (intro nth_equalityI) (auto simp: nth_list_update less_Suc_eq)
qed

lemma length_xor_assign [simp]: "length (xor_assign a b) = max (length a) (length b)"
  by (simp add: xor_assign_def Let_def xor_loop)

lemma byte_at_xor: "byte_at (xor_assign a b) i = byte_at a i XOR byte_at b i"
  by (auto simp: byte_at_def xor_assign_def Let_def xor_loop nth_append)

lemma binary_eqI:
  "length a = length b \<Longrightarrow> (\<And>i. byte_at a i = byte_at b i) \<Longrightarrow> a = b"
  by (rule nth_equalityI) (auto simp: byte_at_def split: if_splits, metis)

lemma xor_assign_comm: "xor_assign a b = xor_assign b a"
  by (rule binary_eqI) (simp_all add: byte_at_xor max.commute xor.commute)

lemma xor_assign_assoc: "xor_assign (xor_assign a b) c = xor_assign a (xor_assign b c)"
  by (rule binary_eqI) (simp_all add: byte_at_xor max.assoc xor.assoc)

lemma byte_at_pad: "byte_at (a @ replicate n 0) i = byte_at a i"
  by (auto simp: byte_at_def nth_append)

lemma xor_assign_cancel:
  "xor_assign (xor_assign a b) b = a @ replicate (length b - length a) 0"
  by (rule binary_eqI) (simp_all add: byte_at_xor byte_at_pad xor.assoc)

section \<open>Packed strings\<close>

definition pack_strings :: "string list \<Rightarrow> binary" where
  "pack_strings strs = concat (map (\<lambda>str. map byte_of_char str @ [0]) strs)"

text \<open>
  The inner loop of \<open>unpack_strings\<close>: the characters up to the next zero byte or the end
  of the input, and what is left once that zero byte is skipped.
\<close>

fun scan_string :: "binary \<Rightarrow> string \<times> binary" where
  "scan_string [] = ([], [])"
| "scan_string (b # bs) =
     (if b \<noteq> 0 then (let (s, rest) = scan_string bs in (char_of_byte b # s, rest)) else ([], bs))"

text \<open>The array of \<open>c\<close> strings starts out empty; the loop fills it while input is left.\<close>

fun unpack_strings :: "nat \<Rightarrow> binary \<Rightarrow> string list" where
  "unpack_strings 0 bin = []"
| "unpack_strings (Suc c) bin =
     (if bin = [] then replicate (Suc c) []
      else (let (str, rest) = scan_string bin in str # unpack_strings c rest))"

lemma length_unpack_strings [simp]: "length (unpack_strings c bin) = c"
  by (induction c bin rule: unpack_strings.induct) (auto split: prod.splits)

lemma byte_of_char_eq_0: "byte_of_char c = 0 \<longleftrightarrow> c = CHR 0x00"
proof -
  have "byte_of_char c = byte_of_char (CHR 0x00) \<longleftrightarrow> c = CHR 0x00"
    by (metis char_of_byte_of_char)
  moreover have "byte_of_char (CHR 0x00) = 0"
    by (simp add: byte_of_char_def)
  ultimately show ?thesis
    by simp
qed

lemma scan_string_packed:
  "CHR 0x00 \<notin> set s \<Longrightarrow> scan_string (map byte_of_char s @ 0 # rest) = (s, rest)"
  by (induction s) (auto simp: byte_of_char_eq_0)

lemma unpack_pack_strings:
  "\<forall>s \<in> set strs. CHR 0x00 \<notin> set s \<Longrightarrow>
   unpack_strings (length strs) (pack_strings strs @ junk) = strs"
  by (induction strs) (auto simp: pack_strings_def scan_string_packed)

section \<open>Hash\<close>

text \<open>
  \<open>std::hash<byte>\<close> is the library's; \<open>size_t\<close> is a word of the platform's size. The
  constant and the shifts are those of \<open>hash_combine\<close>.
\<close>

definition hash_combine :: "(byte \<Rightarrow> 'w::len word) \<Rightarrow> 'w word \<Rightarrow> byte \<Rightarrow> 'w word" where
  "hash_combine h seed v = seed XOR (h v + 0x9e3779b9 + push_bit 6 seed + drop_bit 2 seed)"

definition binary_hash :: "(byte \<Rightarrow> 'w::len word) \<Rightarrow> binary \<Rightarrow> 'w word" where
  "binary_hash h bin = fold (\<lambda>b seed. hash_combine h seed b) bin 0"

section \<open>Properties\<close>

text \<open>The exclusive or of two byte strings is commutative and associative, has the length of
  the longer one, and masking twice with the same string gives the first one back, padded with
  zero bytes to the length of the mask.\<close>

lemma xor_masking:
  "xor_assign a b = xor_assign b a
   \<and> xor_assign (xor_assign a b) c = xor_assign a (xor_assign b c)
   \<and> length (xor_assign a b) = max (length a) (length b)
   \<and> xor_assign (xor_assign a b) b = a @ replicate (length b - length a) 0"
proof (intro conjI)
  show "xor_assign a b = xor_assign b a"
    by (rule xor_assign_comm)
  show "xor_assign (xor_assign a b) c = xor_assign a (xor_assign b c)"
    by (rule xor_assign_assoc)
qed (simp_all add: xor_assign_cancel)

lemma unpack_strings_empty: "unpack_strings n [] = replicate n []"
  by (cases n) simp_all

lemma unpack_pack_more:
  "\<forall>s \<in> set strs. CHR 0x00 \<notin> set s \<Longrightarrow>
   unpack_strings (length strs + n) (pack_strings strs) = strs @ replicate n []"
  by (induction strs) (auto simp: pack_strings_def scan_string_packed unpack_strings_empty)

text \<open>Strings without a zero byte are read back from their packed form, in their order,
  whatever follows; asking for more strings than were packed gives empty ones.\<close>

lemma packed_strings_roundtrip:
  assumes "\<forall>s \<in> set strs. CHR 0x00 \<notin> set s"
  shows "unpack_strings (length strs) (pack_strings strs @ junk) = strs
    \<and> unpack_strings (length strs + n) (pack_strings strs) = strs @ replicate n []"
  using assms by (simp add: unpack_pack_strings unpack_pack_more)

end
