(* ===== verification/Reader_Writer.thy ===== *)
theory Reader_Writer
  imports Binary
begin

text \<open>
  \<open>binary_reader\<close> and \<open>binary_writer\<close> (\<open>src/binary.cpp\<close>): a cursor over a byte string with
  bounds-checked reads, and a growing byte string. Integers travel in network byte order.
  The contract \<open>codec\<close> says what a matching pair of a writer and a reader promises; the
  integer formats provide it here, identifiers provide it later.
\<close>

section \<open>The reader\<close>

record binary_reader =
  rd_binary :: binary
  rd_position :: nat

definition reader_of :: "binary \<Rightarrow> binary_reader" where
  "reader_of bin = \<lparr>rd_binary = bin, rd_position = 0\<rparr>"

definition rd_read :: "nat \<Rightarrow> binary_reader \<Rightarrow> exn + binary \<times> binary_reader" where
  "rd_read n r =
     (if rd_position r + n > length (rd_binary r)
      then Inl (Runtime_error ''read out of bounds'')
      else Inr (take n (drop (rd_position r) (rd_binary r)),
                r\<lparr>rd_position := rd_position r + n\<rparr>))"

definition readInt8 :: "binary_reader \<Rightarrow> exn + 8 word \<times> binary_reader" where
  "readInt8 r = sbind (rd_read 1 r) (\<lambda>(bs, r'). Inr (bs ! 0, r'))"

definition readInt16 :: "endian \<Rightarrow> binary_reader \<Rightarrow> exn + 16 word \<times> binary_reader" where
  "readInt16 e r = sbind (rd_read 2 r) (\<lambda>(bs, r'). Inr (ntohs e (load16 e bs), r'))"

definition readInt32 :: "endian \<Rightarrow> binary_reader \<Rightarrow> exn + 32 word \<times> binary_reader" where
  "readInt32 e r = sbind (rd_read 4 r) (\<lambda>(bs, r'). Inr (ntohl e (load32 e bs), r'))"

definition readInt64 :: "endian \<Rightarrow> binary_reader \<Rightarrow> exn + 64 word \<times> binary_reader" where
  "readInt64 e r = sbind (rd_read 8 r) (\<lambda>(bs, r'). Inr (ntohll e (load64 e bs), r'))"

definition rd_size :: "binary_reader \<Rightarrow> nat" where
  "rd_size r = length (rd_binary r) - rd_position r"

definition rd_finished :: "binary_reader \<Rightarrow> bool" where
  "rd_finished r \<longleftrightarrow> rd_position r = length (rd_binary r)"

definition rd_left :: "binary_reader \<Rightarrow> binary" where
  "rd_left r = drop (rd_position r) (rd_binary r)"

text \<open>The invariant of the class: the cursor never passes the end.\<close>

definition rd_ok :: "binary_reader \<Rightarrow> bool" where
  "rd_ok r \<longleftrightarrow> rd_position r \<le> length (rd_binary r)"

definition rd_advance :: "nat \<Rightarrow> binary_reader \<Rightarrow> binary_reader" where
  "rd_advance n r = r\<lparr>rd_position := rd_position r + n\<rparr>"

lemma rd_ok_reader_of [simp]: "rd_ok (reader_of bin)"
  by (simp add: rd_ok_def reader_of_def)

lemma rd_left_reader_of [simp]: "rd_left (reader_of bin) = bin"
  by (simp add: rd_left_def reader_of_def)

lemma rd_size_left: "rd_size r = length (rd_left r)"
  by (simp add: rd_size_def rd_left_def)

lemma rd_left_advance [simp]: "rd_left (rd_advance n r) = drop n (rd_left r)"
  by (simp add: rd_left_def rd_advance_def add.commute)

lemma rd_ok_advance: "n \<le> length (rd_left r) \<Longrightarrow> rd_ok r \<Longrightarrow> rd_ok (rd_advance n r)"
  by (simp add: rd_left_def rd_advance_def rd_ok_def)

lemma rd_advance_position [simp]: "rd_position (rd_advance n r) = rd_position r + n"
  by (simp add: rd_advance_def)

lemma rd_advance_binary [simp]: "rd_binary (rd_advance n r) = rd_binary r"
  by (simp add: rd_advance_def)

text \<open>One equation for a read, over the bytes that are left.\<close>

lemma rd_read_eq:
  "rd_ok r \<Longrightarrow> rd_read n r =
     (if n \<le> length (rd_left r) then Inr (take n (rd_left r), rd_advance n r)
      else Inl (Runtime_error ''read out of bounds''))"
  by (auto simp: rd_read_def rd_left_def rd_ok_def rd_advance_def)

lemma rd_read_frame:
  "rd_read n r = Inr (bs, r') \<Longrightarrow> rd_ok r \<Longrightarrow> rd_binary r' = rd_binary r \<and> rd_ok r'"
  by (auto simp: rd_read_def rd_ok_def split: if_splits)

lemma rd_finished_iff: "rd_ok r \<Longrightarrow> rd_finished r \<longleftrightarrow> rd_left r = []"
  by (auto simp: rd_finished_def rd_left_def rd_ok_def)

section \<open>The writer\<close>

record binary_writer =
  wr_binary :: binary

definition writer_new :: binary_writer where
  "writer_new = \<lparr>wr_binary = []\<rparr>"

definition wr_write :: "binary \<Rightarrow> binary_writer \<Rightarrow> binary_writer" where
  "wr_write data w = w\<lparr>wr_binary := bin_append (wr_binary w) data\<rparr>"

definition writeInt8 :: "8 word \<Rightarrow> binary_writer \<Rightarrow> binary_writer" where
  "writeInt8 i w = wr_write [i] w"

definition writeInt16 :: "endian \<Rightarrow> 16 word \<Rightarrow> binary_writer \<Rightarrow> binary_writer" where
  "writeInt16 e i w = wr_write (mem16 e (htons e i)) w"

definition writeInt32 :: "endian \<Rightarrow> 32 word \<Rightarrow> binary_writer \<Rightarrow> binary_writer" where
  "writeInt32 e i w = wr_write (mem32 e (htonl e i)) w"

definition writeInt64 :: "endian \<Rightarrow> 64 word \<Rightarrow> binary_writer \<Rightarrow> binary_writer" where
  "writeInt64 e i w = wr_write (mem64 e (htonll e i)) w"

definition wr_size :: "binary_writer \<Rightarrow> nat" where
  "wr_size w = length (wr_binary w)"

definition wr_data :: "binary_writer \<Rightarrow> binary" where
  "wr_data w = wr_binary w"

lemma wr_data_new [simp]: "wr_data writer_new = []"
  by (simp add: wr_data_def writer_new_def)

lemma wr_data_write [simp]: "wr_data (wr_write d w) = wr_data w @ d"
  by (simp add: wr_data_def wr_write_def bin_append_def)

lemma wr_data_ints [simp]:
  "wr_data (writeInt8 a w) = wr_data w @ [a]"
  "wr_data (writeInt16 e b w) = wr_data w @ be16 b"
  "wr_data (writeInt32 e c w) = wr_data w @ be32 c"
  "wr_data (writeInt64 e d w) = wr_data w @ be64 d"
  by (simp_all add: writeInt8_def writeInt16_def writeInt32_def writeInt64_def)

lemma wr_data_fold: "wr_data (fold (\<lambda>x. wr_write (f x)) xs w) = wr_data w @ concat (map f xs)"
  by (induction xs arbitrary: w) auto

section \<open>The contract of a fixed-width format\<close>

text \<open>
  \<open>wr\<close> appends \<open>width\<close> bytes for a valid value and \<open>rd\<close> gets the value back and
  moves the cursor past them, whatever follows; with fewer bytes left \<open>rd\<close> throws.
\<close>

locale codec =
  fixes wr :: "'a \<Rightarrow> binary_writer \<Rightarrow> binary_writer"
    and rd :: "binary_reader \<Rightarrow> exn + 'a \<times> binary_reader"
    and encoding :: "'a \<Rightarrow> binary"
    and width :: nat
    and valid :: "'a \<Rightarrow> bool"
  assumes data_write: "wr_data (wr x w) = wr_data w @ encoding x"
    and length_encoding: "valid x \<Longrightarrow> length (encoding x) = width"
    and read_encoding: "valid x \<Longrightarrow> rd_ok r \<Longrightarrow> rd_left r = encoding x @ rest \<Longrightarrow>
        rd r = Inr (x, rd_advance width r)"
    and read_short: "rd_ok r \<Longrightarrow> length (rd_left r) < width \<Longrightarrow>
        rd r = Inl (Runtime_error ''read out of bounds'')"
begin

lemma read_write:
  assumes "valid x"
  shows "rd (reader_of (wr_data (wr x writer_new) @ rest)) =
    Inr (x, rd_advance width (reader_of (wr_data (wr x writer_new) @ rest)))"
  using assms by (intro read_encoding [where rest = rest]) (simp_all add: data_write)

lemma read_then_left:
  assumes "valid x" "rd_ok r" "rd_left r = encoding x @ rest"
  obtains r' where "rd r = Inr (x, r')" "rd_ok r'" "rd_left r' = rest"
    "rd_position r' = rd_position r + width"
proof
  show "rd r = Inr (x, rd_advance width r)"
    using assms by (rule read_encoding)
  show "rd_ok (rd_advance width r)"
    using assms length_encoding by (intro rd_ok_advance) auto
  show "rd_left (rd_advance width r) = rest"
    using assms length_encoding by simp
qed simp

text \<open>Encodings of valid values are prefix-free, so a stream of values has one reading.\<close>

lemma encoding_inject:
  assumes "valid x" "valid y" "encoding x @ s = encoding y @ t"
  shows "x = y \<and> s = t"
proof -
  let ?r = "reader_of (encoding x @ s)"
  have "rd ?r = Inr (x, rd_advance width ?r)"
    using assms(1) by (intro read_encoding [where rest = s]) auto
  moreover have "rd ?r = Inr (y, rd_advance width ?r)"
    using assms(2,3) by (intro read_encoding [where rest = t]) auto
  ultimately show ?thesis
    using assms(3) by simp
qed

lemma size_write: "valid x \<Longrightarrow> wr_size (wr x w) = wr_size w + width"
  using data_write [of x w] by (simp add: wr_size_def wr_data_def length_encoding)

end

interpretation u8: codec writeInt8 readInt8 "\<lambda>x. [x]" 1 "\<lambda>_. True"
  by unfold_locales (auto simp: readInt8_def rd_read_eq)

interpretation u16: codec "writeInt16 e" "readInt16 e" be16 2 "\<lambda>_. True" for e
  by unfold_locales (auto simp: readInt16_def rd_read_eq ntoh_load)

interpretation u32: codec "writeInt32 e" "readInt32 e" be32 4 "\<lambda>_. True" for e
  by unfold_locales (auto simp: readInt32_def rd_read_eq ntoh_load)

interpretation u64: codec "writeInt64 e" "readInt64 e" be64 8 "\<lambda>_. True" for e
  by unfold_locales (auto simp: readInt64_def rd_read_eq ntoh_load)

text \<open>What a host of one byte order writes with the integer writers, a host of another byte
  order reads back with the integer readers in the same order, leaving exactly what followed;
  a reader with fewer bytes left than an integer takes throws and does not return a value.\<close>

lemma integers_cross_hosts:
  fixes e e' :: endian
  shows "(\<exists>r. sbind (readInt8 (reader_of
        (wr_data (writeInt64 e d (writeInt32 e c (writeInt16 e b (writeInt8 a writer_new)))) @ rest))) (\<lambda>(a', r).
      sbind (readInt16 e' r) (\<lambda>(b', r). sbind (readInt32 e' r) (\<lambda>(c', r). sbind (readInt64 e' r) (\<lambda>(d', r).
        Inr ((a', b', c', d'), r))))) = Inr ((a, b, c, d), r) \<and> rd_left r = rest \<and> rd_position r = 15)
    \<and> readInt8 (reader_of []) = Inl (Runtime_error ''read out of bounds'')
    \<and> readInt16 e' (reader_of [x]) = Inl (Runtime_error ''read out of bounds'')
    \<and> readInt32 e' (reader_of [x, y, z]) = Inl (Runtime_error ''read out of bounds'')
    \<and> readInt64 e' (reader_of (be32 c @ [x, y, z])) = Inl (Runtime_error ''read out of bounds'')"
proof -
  let ?w = "writeInt64 e d (writeInt32 e c (writeInt16 e b (writeInt8 a writer_new)))"
  let ?r = "reader_of (wr_data ?w @ rest)"
  have left: "rd_left ?r = [a] @ be16 b @ be32 c @ be64 d @ rest"
    by simp
  obtain r1 where 1: "readInt8 ?r = Inr (a, r1)" "rd_ok r1"
      "rd_left r1 = be16 b @ be32 c @ be64 d @ rest" "rd_position r1 = rd_position ?r + 1"
    by (rule u8.read_then_left [OF TrueI rd_ok_reader_of left])
  obtain r2 where 2: "readInt16 e' r1 = Inr (b, r2)" "rd_ok r2"
      "rd_left r2 = be32 c @ be64 d @ rest" "rd_position r2 = rd_position r1 + 2"
    by (rule u16.read_then_left [OF TrueI 1(2,3)])
  obtain r3 where 3: "readInt32 e' r2 = Inr (c, r3)" "rd_ok r3"
      "rd_left r3 = be64 d @ rest" "rd_position r3 = rd_position r2 + 4"
    by (rule u32.read_then_left [OF TrueI 2(2,3)])
  obtain r4 where 4: "readInt64 e' r3 = Inr (d, r4)" "rd_ok r4"
      "rd_left r4 = rest" "rd_position r4 = rd_position r3 + 8"
    by (rule u64.read_then_left [OF TrueI 3(2,3)])
  have "rd_position r4 = 15"
    using 1(4) 2(4) 3(4) 4(4) by (simp add: reader_of_def)
  then show ?thesis
    using 1 2 3 4 by (simp add: sbind_Inr_iff u8.read_short u16.read_short u32.read_short u64.read_short)
qed

end
