(* ===== verification/Crypto.thy ===== *)
theory Crypto
  imports Reader_Writer
begin

text \<open>
  The wrappers around Crypto++ (\<open>src/impl/ecdsa.cpp\<close>, \<open>ecdh.cpp\<close>, \<open>aesgcm.cpp\<close>, \<open>sha.cpp\<close>,
  \<open>identifier.cpp\<close>). Crypto++ itself is a submodule, so its operations are parameters: the
  fields of a record that every definition using them takes as an argument, together with the
  byte order of the host. What the program relies on is stated by the law predicates at the
  end. A random number generator is seeded afresh at each use; \<open>nat\<close> arguments name the seed.
\<close>

section \<open>The environment\<close>

datatype direction = Encryption | Decryption

record ('p, 'k) env =
  host :: endian
  DecodePoint :: "binary \<Rightarrow> 'p"
  EncodePoint :: "'p \<Rightarrow> binary"
  ValidatePublic :: "'p \<Rightarrow> bool"
  ValidatePrivate :: "'k \<Rightarrow> bool"
  GeneratePrivate :: "nat \<Rightarrow> 'k"
  MakePublicKey :: "'k \<Rightarrow> 'p"
  SignMessage :: "'k \<Rightarrow> nat \<Rightarrow> binary \<Rightarrow> binary"
  VerifyMessage :: "'p \<Rightarrow> binary \<Rightarrow> binary \<Rightarrow> bool"
  PublicKeyLength :: nat
  GenerateKeyPair :: "nat \<Rightarrow> binary \<times> binary"
  Agree :: "binary \<Rightarrow> binary \<Rightarrow> binary option"
  SHA256 :: "binary \<Rightarrow> binary"
  SetKeyWithIV :: "binary \<Rightarrow> binary \<Rightarrow> exn option"
  AuthenticatedEncryptionFilter :: "direction \<Rightarrow> binary \<Rightarrow> binary \<Rightarrow> nat \<Rightarrow> binary \<Rightarrow> binary"
  TotalPutLength :: "nat \<Rightarrow> nat \<Rightarrow> nat"
  GenerateBlock :: "nat \<Rightarrow> nat \<Rightarrow> binary"

section \<open>ECDSA keys and identifiers\<close>

text \<open>
  An \<open>EcdsaPublic\<close>, and so an \<open>Identifier\<close>, is its curve point; equality and order are those
  of points. The result of \<open>DecodePoint\<close> is not checked by the code: validation is.
\<close>

definition KeySize :: nat where
  "KeySize = 33"

definition EcdsaPublic_of :: "('p, 'k) env \<Rightarrow> binary \<Rightarrow> exn + 'p" where
  "EcdsaPublic_of env key =
     (let point = DecodePoint env key
      in if \<not> ValidatePublic env point
         then Inl (Runtime_error ''Failed to validate external ECDSA public key'')
         else Inr point)"

definition EcdsaPublic_publicKey :: "('p, 'k) env \<Rightarrow> 'p \<Rightarrow> binary" where
  "EcdsaPublic_publicKey env point = EncodePoint env point"

definition EcdsaPublic_verify :: "('p, 'k) env \<Rightarrow> 'p \<Rightarrow> binary \<Rightarrow> binary \<Rightarrow> bool" where
  "EcdsaPublic_verify env point message signature = VerifyMessage env point message signature"

text \<open>The operators on keys, those of the curve points, and the hash of a key's bytes.\<close>

definition EcdsaPublic_eq :: "'p \<Rightarrow> 'p \<Rightarrow> bool" where
  "EcdsaPublic_eq a b \<longleftrightarrow> a = b"

definition EcdsaPublic_ne :: "'p \<Rightarrow> 'p \<Rightarrow> bool" where
  "EcdsaPublic_ne a b \<longleftrightarrow> \<not> a = b"

definition EcdsaPublic_lt :: "'p::linorder \<Rightarrow> 'p \<Rightarrow> bool" where
  "EcdsaPublic_lt a b \<longleftrightarrow> a < b"

definition EcdsaPublic_gt :: "'p::linorder \<Rightarrow> 'p \<Rightarrow> bool" where
  "EcdsaPublic_gt a b \<longleftrightarrow> b < a"

definition EcdsaPublic_hash :: "('p, 'k) env \<Rightarrow> (byte \<Rightarrow> 'w::len word) \<Rightarrow> 'p \<Rightarrow> 'w word" where
  "EcdsaPublic_hash env h ecdsa = binary_hash h (EcdsaPublic_publicKey env ecdsa)"

record ('p, 'k) EcdsaPair =
  pair_private :: 'k
  pair_public :: 'p

definition EcdsaPair_new :: "('p, 'k) env \<Rightarrow> nat \<Rightarrow> exn + ('p, 'k) EcdsaPair" where
  "EcdsaPair_new env seed =
     (let private = GeneratePrivate env seed
      in if \<not> ValidatePrivate env private
         then Inl (Runtime_error ''Failed to validate ECDSA private key'')
         else (let public = MakePublicKey env private
               in if \<not> ValidatePublic env public
                  then Inl (Runtime_error ''Failed to validate ECDSA public key'')
                  else Inr \<lparr>pair_private = private, pair_public = public\<rparr>))"

definition EcdsaPair_sign :: "('p, 'k) env \<Rightarrow> ('p, 'k) EcdsaPair \<Rightarrow> nat \<Rightarrow> binary \<Rightarrow> binary" where
  "EcdsaPair_sign env pair seed message = SignMessage env (pair_private pair) seed message"

definition Identifier_Size :: nat where
  "Identifier_Size = 33"

definition Identifier_of :: "('p, 'k) env \<Rightarrow> binary \<Rightarrow> exn + 'p" where
  "Identifier_of env bin = EcdsaPublic_of env bin"

definition Identifier_binary :: "('p, 'k) env \<Rightarrow> 'p \<Rightarrow> binary" where
  "Identifier_binary env i = EcdsaPublic_publicKey env i"

definition Identifier_hash :: "('p, 'k) env \<Rightarrow> (byte \<Rightarrow> 'w::len word) \<Rightarrow> 'p \<Rightarrow> 'w word" where
  "Identifier_hash env h i = binary_hash h (Identifier_binary env i)"

definition Identifier_eq :: "'p \<Rightarrow> 'p \<Rightarrow> bool" where
  "Identifier_eq a b \<longleftrightarrow> EcdsaPublic_eq a b"

definition Identifier_ne :: "'p \<Rightarrow> 'p \<Rightarrow> bool" where
  "Identifier_ne a b \<longleftrightarrow> EcdsaPublic_ne a b"

definition Identifier_lt :: "'p::linorder \<Rightarrow> 'p \<Rightarrow> bool" where
  "Identifier_lt a b \<longleftrightarrow> EcdsaPublic_lt a b"

definition Identifier_gt :: "'p::linorder \<Rightarrow> 'p \<Rightarrow> bool" where
  "Identifier_gt a b \<longleftrightarrow> EcdsaPublic_gt a b"

lemmas key_operators = EcdsaPublic_eq_def EcdsaPublic_ne_def EcdsaPublic_lt_def EcdsaPublic_gt_def
  Identifier_eq_def Identifier_ne_def Identifier_lt_def Identifier_gt_def

text \<open>
  What the containers of the standard library ask of a key type: \<open>std::set\<close> a strict order whose
  equivalence is equality, \<open>std::unordered_map\<close> a hash that equal keys share. A set then has one
  listing in its order.
\<close>

locale container_key =
  fixes eq lt :: "'a \<Rightarrow> 'a \<Rightarrow> bool" and hash :: "'a \<Rightarrow> 'h"
  assumes eq_iff: "eq a b \<longleftrightarrow> a = b"
    and irrefl: "\<not> lt a a"
    and trans: "lt a b \<Longrightarrow> lt b c \<Longrightarrow> lt a c"
    and total: "\<not> lt a b \<Longrightarrow> \<not> lt b a \<Longrightarrow> eq a b"
    and hash: "eq a b \<Longrightarrow> hash a = hash b"
begin

lemma asym: "lt a b \<Longrightarrow> \<not> lt b a"
  using irrefl trans by blast

lemma one_listing:
  "sorted_wrt lt xs \<Longrightarrow> sorted_wrt lt ys \<Longrightarrow> set xs = set ys \<Longrightarrow> xs = ys"
proof (induction xs arbitrary: ys)
  case (Cons x xs)
  then obtain y ys' where ys: "ys = y # ys'"
    by (cases ys) auto
  have "x \<in> set ys' \<and> y \<in> set xs" if "x \<noteq> y"
    using Cons.prems(3) that by (auto simp: ys)
  then have "x = y"
    using Cons.prems(1,2) asym by (auto simp: ys)
  moreover have "x \<notin> set xs" "y \<notin> set ys'"
    using Cons.prems(1,2) irrefl by (auto simp: ys)
  ultimately have "set xs = set ys'"
    using Cons.prems(3) by (simp add: ys insert_ident)
  with \<open>x = y\<close> show ?case
    using Cons by (simp add: ys)
qed simp

end

interpretation identifier_key: container_key Identifier_eq Identifier_lt "Identifier_hash env h" for env h
  by unfold_locales (auto simp: key_operators)

interpretation ecdsa_key: container_key EcdsaPublic_eq EcdsaPublic_lt "EcdsaPublic_hash env h" for env h
  by unfold_locales (auto simp: key_operators)

lemma key_trichotomy:
  "Identifier_ne a b \<longleftrightarrow> \<not> Identifier_eq a b" "Identifier_gt a b \<longleftrightarrow> Identifier_lt b a"
  "Identifier_ne a b \<longleftrightarrow> Identifier_lt a b \<or> Identifier_gt a b"
  by (auto simp: key_operators)

section \<open>ECDH\<close>

definition Ecdh_KeySize :: nat where
  "Ecdh_KeySize = 65"

record Ecdh =
  dh_private :: binary
  dh_public :: binary

definition Ecdh_new :: "('p, 'k) env \<Rightarrow> nat \<Rightarrow> Ecdh" where
  "Ecdh_new env seed =
     (let (private, public) = GenerateKeyPair env seed in \<lparr>dh_private = private, dh_public = public\<rparr>)"

definition Ecdh_publicKey :: "Ecdh \<Rightarrow> binary" where
  "Ecdh_publicKey ecdh = dh_public ecdh"

definition Ecdh_agree :: "('p, 'k) env \<Rightarrow> Ecdh \<Rightarrow> binary \<Rightarrow> exn + binary" where
  "Ecdh_agree env ecdh remotePublicKey =
     (if length remotePublicKey \<noteq> PublicKeyLength env
      then Inl (Invalid_argument ''Invalid remote ECDH public key size'')
      else (case Agree env (dh_private ecdh) remotePublicKey of
              None \<Rightarrow> Inl (Runtime_error ''Failed to reach ECDH shared secret'')
            | Some secret \<Rightarrow> Inr secret))"

section \<open>SHA-256 and AES-GCM\<close>

definition Sha256 :: "('p, 'k) env \<Rightarrow> binary \<Rightarrow> binary" where
  "Sha256 env input = SHA256 env input"

definition AES_BLOCKSIZE :: nat where
  "AES_BLOCKSIZE = 16"

definition GCM_TAG_SIZE :: nat where
  "GCM_TAG_SIZE = 16"

record AesGcm =
  gcm_key :: binary
  gcm_iv :: binary

text \<open>The constructor without a key draws one; nothing in the program calls it.\<close>

definition AES_DEFAULT_KEYLENGTH :: nat where
  "AES_DEFAULT_KEYLENGTH = 16"

definition AesGcmEncryption_fresh :: "('p, 'k) env \<Rightarrow> nat \<Rightarrow> exn + AesGcm" where
  "AesGcmEncryption_fresh env seed =
     (let key = GenerateBlock env seed AES_DEFAULT_KEYLENGTH;
          iv = GenerateBlock env (seed + 1) AES_BLOCKSIZE
      in case SetKeyWithIV env key iv of
           Some e \<Rightarrow> Inl e
         | None \<Rightarrow> Inr \<lparr>gcm_key = key, gcm_iv = iv\<rparr>)"

definition AesGcmEncryption_key :: "AesGcm \<Rightarrow> binary" where
  "AesGcmEncryption_key c = gcm_key c"

definition AesGcmEncryption_iv :: "AesGcm \<Rightarrow> binary" where
  "AesGcmEncryption_iv c = gcm_iv c"

definition AesGcmEncryption_new :: "('p, 'k) env \<Rightarrow> nat \<Rightarrow> binary \<Rightarrow> exn + AesGcm" where
  "AesGcmEncryption_new env seed key =
     (if length key < AES_BLOCKSIZE then Inl (Invalid_argument ''AES key too short'')
      else (let iv = GenerateBlock env seed AES_BLOCKSIZE
            in case SetKeyWithIV env key iv of
                 Some e \<Rightarrow> Inl e
               | None \<Rightarrow> Inr \<lparr>gcm_key = key, gcm_iv = iv\<rparr>))"

definition AesGcm_encrypt :: "('p, 'k) env \<Rightarrow> AesGcm \<Rightarrow> binary \<Rightarrow> binary" where
  "AesGcm_encrypt env c data =
     AuthenticatedEncryptionFilter env Encryption (gcm_key c) (gcm_iv c) GCM_TAG_SIZE data"

definition AesGcmDecryption_new :: "('p, 'k) env \<Rightarrow> binary \<Rightarrow> binary \<Rightarrow> exn + AesGcm" where
  "AesGcmDecryption_new env key iv =
     (if length key < AES_BLOCKSIZE then Inl (Invalid_argument ''AES key too short'')
      else if length iv < AES_BLOCKSIZE then Inl (Invalid_argument ''AES IV too short'')
      else (case SetKeyWithIV env key iv of
              Some e \<Rightarrow> Inl e
            | None \<Rightarrow> Inr \<lparr>gcm_key = key, gcm_iv = iv\<rparr>))"

text \<open>
  \<open>decrypt\<close> runs the decryption object through an \<open>AuthenticatedEncryptionFilter\<close> into an
  \<open>ArraySink\<close> over a zeroed buffer of the size of the input, then resizes the buffer to what
  the sink counted.
\<close>

definition bin_resize :: "nat \<Rightarrow> binary \<Rightarrow> binary" where
  "bin_resize n bs = take n bs @ replicate (n - length bs) 0"

definition AesGcm_decrypt :: "('p, 'k) env \<Rightarrow> AesGcm \<Rightarrow> binary \<Rightarrow> binary" where
  "AesGcm_decrypt env c data =
     (let out = AuthenticatedEncryptionFilter env Decryption (gcm_key c) (gcm_iv c) GCM_TAG_SIZE data;
          plain = bin_resize (length data) out
      in bin_resize (TotalPutLength env (length data) (length out)) plain)"

section \<open>What the program relies on\<close>

text \<open>
  Signatures of a key pair verify under its public key; a valid point is encoded in 33 bytes
  that decode to it (point compression on the 256-bit curve).
\<close>

definition ecdsa_laws :: "('p, 'k) env \<Rightarrow> bool" where
  "ecdsa_laws env \<longleftrightarrow>
     (\<forall>k seed m. VerifyMessage env (MakePublicKey env k) m (SignMessage env k seed m))
     \<and> (\<forall>p. ValidatePublic env p \<longrightarrow> length (EncodePoint env p) = 33 \<and> DecodePoint env (EncodePoint env p) = p)"

text \<open>A pair as its constructor leaves it.\<close>

definition pair_ok :: "('p, 'k) env \<Rightarrow> ('p, 'k) EcdsaPair \<Rightarrow> bool" where
  "pair_ok env pair \<longleftrightarrow>
     pair_public pair = MakePublicKey env (pair_private pair) \<and> ValidatePublic env (pair_public pair)"

text \<open>Both ends of an ECDH exchange compute the same secret; public keys have 65 bytes.\<close>

definition ecdh_laws :: "('p, 'k) env \<Rightarrow> bool" where
  "ecdh_laws env \<longleftrightarrow> PublicKeyLength env = 65 \<and>
     (\<forall>s. length (snd (GenerateKeyPair env s)) = 65) \<and>
     (\<forall>s t. \<exists>z. Agree env (fst (GenerateKeyPair env s)) (snd (GenerateKeyPair env t)) = Some z
            \<and> Agree env (fst (GenerateKeyPair env t)) (snd (GenerateKeyPair env s)) = Some z)"

text \<open>
  SHA-256 digests have 32 bytes and are accepted as AES keys with a 16-byte vector.
  \<open>AuthenticatedEncryptionFilter\<close> outputs the data processed by the cipher object it was given,
  of the same length, followed by a tag of the requested size; it checks nothing. Processing
  is a stream: with the decryption object, an encrypted text comes out first, whatever
  follows it. A sink never counts fewer bytes than it stored.
\<close>

definition aead_laws :: "('p, 'k) env \<Rightarrow> bool" where
  "aead_laws env \<longleftrightarrow>
     (\<forall>x. length (SHA256 env x) = 32)
     \<and> (\<forall>seed n. length (GenerateBlock env seed n) = n)
     \<and> (\<forall>key iv. length key = 32 \<longrightarrow> length iv = 16 \<longrightarrow> SetKeyWithIV env key iv = None)
     \<and> (\<forall>d key iv n x. length (AuthenticatedEncryptionFilter env d key iv n x) = length x + n)
     \<and> (\<forall>key iv n x t. take (length x) (AuthenticatedEncryptionFilter env Decryption key iv n
           (take (length x) (AuthenticatedEncryptionFilter env Encryption key iv n x) @ t)) = x)
     \<and> (\<forall>n k. min n k \<le> TotalPutLength env n k)"

lemma ecdsa_lawsD:
  assumes "ecdsa_laws env"
  shows "VerifyMessage env (MakePublicKey env k) m (SignMessage env k seed m)"
    "ValidatePublic env p \<Longrightarrow> length (EncodePoint env p) = 33"
    "ValidatePublic env p \<Longrightarrow> DecodePoint env (EncodePoint env p) = p"
  using assms by (auto simp: ecdsa_laws_def)

lemma aead_lawsD:
  assumes "aead_laws env"
  shows "length (SHA256 env x) = 32" "length (GenerateBlock env seed n) = n"
    "length key = 32 \<Longrightarrow> length iv = 16 \<Longrightarrow> SetKeyWithIV env key iv = None"
    "length (AuthenticatedEncryptionFilter env d key iv n x) = length x + n"
    "take (length x) (AuthenticatedEncryptionFilter env Decryption key iv n
       (take (length x) (AuthenticatedEncryptionFilter env Encryption key iv n x) @ t)) = x"
    "min n k \<le> TotalPutLength env n k"
  using assms unfolding aead_laws_def by blast+

lemma Ecdh_new_sel [simp]:
  "dh_private (Ecdh_new env s) = fst (GenerateKeyPair env s)"
  "dh_public (Ecdh_new env s) = snd (GenerateKeyPair env s)"
  by (simp_all add: Ecdh_new_def case_prod_unfold Let_def)

text \<open>An \<open>EcdsaPair\<close> is only ever made by its constructor, so it is always in order.\<close>

lemma EcdsaPair_new_ok: "EcdsaPair_new env seed = Inr pair \<Longrightarrow> pair_ok env pair"
  by (auto simp: EcdsaPair_new_def pair_ok_def Let_def split: if_splits)

lemma EcdsaPair_sign_verifies:
  "ecdsa_laws env \<Longrightarrow> pair_ok env pair \<Longrightarrow>
   EcdsaPublic_verify env (pair_public pair) m (EcdsaPair_sign env pair seed m)"
  by (simp add: pair_ok_def EcdsaPublic_verify_def EcdsaPair_sign_def ecdsa_lawsD)

text \<open>Identifiers travel as a fixed-width format, for valid points under the laws.\<close>

definition write_identifier :: "('p, 'k) env \<Rightarrow> 'p \<Rightarrow> binary_writer \<Rightarrow> binary_writer" where
  "write_identifier env i w = wr_write (Identifier_binary env i) w"

definition read_identifier :: "('p, 'k) env \<Rightarrow> binary_reader \<Rightarrow> exn + 'p \<times> binary_reader" where
  "read_identifier env r =
     sbind (rd_read Identifier_Size r) (\<lambda>(bs, r'). sbind (Identifier_of env bs) (\<lambda>i. Inr (i, r')))"

lemmas identifier_defs = Identifier_binary_def Identifier_of_def EcdsaPublic_of_def
  EcdsaPublic_publicKey_def Identifier_Size_def

interpretation ident: codec "write_identifier env" "read_identifier env" "Identifier_binary env" 33
    "\<lambda>i. ecdsa_laws env \<and> ValidatePublic env i" for env
  by unfold_locales
    (auto simp: write_identifier_def read_identifier_def identifier_defs rd_read_eq ecdsa_lawsD Let_def)

text \<open>Reading an identifier succeeds only for a key that passed validation.\<close>

lemma read_identifier_valid:
  "read_identifier env r = Inr (i, r') \<Longrightarrow> ValidatePublic env i"
  by (auto simp: read_identifier_def sbind_Inr_iff identifier_defs Let_def split: if_splits)

section \<open>The authenticated channel, as implemented\<close>

text \<open>
  What \<open>decrypt\<close> makes of what \<open>encrypt\<close> produced: the cleartext, then bytes that are not
  part of it. Nothing is verified: decryption never throws, whatever the bytes.
\<close>

lemma bin_resize_prefix:
  assumes "take (length m) out = m" "length m \<le> length out" "length m \<le> n'" "length m + 16 \<le> n"
  shows "\<exists>junk. bin_resize n (bin_resize n' out) = m @ junk \<and> 16 \<le> length junk"
proof -
  obtain t where out: "out = m @ t"
    using assms(1) by (metis append_take_drop_id)
  define junk where "junk = drop (length m) (bin_resize n (bin_resize n' out))"
  have "take (length m) (bin_resize n (bin_resize n' out)) = m"
    using assms out by (simp add: bin_resize_def)
  moreover have "length (bin_resize n (bin_resize n' out)) = n"
    by (simp add: bin_resize_def)
  ultimately have "bin_resize n (bin_resize n' out) = m @ junk" "length junk = n - length m"
    unfolding junk_def by (metis append_take_drop_id, simp)
  then show ?thesis
    using assms(4) by auto
qed

lemma AesGcm_decrypt_encrypt:
  assumes laws: "aead_laws env"
  shows "\<exists>junk. AesGcm_decrypt env c (AesGcm_encrypt env c m) = m @ junk \<and> 16 \<le> length junk"
proof -
  define f where "f = (\<lambda>d. AuthenticatedEncryptionFilter env d (gcm_key c) (gcm_iv c) 16)"
  define x where "x = f Encryption m"
  define out where "out = f Decryption x"
  define n where "n = TotalPutLength env (length x) (length out)"
  have len: "length x = length m + 16" "length out = length x + 16"
    using laws by (simp_all add: x_def out_def f_def aead_lawsD)
  have "min (length x) (length out) \<le> n"
    unfolding n_def using laws by (rule aead_lawsD)
  then have n: "length m + 16 \<le> n"
    using len by simp
  have "take (length m) (f Decryption (take (length m) x @ drop (length m) x)) = m"
    unfolding f_def x_def using laws by (rule aead_lawsD)
  then have m: "take (length m) out = m"
    by (simp add: out_def)
  have "\<exists>junk. bin_resize n (bin_resize (length x) out) = m @ junk \<and> 16 \<le> length junk"
    using m n len by (intro bin_resize_prefix) auto
  then show ?thesis
    by (simp add: AesGcm_decrypt_def AesGcm_encrypt_def GCM_TAG_SIZE_def Let_def n_def out_def x_def f_def)
qed

text \<open>An encryption object, however it got its key, can be reopened for decryption from its key and vector.\<close>

lemma AesGcm_reopen:
  assumes "aead_laws env"
    and "AesGcmEncryption_fresh env seed = Inr c \<or> AesGcmEncryption_new env seed key = Inr c"
  shows "AesGcmDecryption_new env (AesGcmEncryption_key c) (AesGcmEncryption_iv c) = Inr c"
  using assms(2) aead_lawsD(2) [OF assms(1)]
  by (auto simp: AesGcmEncryption_fresh_def AesGcmEncryption_new_def AesGcmDecryption_new_def AesGcmEncryption_key_def
      AesGcmEncryption_iv_def AES_DEFAULT_KEYLENGTH_def AES_BLOCKSIZE_def Let_def split: if_splits option.splits)

section \<open>A concrete environment\<close>

text \<open>
  Small stand-ins for the parameters that satisfy the laws, used to instantiate theorems:
  points are numbers encoded in their first byte, a signature is the signer's byte followed
  by the sum of the message, encryption leaves the data as it is and appends a zero tag.
\<close>

definition demo_env :: "(nat, nat) env" where
  "demo_env =
     \<lparr>host = Little,
      DecodePoint = (\<lambda>bs. if length bs = 33 \<and> tl bs = replicate 32 0 then unat (hd bs) else 256),
      EncodePoint = (\<lambda>p. word_of_nat p # replicate 32 0),
      ValidatePublic = (\<lambda>p. p < 256),
      ValidatePrivate = (\<lambda>k. k < 256),
      GeneratePrivate = (\<lambda>seed. seed),
      MakePublicKey = (\<lambda>k. k mod 256),
      SignMessage = (\<lambda>k seed m. [word_of_nat (k mod 256), sum_list m]),
      VerifyMessage = (\<lambda>p m s. s = [word_of_nat p, sum_list m]),
      PublicKeyLength = 65,
      GenerateKeyPair = (\<lambda>seed. ([word_of_nat seed], word_of_nat seed # replicate 64 0)),
      Agree = (\<lambda>a b. Some [a ! 0 * b ! 0]),
      SHA256 = (\<lambda>x. take 32 (x @ replicate 32 0)),
      SetKeyWithIV = (\<lambda>key iv. if length key = 32 \<and> length iv = 16 then None
                               else Some (Invalid_argument ''invalid key length'')),
      AuthenticatedEncryptionFilter = (\<lambda>d key iv n x. x @ replicate n 0),
      TotalPutLength = (\<lambda>n k. min n k),
      GenerateBlock = (\<lambda>seed n. replicate n (word_of_nat seed))\<rparr>"

lemma demo_ecdsa_laws: "ecdsa_laws demo_env"
  by (auto simp: ecdsa_laws_def demo_env_def unat_of_nat take_bit_eq_mod)

lemma demo_ecdh_laws: "ecdh_laws demo_env"
  by (auto simp: ecdh_laws_def demo_env_def mult.commute)

lemma demo_aead_laws: "aead_laws demo_env"
  by (auto simp: aead_laws_def demo_env_def)

definition demo_pair :: "(nat, nat) EcdsaPair" where
  "demo_pair = \<lparr>pair_private = 7, pair_public = 7\<rparr>"

lemma demo_pair_ok: "pair_ok demo_env demo_pair"
  by (simp add: pair_ok_def demo_env_def demo_pair_def)

lemma demo_valid [simp]: "ValidatePublic demo_env p \<longleftrightarrow> p < 256"
  by (simp add: demo_env_def)

end
