(* ===== verification/Message.thy ===== *)
theory Message
  imports Crypto
begin

text \<open>
  The wire format of messages (\<open>src/impl/message.hpp\<close>, \<open>message.cpp\<close>): an eight-byte packed
  header, an optional source and destination, a body whose length the header gives, and
  whatever follows is the signature. A message with a source is signed over everything before
  the signature, and parsing refuses it when the signature does not verify.
\<close>

section \<open>Types\<close>

text \<open>
  \<open>Message::Type\<close> is an enumeration over \<open>uint8_t\<close> and a received byte is cast to it
  unchecked, so a type is any byte; the named values are constants.
\<close>

definition Dummy :: byte where "Dummy = 0x00"
definition Hello :: byte where "Hello = 0x01"
definition StateType :: byte where "StateType = 0x02"
definition Signaling :: byte where "Signaling = 0x10"
definition Provisioning :: byte where "Provisioning = 0x11"
definition User :: byte where "User = 0x80"

lemmas message_types = Dummy_def Hello_def StateType_def Signaling_def Provisioning_def User_def

definition HasSource :: byte where "HasSource = 0x01"
definition HasDestination :: byte where "HasDestination = 0x02"

record header =
  h_type :: byte
  h_flags :: byte
  h_length :: "16 word"
  h_sequence :: "32 word"

text \<open>The packed header in memory, and a header read from eight bytes of memory.\<close>

definition header_bytes :: "endian \<Rightarrow> header \<Rightarrow> binary" where
  "header_bytes e h = [h_type h, h_flags h] @ mem16 e (h_length h) @ mem32 e (h_sequence h)"

definition header_load :: "endian \<Rightarrow> binary \<Rightarrow> header" where
  "header_load e bs =
     \<lparr>h_type = bs ! 0, h_flags = bs ! 1,
      h_length = load16 e (take 2 (drop 2 bs)), h_sequence = load32 e (take 4 (drop 4 bs))\<rparr>"

record 'p message =
  m_type :: byte
  m_sequence :: "32 word"
  m_source :: "'p option"
  m_destination :: "'p option"
  m_body :: binary
  m_signature :: binary

section \<open>Operations\<close>

definition message_binary :: "('p, 'k) env \<Rightarrow> 'p message \<Rightarrow> exn + binary" where
  "message_binary env m =
     (if length (m_body m) > 65535 then Inl (Runtime_error ''Message body is too long'')
      else
        (let header = \<lparr>h_type = m_type m, h_flags = 0,
                       h_length = htons (host env) (of_nat (length (m_body m))),
                       h_sequence = htonl (host env) (m_sequence m)\<rparr>;
             header = (if m_source m \<noteq> None
                       then header\<lparr>h_flags := or (h_flags header) HasSource\<rparr> else header);
             header = (if m_destination m \<noteq> None
                       then header\<lparr>h_flags := or (h_flags header) HasDestination\<rparr> else header);
             writer = wr_write (header_bytes (host env) header) writer_new;
             writer = (case m_source m of None \<Rightarrow> writer | Some i \<Rightarrow> write_identifier env i writer);
             writer = (case m_destination m of None \<Rightarrow> writer | Some i \<Rightarrow> write_identifier env i writer);
             writer = wr_write (m_body m) writer;
             writer = wr_write (m_signature m) writer
         in Inr (wr_data writer)))"

text \<open>\<open>if (header.flags & flag) x = reader.read(Identifier::Size);\<close>\<close>

definition read_optional ::
    "('p, 'k) env \<Rightarrow> bool \<Rightarrow> binary_reader \<Rightarrow> exn + 'p option \<times> binary_reader" where
  "read_optional env present r =
     (if present then sbind (read_identifier env r) (\<lambda>(i, r'). Inr (Some i, r'))
      else Inr (None, r))"

text \<open>The last statement of the parsing constructor, on the fields read from \<open>bin\<close>.\<close>

definition message_check :: "('p, 'k) env \<Rightarrow> binary \<Rightarrow> 'p message \<Rightarrow> exn + 'p message" where
  "message_check env bin m =
     (case m_source m of
        Some p \<Rightarrow>
          if \<not> EcdsaPublic_verify env p (take (length bin - length (m_signature m)) bin) (m_signature m)
          then Inl (Invalid_argument ''Message signature is invalid'')
          else Inr m
      | None \<Rightarrow> Inr m)"

text \<open>The fields that follow the header, then the check; \<open>r\<close> is the reader past the header.\<close>

definition message_after_header ::
    "('p, 'k) env \<Rightarrow> binary \<Rightarrow> byte \<Rightarrow> 32 word \<Rightarrow> byte \<Rightarrow> nat \<Rightarrow> binary_reader \<Rightarrow> exn + 'p message" where
  "message_after_header env bin type sequence flags len r =
     sbind (read_optional env (and flags HasSource \<noteq> 0) r) (\<lambda>(source, r).
     sbind (read_optional env (and flags HasDestination \<noteq> 0) r) (\<lambda>(destination, r).
     sbind (rd_read len r) (\<lambda>(body, r).
       message_check env bin
         \<lparr>m_type = type, m_sequence = sequence, m_source = source,
          m_destination = destination, m_body = body, m_signature = rd_left r\<rparr>)))"

definition message_of :: "('p, 'k) env \<Rightarrow> binary \<Rightarrow> exn + 'p message" where
  "message_of env bin =
     sbind (rd_read 8 (reader_of bin)) (\<lambda>(hb, r).
     (let header = header_load (host env) hb;
          sequence = ntohl (host env) (h_sequence header);
          len = unat (ntohs (host env) (h_length header))
      in message_after_header env bin (h_type header) sequence (h_flags header) len r))"

definition message_sign ::
    "('p, 'k) env \<Rightarrow> ('p, 'k) EcdsaPair \<Rightarrow> nat \<Rightarrow> 'p message \<Rightarrow> exn + 'p message" where
  "message_sign env pair seed m =
     (let m = m\<lparr>m_source := Some (pair_public pair)\<rparr>; m = m\<lparr>m_signature := []\<rparr>
      in sbind (message_binary env m) (\<lambda>b. Inr (m\<lparr>m_signature := EcdsaPair_sign env pair seed b\<rparr>)))"

definition Message_Create ::
    "('p, 'k) env \<Rightarrow> nat \<Rightarrow> byte \<Rightarrow> 32 word \<Rightarrow> binary \<Rightarrow> ('p, 'k) EcdsaPair option \<Rightarrow> 'p option
     \<Rightarrow> exn + 'p message" where
  "Message_Create env seed type sequence body sourceEcdsaPair destination =
     (let message = \<lparr>m_type = type, m_sequence = sequence, m_source = None,
                     m_destination = destination, m_body = body, m_signature = []\<rparr>
      in case sourceEcdsaPair of
           None \<Rightarrow> Inr message
         | Some pair \<Rightarrow> message_sign env pair seed message)"

definition make_message ::
    "('p, 'k) env \<Rightarrow> nat \<Rightarrow> byte \<Rightarrow> 32 word \<Rightarrow> binary \<Rightarrow> ('p, 'k) EcdsaPair option \<Rightarrow> 'p option
     \<Rightarrow> exn + 'p message" where
  "make_message env seed type sequence body sourceEcdsaPair destination =
     Message_Create env seed type sequence body sourceEcdsaPair destination"

section \<open>The layout\<close>

definition flags_of :: "'p message \<Rightarrow> byte" where
  "flags_of m = (if m_source m \<noteq> None then 1 else 0) + (if m_destination m \<noteq> None then 2 else 0)"

definition opt_bytes :: "('p, 'k) env \<Rightarrow> 'p option \<Rightarrow> binary" where
  "opt_bytes env i = (case i of None \<Rightarrow> [] | Some p \<Rightarrow> Identifier_binary env p)"

text \<open>Everything before the signature, in wire order; no trace of the host's byte order.\<close>

definition signed_part :: "('p, 'k) env \<Rightarrow> 'p message \<Rightarrow> binary" where
  "signed_part env m =
     [m_type m, flags_of m] @ be16 (of_nat (length (m_body m))) @ be32 (m_sequence m)
     @ opt_bytes env (m_source m) @ opt_bytes env (m_destination m) @ m_body m"

lemma message_binary_layout:
  "message_binary env m =
     (if length (m_body m) > 65535 then Inl (Runtime_error ''Message body is too long'')
      else Inr (signed_part env m @ m_signature m))"
  by (simp add: message_binary_def signed_part_def header_bytes_def flags_of_def opt_bytes_def
      ident.data_write HasSource_def HasDestination_def Let_def split: option.splits)

section \<open>Parsing what was written\<close>

definition message_ok :: "('p, 'k) env \<Rightarrow> 'p message \<Rightarrow> bool" where
  "message_ok env m \<longleftrightarrow>
     length (m_body m) \<le> 65535
     \<and> (\<forall>p. m_source m = Some p \<longrightarrow> ValidatePublic env p)
     \<and> (\<forall>p. m_destination m = Some p \<longrightarrow> ValidatePublic env p)"

text \<open>The signature is there and right, when the message names a source.\<close>

definition message_signed :: "('p, 'k) env \<Rightarrow> 'p message \<Rightarrow> bool" where
  "message_signed env m \<longleftrightarrow>
     (\<forall>p. m_source m = Some p \<longrightarrow> EcdsaPublic_verify env p (signed_part env m) (m_signature m))"

lemma flags_of_source: "and (flags_of m) HasSource \<noteq> 0 \<longleftrightarrow> m_source m \<noteq> None"
  by (simp add: flags_of_def HasSource_def)

lemma flags_of_destination: "and (flags_of m) HasDestination \<noteq> 0 \<longleftrightarrow> m_destination m \<noteq> None"
  by (simp add: flags_of_def HasDestination_def)

lemma read_optional_bytes:
  assumes "ecdsa_laws env" "\<forall>p. x = Some p \<longrightarrow> ValidatePublic env p"
    "rd_ok r" "rd_left r = opt_bytes env x @ rest"
  shows "read_optional env (x \<noteq> None) r = Inr (x, rd_advance (length (opt_bytes env x)) r)"
proof (cases x)
  case None
  then show ?thesis
    by (simp add: read_optional_def opt_bytes_def rd_advance_def)
next
  case (Some p)
  with assms have "read_identifier env r = Inr (p, rd_advance 33 r)"
    by (intro ident.read_encoding [where rest = rest]) (auto simp: opt_bytes_def)
  moreover have "length (Identifier_binary env p) = 33"
    using assms Some by (intro ident.length_encoding) auto
  ultimately show ?thesis
    using Some by (simp add: read_optional_def opt_bytes_def)
qed

text \<open>What the parser makes of bytes in the layout of a message; only two bits of the flags count.\<close>

lemma message_of_layout:
  assumes "ecdsa_laws env" "message_ok env m"
    and "length l = 2" "length k = 4" "m_sequence m = asm32 k" "flags_of m = and f 3"
    and "length (m_body m) = unat (asm16 l)"
    and bin: "bin = [m_type m, f] @ l @ k @ opt_bytes env (m_source m) @ opt_bytes env (m_destination m)
      @ m_body m @ m_signature m"
  shows "message_of env bin = message_check env bin m"
proof -
  let ?src = "opt_bytes env (m_source m)" and ?dst = "opt_bytes env (m_destination m)"
  let ?r1 = "rd_advance 8 (reader_of bin)"
  let ?r2 = "rd_advance (length ?src) ?r1"
  let ?r3 = "rd_advance (length ?dst) ?r2"
  have flag: "and f HasSource \<noteq> 0 \<longleftrightarrow> m_source m \<noteq> None" "and f HasDestination \<noteq> 0 \<longleftrightarrow> m_destination m \<noteq> None"
  proof -
    have "and f HasSource = and (and f 3) HasSource" "and f HasDestination = and (and f 3) HasDestination"
      by (simp_all add: and.assoc HasSource_def HasDestination_def)
    then show "and f HasSource \<noteq> 0 \<longleftrightarrow> m_source m \<noteq> None" "and f HasDestination \<noteq> 0 \<longleftrightarrow> m_destination m \<noteq> None"
      using flags_of_source [of m] flags_of_destination [of m] by (simp_all add: assms(6))
  qed
  have left1: "rd_left ?r1 = ?src @ ?dst @ m_body m @ m_signature m" and ok1: "rd_ok ?r1"
    using assms(3,4) by (simp_all add: bin rd_ok_advance)
  have left2: "rd_left ?r2 = ?dst @ m_body m @ m_signature m" and ok2: "rd_ok ?r2"
    using left1 ok1 by (simp_all add: rd_ok_advance)
  have left3: "rd_left ?r3 = m_body m @ m_signature m" and ok3: "rd_ok ?r3"
    using left2 ok2 by (simp_all add: rd_ok_advance)
  have r0: "rd_read 8 (reader_of bin) = Inr ([m_type m, f] @ l @ k, ?r1)"
    using assms(3,4) by (simp add: bin rd_read_eq)
  have header: "header_load e ([m_type m, f] @ l @ k) =
      \<lparr>h_type = m_type m, h_flags = f, h_length = load16 e l, h_sequence = load32 e k\<rparr>" for e
    using assms(3,4) by (simp add: header_load_def numeral_2_eq_2)
  have r1: "read_optional env (m_source m \<noteq> None) ?r1 = Inr (m_source m, ?r2)"
    using assms(1,2) left1 ok1 by (intro read_optional_bytes) (auto simp: message_ok_def)
  have r2: "read_optional env (m_destination m \<noteq> None) ?r2 = Inr (m_destination m, ?r3)"
    using assms(1,2) left2 ok2 by (intro read_optional_bytes) (auto simp: message_ok_def)
  have r3: "rd_read (unat (asm16 l)) ?r3 = Inr (m_body m, rd_advance (length (m_body m)) ?r3)"
    using left3 ok3 assms(7) by (simp add: rd_read_eq)
  have left4: "rd_left (rd_advance (length (m_body m)) ?r3) = m_signature m"
    using left3 by simp
  show ?thesis
    unfolding message_of_def message_after_header_def r0 sbind_simps Let_def prod.case header header.simps
      flag r1 r2 ntoh_load(1) [OF assms(3)] ntoh_load(2) [OF assms(4)] r3 left4
    using assms(5) by (cases m) simp
qed

lemma message_of_signed_part:
  assumes "ecdsa_laws env" "message_ok env m"
  shows "message_of env (signed_part env m @ sig) =
    (if message_signed env (m\<lparr>m_signature := sig\<rparr>) then Inr (m\<lparr>m_signature := sig\<rparr>)
     else Inl (Invalid_argument ''Message signature is invalid''))"
proof -
  let ?m = "m\<lparr>m_signature := sig\<rparr>"
  have len: "unat (word_of_nat (length (m_body m)) :: 16 word) = length (m_body m)"
    using assms(2) by (simp add: message_ok_def unat_of_nat take_bit_nat_eq_self_iff)
  have part: "signed_part env ?m = signed_part env m" "flags_of ?m = and (flags_of m) 3"
    by (simp_all add: signed_part_def flags_of_def)
  have "message_of env (signed_part env m @ sig) = message_check env (signed_part env m @ sig) ?m"
    by (rule message_of_layout [of env ?m _ _ "flags_of m", OF assms(1) _ be_lengths(1,2)])
      (use assms(2) part(2) len in \<open>simp_all add: message_ok_def signed_part_def\<close>)
  then show ?thesis
    by (cases "m_source m") (auto simp: message_check_def message_signed_def part(1))
qed

section \<open>Writing what was parsed\<close>

text \<open>
  A 33-byte string that decodes to a valid point is the compressed encoding of that point:
  there is no second encoding that passes validation.
\<close>

definition canonical_points :: "('p, 'k) env \<Rightarrow> bool" where
  "canonical_points env \<longleftrightarrow>
     (\<forall>bs. length bs = 33 \<longrightarrow> ValidatePublic env (DecodePoint env bs) \<longrightarrow>
       EncodePoint env (DecodePoint env bs) = bs)"

lemma read_optional_inv:
  assumes "canonical_points env" "rd_ok r" "read_optional env b r = Inr (x, r')"
  shows "rd_left r = opt_bytes env x @ rd_left r'" "rd_ok r'" "b \<longleftrightarrow> x \<noteq> None"
    "x = Some p \<Longrightarrow> ValidatePublic env p"
  using assms
  by (auto simp: read_optional_def read_identifier_def sbind_Inr_iff rd_read_eq identifier_defs
      canonical_points_def opt_bytes_def Let_def rd_ok_advance split: if_splits)

lemma flags_masked:
  assumes "and f HasSource \<noteq> 0 \<longleftrightarrow> m_source m \<noteq> None"
    "and f HasDestination \<noteq> 0 \<longleftrightarrow> m_destination m \<noteq> None"
  shows "flags_of m = and f 3"
proof -
  have 3: "(3 :: byte) = or 1 2"
    by simp
  have b0: "and f 1 = (if bit f 0 then 1 else 0)"
  proof (rule bit_word_eqI)
    show "bit (and f 1) n = bit (if bit f 0 then 1 else 0 :: byte) n" for n
      by (cases n) (auto simp: bit_and_iff bit_1_iff)
  qed
  have b1: "and f 2 = (if bit f 1 then 2 else 0)"
  proof (rule bit_word_eqI)
    have "bit (2 :: byte) n \<longleftrightarrow> n = 1" for n
      by (cases n) (auto simp: bit_Suc bit_0 bit_1_iff)
    then show "bit (and f 2) n = bit (if bit f 1 then 2 else 0 :: byte) n" for n
      by (simp add: bit_and_iff) blast
  qed
  show ?thesis
    using assms unfolding 3 bit.conj_disj_distrib b0 b1 flags_of_def HasSource_def HasDestination_def
    by (auto split: if_splits)
qed

lemma read_optional_frame:
  "read_optional env b r = Inr (x, r') \<Longrightarrow> rd_ok r \<Longrightarrow> rd_binary r' = rd_binary r \<and> rd_ok r'"
  by (auto simp: read_optional_def read_identifier_def sbind_Inr_iff dest: rd_read_frame
      split: if_splits)

lemma message_check_Inr_iff:
  "message_check env bin m' = Inr m \<longleftrightarrow> m' = m \<and> message_check env bin m = Inr m"
  by (auto simp: message_check_def split: option.splits if_splits)

lemma header_load_split:
  assumes "length hb = 8"
  obtains t f l k where "hb = [t, f] @ l @ k" "length l = 2" "length k = 4"
    "header_load e hb = \<lparr>h_type = t, h_flags = f, h_length = load16 e l, h_sequence = load32 e k\<rparr>"
proof -
  obtain t f a b c d g h where "hb = [t, f, a, b, c, d, g, h]"
    using assms by (auto simp: length8)
  then show thesis
    by (intro that [of t f "[a, b]" "[c, d, g, h]"]) (simp_all add: header_load_def)
qed

text \<open>Everything a successful parse establishes, in one step.\<close>

lemma message_of_inv:
  assumes "canonical_points env" "message_of env bin = Inr m"
  obtains t f l k where
    "bin = [t, f] @ l @ k @ opt_bytes env (m_source m) @ opt_bytes env (m_destination m) @ m_body m @ m_signature m"
    "length l = 2" "length k = 4" "m_type m = t" "m_sequence m = asm32 k" "flags_of m = and f 3"
    "length (m_body m) = unat (asm16 l)" "message_ok env m"
    "\<And>p. m_source m = Some p \<Longrightarrow>
       EcdsaPublic_verify env p (take (length bin - length (m_signature m)) bin) (m_signature m)"
proof -
  let ?r1 = "rd_advance 8 (reader_of bin)"
  let ?hb = "take 8 bin"
  have len: "8 \<le> length bin"
    using assms(2) by (cases "8 \<le> length bin") (auto simp: message_of_def rd_read_eq)
  obtain t f l k where hb: "?hb = [t, f] @ l @ k" "length l = 2" "length k = 4"
    "header_load (host env) ?hb =
       \<lparr>h_type = t, h_flags = f, h_length = load16 (host env) l, h_sequence = load32 (host env) k\<rparr>"
    by (rule header_load_split [of ?hb "host env"]) (use len in simp)
  have after: "message_after_header env bin t (asm32 k) f (unat (asm16 l)) ?r1 = Inr m"
    using assms(2) len hb
    by (simp add: message_of_def rd_read_eq [of "reader_of bin"] ntoh_load Let_def)
  from after obtain source r2 destination r3 body r4 where
    reads: "read_optional env (and f HasSource \<noteq> 0) ?r1 = Inr (source, r2)"
      "read_optional env (and f HasDestination \<noteq> 0) r2 = Inr (destination, r3)"
      "rd_read (unat (asm16 l)) r3 = Inr (body, r4)" and
    last: "message_check env bin \<lparr>m_type = t, m_sequence = asm32 k, m_source = source,
      m_destination = destination, m_body = body, m_signature = rd_left r4\<rparr> = Inr m"
    unfolding message_after_header_def by (elim sbind_pairE)
  have m: "m = \<lparr>m_type = t, m_sequence = asm32 k, m_source = source,
      m_destination = destination, m_body = body, m_signature = rd_left r4\<rparr>"
    and check: "message_check env bin m = Inr m"
    using last by (auto dest: message_check_Inr_iff [THEN iffD1])
  have r2: "read_optional env (and f HasSource \<noteq> 0) ?r1 = Inr (m_source m, r2)" and
    r3: "read_optional env (and f HasDestination \<noteq> 0) r2 = Inr (m_destination m, r3)" and
    r4: "rd_read (unat (asm16 l)) r3 = Inr (m_body m, r4)" and
    fields: "m_signature m = rd_left r4" "m_type m = t" "m_sequence m = asm32 k"
    using reads by (simp_all add: m)
  have rest: "m_signature m = rd_left r4" "m_type m = t" "m_sequence m = asm32 k"
    "\<forall>p. m_source m = Some p \<longrightarrow>
        EcdsaPublic_verify env p (take (length bin - length (rd_left r4)) bin) (rd_left r4)"
    using fields check by (auto simp: message_check_def split: if_splits)
  have ok1: "rd_ok ?r1" and left1: "bin = ?hb @ rd_left ?r1"
    using len by (simp_all add: rd_ok_advance)
  note i2 = read_optional_inv [OF assms(1) ok1 r2]
  note i3 = read_optional_inv [OF assms(1) i2(2) r3]
  have "unat (asm16 l) \<le> length (rd_left r3)" "m_body m = take (unat (asm16 l)) (rd_left r3)"
    "r4 = rd_advance (unat (asm16 l)) r3"
    using r4 i3(2) by (auto simp: rd_read_eq split: if_splits)
  then have body: "rd_left r3 = m_body m @ rd_left r4" "length (m_body m) = unat (asm16 l)"
    by simp_all
  have "unat (asm16 l) < 2 ^ 16"
    using unsigned_less [of "asm16 l", where ?'a = nat] by simp
  show thesis
  proof (rule that)
    show "bin = [t, f] @ l @ k @ opt_bytes env (m_source m) @ opt_bytes env (m_destination m)
        @ m_body m @ m_signature m"
      using left1 i2(1) i3(1) body(1) rest(1) hb(1) by simp
    show "flags_of m = and f 3"
      by (rule flags_masked [OF i2(3) i3(3)])
    show "message_ok env m"
      using \<open>unat (asm16 l) < 2 ^ 16\<close> body(2) i2(4) i3(4) by (simp add: message_ok_def)
    show "\<And>p. m_source m = Some p \<Longrightarrow>
        EcdsaPublic_verify env p (take (length bin - length (m_signature m)) bin) (m_signature m)"
      using rest by simp
  qed (use hb rest body in simp_all)
qed

section \<open>Encrypted bodies\<close>

record CipherBody =
  cb_source :: binary
  cb_destination :: binary
  cb_iv :: binary
  cb_ciphertext :: binary

definition CipherBody_Encrypt ::
    "('p, 'k) env \<Rightarrow> nat \<Rightarrow> binary \<Rightarrow> Ecdh \<Rightarrow> binary \<Rightarrow> exn + CipherBody" where
  "CipherBody_Encrypt env seed cleartext ecdh destination =
     sbind (Ecdh_agree env ecdh destination) (\<lambda>secret.
     (let sharedKey = Sha256 env secret in
     sbind (AesGcmEncryption_new env seed sharedKey) (\<lambda>encryption.
       Inr \<lparr>cb_source = Ecdh_publicKey ecdh, cb_destination = destination,
            cb_iv = gcm_iv encryption, cb_ciphertext = AesGcm_encrypt env encryption cleartext\<rparr>)))"

definition CipherBody_of :: "binary \<Rightarrow> exn + CipherBody" where
  "CipherBody_of body =
     sbind (rd_read Ecdh_KeySize (reader_of body)) (\<lambda>(source, r).
     sbind (rd_read Ecdh_KeySize r) (\<lambda>(destination, r).
     sbind (rd_read 16 r) (\<lambda>(iv, r).
       Inr \<lparr>cb_source = source, cb_destination = destination, cb_iv = iv,
            cb_ciphertext = rd_left r\<rparr>)))"

definition CipherBody_decrypt :: "('p, 'k) env \<Rightarrow> CipherBody \<Rightarrow> Ecdh \<Rightarrow> exn + binary" where
  "CipherBody_decrypt env cb ecdh =
     (if Ecdh_publicKey ecdh \<noteq> cb_destination cb
      then Inl (Runtime_error ''Destination ECDH public key does not match'')
      else
        sbind (Ecdh_agree env ecdh (cb_source cb)) (\<lambda>secret.
        (let sharedKey = Sha256 env secret in
        sbind (AesGcmDecryption_new env sharedKey (cb_iv cb)) (\<lambda>decryption.
          Inr (AesGcm_decrypt env decryption (cb_ciphertext cb))))))"

definition CipherBody_binary :: "CipherBody \<Rightarrow> binary" where
  "CipherBody_binary cb =
     wr_data (wr_write (cb_ciphertext cb) (wr_write (cb_iv cb)
       (wr_write (cb_destination cb) (wr_write (cb_source cb) writer_new))))"

lemma CipherBody_of_binary:
  assumes "length (cb_source cb) = 65" "length (cb_destination cb) = 65" "length (cb_iv cb) = 16"
  shows "CipherBody_of (CipherBody_binary cb) = Inr cb"
  using assms
  by (simp add: CipherBody_of_def CipherBody_binary_def rd_read_eq rd_ok_advance Ecdh_KeySize_def)

text \<open>A body shorter than the three fixed fields is refused; nothing else is.\<close>

lemma CipherBody_of_short:
  "length body < 146 \<Longrightarrow> CipherBody_of body = Inl (Runtime_error ''read out of bounds'')"
  by (auto simp: CipherBody_of_def rd_read_eq rd_ok_advance Ecdh_KeySize_def)

lemma CipherBody_exchange:
  assumes "ecdh_laws env" "aead_laws env" "a = Ecdh_new env s" "b = Ecdh_new env t"
  shows "\<exists>cb junk. CipherBody_Encrypt env seed m a (Ecdh_publicKey b) = Inr cb
    \<and> CipherBody_of (CipherBody_binary cb) = Inr cb
    \<and> CipherBody_decrypt env cb b = Inr (m @ junk) \<and> 16 \<le> length junk
    \<and> cb_destination cb = Ecdh_publicKey b \<and> length (CipherBody_binary cb) = 162 + length m"
proof -
  have len: "length (dh_public a) = 65" "length (dh_public b) = 65" "PublicKeyLength env = 65"
    using assms by (simp_all add: ecdh_laws_def)
  have "\<exists>z. Agree env (fst (GenerateKeyPair env s)) (snd (GenerateKeyPair env t)) = Some z
      \<and> Agree env (fst (GenerateKeyPair env t)) (snd (GenerateKeyPair env s)) = Some z"
    using assms(1) unfolding ecdh_laws_def by blast
  then obtain z where z: "Agree env (dh_private a) (dh_public b) = Some z"
    "Agree env (dh_private b) (dh_public a) = Some z"
    using assms(3,4) by auto
  define key where "key = SHA256 env z"
  define c where "c = \<lparr>gcm_key = key, gcm_iv = GenerateBlock env seed 16\<rparr>"
  have key: "length key = 32" and iv: "length (gcm_iv c) = 16"
    using assms(2) by (simp_all add: key_def c_def aead_lawsD)
  have set: "SetKeyWithIV env key (gcm_iv c) = None"
    using key iv assms(2) by (simp add: aead_lawsD)
  define cb where "cb = \<lparr>cb_source = dh_public a, cb_destination = dh_public b,
      cb_iv = gcm_iv c, cb_ciphertext = AesGcm_encrypt env c m\<rparr>"
  have enc: "CipherBody_Encrypt env seed m a (Ecdh_publicKey b) = Inr cb"
    using z len key set
    by (simp add: CipherBody_Encrypt_def Ecdh_agree_def Ecdh_publicKey_def Sha256_def
        AesGcmEncryption_new_def AES_BLOCKSIZE_def cb_def c_def flip: key_def)
  have "CipherBody_decrypt env cb b = Inr (AesGcm_decrypt env c (AesGcm_encrypt env c m))"
    using z len key set iv
    by (simp add: CipherBody_decrypt_def Ecdh_agree_def Ecdh_publicKey_def Sha256_def
        AesGcmDecryption_new_def AES_BLOCKSIZE_def cb_def c_def flip: key_def)
  moreover obtain junk where "AesGcm_decrypt env c (AesGcm_encrypt env c m) = m @ junk" "16 \<le> length junk"
    using AesGcm_decrypt_encrypt [OF assms(2)] by blast
  moreover have "CipherBody_of (CipherBody_binary cb) = Inr cb"
    using len iv by (intro CipherBody_of_binary) (simp_all add: cb_def)
  moreover have "length (CipherBody_binary cb) = 162 + length m"
    using len iv aead_lawsD(4) [OF assms(2)]
    by (simp add: CipherBody_binary_def cb_def AesGcm_encrypt_def GCM_TAG_SIZE_def)
  ultimately show ?thesis
    using enc by (intro exI [of _ cb] exI [of _ junk]) (simp add: cb_def Ecdh_publicKey_def)
qed

section \<open>Properties\<close>

lemma message_sign_simp:
  "message_sign env pair seed m =
     (if length (m_body m) > 65535 then Inl (Runtime_error ''Message body is too long'')
      else Inr (m\<lparr>m_source := Some (pair_public pair),
                  m_signature := EcdsaPair_sign env pair seed
                    (signed_part env (m\<lparr>m_source := Some (pair_public pair)\<rparr>))\<rparr>))"
  by (simp add: message_sign_def message_binary_layout signed_part_def flags_of_def)

lemma signed_part_signature [simp]: "signed_part env (m\<lparr>m_signature := s\<rparr>) = signed_part env m"
  by (simp add: signed_part_def flags_of_def)

lemma message_signed_sign:
  assumes "ecdsa_laws env" "pair_ok env pair" "message_sign env pair seed m = Inr m'"
  shows "message_signed env m'"
  using assms(3) EcdsaPair_sign_verifies [OF assms(1,2)]
  by (auto simp: message_sign_simp message_signed_def split: if_splits)

lemma message_roundtrip:
  assumes "ecdsa_laws env" "message_ok env m" "message_signed env m"
  shows "sbind (message_binary env m) (message_of env) = Inr m"
proof -
  have "message_binary env m = Inr (signed_part env m @ m_signature m)"
    using assms(2) by (simp add: message_binary_layout message_ok_def)
  then show ?thesis
    using assms message_of_signed_part [of env m "m_signature m"] by simp
qed

lemma created_message:
  assumes "ecdsa_laws env" "pair_ok env pair" "length body \<le> 65535"
    and "\<forall>p. destination = Some p \<longrightarrow> ValidatePublic env p"
  shows "\<exists>m. Message_Create env seed type sequence body (Some pair) destination = Inr m
    \<and> m_source m = Some (pair_public pair) \<and> m_type m = type \<and> m_sequence m = sequence
    \<and> m_body m = body \<and> m_destination m = destination
    \<and> sbind (message_binary env m) (message_of env) = Inr m"
proof -
  let ?m = "\<lparr>m_type = type, m_sequence = sequence, m_source = None,
             m_destination = destination, m_body = body, m_signature = []\<rparr>"
  obtain m where m: "message_sign env pair seed ?m = Inr m"
    using assms(3) by (simp add: message_sign_simp)
  have "message_ok env m"
    using m assms by (auto simp: message_sign_simp message_ok_def pair_ok_def split: if_splits)
  with m have "sbind (message_binary env m) (message_of env) = Inr m"
    using assms by (intro message_roundtrip message_signed_sign)
  with m show ?thesis
    by (auto simp: Message_Create_def message_sign_simp split: if_splits)
qed

text \<open>C13: a message created with a key pair either is refused because its body exceeds 65535
  bytes, or names the pair as its source and is parsed back, field for field, from its own
  serialisation by every receiver of the same byte order: type, sequence, destination, body and signature survive, and
  the signature verifies.\<close>

theorem create_send_receive:
  assumes "ecdsa_laws env" "pair_ok env pair"
    and "\<forall>p. destination = Some p \<longrightarrow> ValidatePublic env p"
  shows "Message_Create env seed type sequence body (Some pair) destination =
      Inl (Runtime_error ''Message body is too long'') \<and> length body > 65535
    \<or> (\<exists>m. Message_Create env seed type sequence body (Some pair) destination = Inr m
        \<and> m_source m = Some (pair_public pair) \<and> m_type m = type \<and> m_sequence m = sequence
        \<and> m_body m = body \<and> m_destination m = destination
        \<and> sbind (message_binary env m) (message_of env) = Inr m)"
proof (cases "length body > 65535")
  case True
  then show ?thesis
    by (simp add: Message_Create_def message_sign_simp)
next
  case False
  then show ?thesis
    using created_message [OF assms(1,2) _ assms(3), of body seed type sequence] by simp
qed

theorem create_send_receive_witness:
  "\<exists>m. Message_Create demo_env 3 User 41 [1, 2, 3] (Some demo_pair) (Some 9) = Inr m
     \<and> sbind (message_binary demo_env m) (message_of demo_env) = Inr m"
  using create_send_receive [OF demo_ecdsa_laws demo_pair_ok, of "Some 9" 3 User 41 "[1, 2, 3]"]
  by auto

text \<open>C14: the parser accepts a message that names a source only when the bytes received end in
  a signature that verifies, under that source's validated key, over all the bytes before it.\<close>

theorem accepted_message_authentic:
  assumes "message_of env bin = Inr m" "m_source m = Some p"
  shows "\<exists>signed. bin = signed @ m_signature m \<and> EcdsaPublic_verify env p signed (m_signature m)
    \<and> ValidatePublic env p"
proof -
  obtain hb r where r0: "rd_read 8 (reader_of bin) = Inr (hb, r)" and
    after: "message_after_header env bin (h_type (header_load (host env) hb))
      (ntohl (host env) (h_sequence (header_load (host env) hb)))
      (h_flags (header_load (host env) hb))
      (unat (ntohs (host env) (h_length (header_load (host env) hb)))) r = Inr m"
    using assms(1) unfolding message_of_def Let_def by (elim sbind_pairE)
  have "rd_binary (reader_of bin) = bin"
    by (simp add: reader_of_def)
  then have r: "rd_ok r" "rd_binary r = bin"
    using rd_read_frame [OF r0] by simp_all
  from after obtain fl ln source r2 destination r3 body r4 where
    reads: "read_optional env (and fl HasSource \<noteq> 0) r = Inr (source, r2)"
      "read_optional env (and fl HasDestination \<noteq> 0) r2 = Inr (destination, r3)"
      "rd_read ln r3 = Inr (body, r4)" and
    last: "message_check env bin \<lparr>m_type = h_type (header_load (host env) hb),
      m_sequence = ntohl (host env) (h_sequence (header_load (host env) hb)), m_source = source,
      m_destination = destination, m_body = body, m_signature = rd_left r4\<rparr> = Inr m"
    unfolding message_after_header_def by (elim sbind_pairE)
  have m: "m_source m = source" "m_signature m = rd_left r4" and check: "message_check env bin m = Inr m"
    using last by (auto dest: message_check_Inr_iff [THEN iffD1])
  have r4: "rd_binary r4 = bin" "rd_ok r4"
    using reads r read_optional_frame by (metis rd_read_frame)+
  have "ValidatePublic env p"
    using reads(1) assms(2) m(1)
    by (auto simp: read_optional_def sbind_Inr_iff dest: read_identifier_valid split: if_splits)
  moreover have "bin = take (length bin - length (rd_left r4)) bin @ rd_left r4"
    using r4 by (simp add: rd_left_def rd_ok_def)
  moreover have "EcdsaPublic_verify env p (take (length bin - length (m_signature m)) bin) (m_signature m)"
    using check assms(2) by (auto simp: message_check_def split: if_splits)
  ultimately show ?thesis
    using m(2) by auto
qed

theorem accepted_message_authentic_witness:
  "\<exists>signed. [1, 1, 0, 0, 0, 0, 0, 5, 7] @ replicate 32 0 @ [7, 14] =
      signed @ m_signature \<lparr>m_type = 1, m_sequence = 5, m_source = Some 7, m_destination = None,
                              m_body = [], m_signature = [7, 14]\<rparr>
    \<and> EcdsaPublic_verify demo_env 7 signed [7, 14] \<and> ValidatePublic demo_env 7"
proof -
  let ?m = "\<lparr>m_type = 1, m_sequence = 5, m_source = Some 7, m_destination = None,
             m_body = [], m_signature = [7, 14]\<rparr> :: nat message"
  have "message_of demo_env ([1, 1, 0, 0, 0, 0, 0, 5, 7] @ replicate 32 0 @ [7, 14]) = Inr ?m"
    by code_simp
  from accepted_message_authentic [OF this, of 7] show ?thesis
    by simp
qed

text \<open>C29: a node that forwards a message re-serialises what it parsed. The bytes it sends are
  the bytes it received with the six unused flag bits cleared, so forwarding is exact, and the
  signature still verifies downstream, unless one of those bits was set.\<close>

theorem forwarding_is_exact:
  assumes "canonical_points env" "message_of env bin = Inr m"
  shows "message_binary env m = Inr (bin[1 := and (bin ! 1) 3])"
proof -
  obtain t f l k where bin:
    "bin = [t, f] @ l @ k @ opt_bytes env (m_source m) @ opt_bytes env (m_destination m) @ m_body m @ m_signature m"
    and f: "length l = 2" "length k = 4" "m_type m = t" "m_sequence m = asm32 k" "flags_of m = and f 3"
      "length (m_body m) = unat (asm16 l)" "message_ok env m"
    using message_of_inv [OF assms] by metis
  have "be16 (of_nat (length (m_body m))) = l"
    using f by simp
  then have "signed_part env m @ m_signature m = bin[1 := and (bin ! 1) 3]"
    using bin f by (simp add: signed_part_def)
  then show ?thesis
    using f(7) by (simp add: message_binary_layout message_ok_def)
qed

lemma demo_canonical: "canonical_points demo_env"
proof -
  have "\<exists>b. bs = b # replicate 32 0" if "length bs = 33" "tl bs = replicate 32 0" for bs :: binary
    using that by (cases bs) auto
  then show ?thesis
    by (force simp: canonical_points_def demo_env_def)
qed

theorem forwarding_is_exact_witness:
  "message_binary demo_env \<lparr>m_type = 2, m_sequence = 5, m_source = None, m_destination = None,
      m_body = [9], m_signature = []\<rparr> = Inr ([2, 0xF0, 0, 1, 0, 0, 0, 5, 9][1 := and 0xF0 3])"
proof -
  have "message_of demo_env [2, 0xF0, 0, 1, 0, 0, 0, 5, 9] =
      Inr \<lparr>m_type = 2, m_sequence = 5, m_source = None, m_destination = None,
           m_body = [9], m_signature = []\<rparr>"
    by code_simp
  from forwarding_is_exact [OF demo_canonical this] show ?thesis
    by simp
qed

text \<open>C30: a body encrypted for another node's ECDH key, serialised, parsed and decrypted by that
  node gives the cleartext back, but followed by at least sixteen bytes that were never part of
  it: decryption runs through the filter made for encryption, which neither verifies nor removes
  the authentication tag.\<close>

theorem cipher_body_exchange:
  assumes "ecdh_laws env" "aead_laws env"
  shows "\<exists>cb junk. CipherBody_Encrypt env seed cleartext (Ecdh_new env s) (Ecdh_publicKey (Ecdh_new env t)) = Inr cb
    \<and> CipherBody_of (CipherBody_binary cb) = Inr cb
    \<and> CipherBody_decrypt env cb (Ecdh_new env t) = Inr (cleartext @ junk) \<and> 16 \<le> length junk"
  using CipherBody_exchange [OF assms refl refl] by blast

theorem cipher_body_exchange_witness:
  "\<exists>cb junk. CipherBody_Encrypt demo_env 1 [104, 105] (Ecdh_new demo_env 2) (Ecdh_publicKey (Ecdh_new demo_env 3)) = Inr cb
    \<and> CipherBody_of (CipherBody_binary cb) = Inr cb
    \<and> CipherBody_decrypt demo_env cb (Ecdh_new demo_env 3) = Inr ([104, 105] @ junk) \<and> 16 \<le> length junk"
  using cipher_body_exchange [OF demo_ecdh_laws demo_aead_laws] .

end
