(* ===== verification/State_Codec.thy ===== *)
theory State_Codec
  imports Message
begin

text \<open>
  The state a node advertises (\<open>src/impl/state.hpp\<close>, \<open>state.cpp\<close>): its key, a sequence
  number, its ECDH key and the set of its neighbours, carried as the body of a State message:
  65 bytes of key, then 33 bytes for each neighbour, in increasing order.
\<close>

record 'p state =
  st_ecdsaPublic :: 'p
  st_sequence :: "32 word"
  st_ecdhPublic :: binary
  st_neighbors :: "'p list"

definition State_new :: "'p \<Rightarrow> 32 word \<Rightarrow> binary \<Rightarrow> 'p state" where
  "State_new ecdsaPublic sequence ecdhPublic =
     \<lparr>st_ecdsaPublic = ecdsaPublic, st_sequence = sequence, st_ecdhPublic = ecdhPublic,
      st_neighbors = []\<rparr>"

definition state_id :: "'p state \<Rightarrow> 'p" where
  "state_id s = st_ecdsaPublic s"

definition State_body :: "('p, 'k) env \<Rightarrow> 'p state \<Rightarrow> binary" where
  "State_body env s =
     wr_data (fold (\<lambda>i. wr_write (Identifier_binary env i)) (st_neighbors s)
       (wr_write (st_ecdhPublic s) writer_new))"

definition State_toMessage ::
    "('p, 'k) env \<Rightarrow> nat \<Rightarrow> 'p state \<Rightarrow> ('p, 'k) EcdsaPair \<Rightarrow> exn + 'p message" where
  "State_toMessage env seed s ecdsaPair =
     make_message env seed StateType (st_sequence s) (State_body env s) (Some ecdsaPair) None"

text \<open>\<open>while (reader.size() >= Identifier::Size)\<close>: each turn reads one identifier.\<close>

function read_neighbors ::
    "('p::linorder, 'k) env \<Rightarrow> binary_reader \<Rightarrow> 'p list \<Rightarrow> exn + 'p list \<times> binary_reader" where
  "read_neighbors env r acc =
     (if rd_size r \<ge> Identifier_Size then
        (case rd_read Identifier_Size r of
           Inl e \<Rightarrow> Inl e
         | Inr (bs, r') \<Rightarrow>
             (case Identifier_of env bs of
                Inl e \<Rightarrow> Inl e
              | Inr i \<Rightarrow> read_neighbors env r' (oset_insert i acc)))
      else Inr (acc, r))"
  by pat_completeness auto
termination
  by (relation "measure (\<lambda>(env, r, acc). rd_size r)")
    (auto simp: rd_read_def rd_size_def Identifier_Size_def split: if_splits)

declare read_neighbors.simps [simp del]

definition State_FromMessage :: "('p::linorder, 'k) env \<Rightarrow> 'p message option \<Rightarrow> exn + 'p state" where
  "State_FromMessage env message =
     (case message of
        None \<Rightarrow> Inl (Invalid_argument ''Not a State message'')
      | Some m \<Rightarrow>
          (case m_source m of
             None \<Rightarrow> Inl (Invalid_argument ''Not a State message'')
           | Some source \<Rightarrow>
               if m_type m \<noteq> StateType then Inl (Invalid_argument ''Not a State message'')
               else if rd_size (reader_of (m_body m)) < Ecdh_KeySize
               then Inl (Invalid_argument ''Truncated State message'')
               else
                 sbind (rd_read Ecdh_KeySize (reader_of (m_body m))) (\<lambda>(ecdhPublic, r).
                 sbind (read_neighbors env r []) (\<lambda>(neighbors, r).
                   Inr ((State_new source (m_sequence m) ecdhPublic)\<lparr>st_neighbors := neighbors\<rparr>)))))"

section \<open>The neighbour list\<close>

lemma read_neighbors_step:
  "rd_size r \<ge> Identifier_Size \<Longrightarrow>
   read_neighbors env r acc =
     sbind (read_identifier env r) (\<lambda>(i, r'). read_neighbors env r' (oset_insert i acc))"
  by (subst read_neighbors.simps) (simp add: read_identifier_def sbind_def split: sum.split)

lemma read_neighbors_stop:
  "\<not> rd_size r \<ge> Identifier_Size \<Longrightarrow> read_neighbors env r acc = Inr (acc, r)"
  by (subst read_neighbors.simps) simp

lemma State_body_layout:
  "State_body env s = st_ecdhPublic s @ concat (map (Identifier_binary env) (st_neighbors s))"
  by (simp add: State_body_def wr_data_fold)

lemma length_neighbors:
  "ecdsa_laws env \<Longrightarrow> \<forall>i \<in> set ids. ValidatePublic env i \<Longrightarrow>
   length (concat (map (Identifier_binary env) ids)) = 33 * length ids"
  using ident.length_encoding [of env] by (induction ids) auto

lemma read_neighbors_encoded:
  assumes "ecdsa_laws env" "\<forall>i \<in> set ids. ValidatePublic env i"
    "rd_ok r" "rd_left r = concat (map (Identifier_binary env) ids) @ rest" "length rest < 33"
  shows "\<exists>r'. read_neighbors env r acc = Inr (fold oset_insert ids acc, r') \<and> rd_left r' = rest"
  using assms(2-4)
proof (induction ids arbitrary: r acc)
  case Nil
  then show ?case
    using assms(5) by (simp add: read_neighbors_stop rd_size_left Identifier_Size_def)
next
  case (Cons i ids)
  let ?more = "concat (map (Identifier_binary env) ids) @ rest"
  have len: "length (Identifier_binary env i) = 33"
    using Cons.prems assms(1) by (intro ident.length_encoding) auto
  have "read_identifier env r = Inr (i, rd_advance 33 r)"
    using Cons.prems assms(1) by (intro ident.read_encoding [where rest = ?more]) auto
  moreover have "rd_size r \<ge> Identifier_Size"
    using Cons.prems len by (simp add: rd_size_left Identifier_Size_def)
  ultimately have "read_neighbors env r acc = read_neighbors env (rd_advance 33 r) (oset_insert i acc)"
    by (simp add: read_neighbors_step)
  moreover have "rd_ok (rd_advance 33 r)" "rd_left (rd_advance 33 r) = ?more"
    using Cons.prems len by (simp_all add: rd_ok_advance)
  ultimately show ?case
    using Cons.IH [of "rd_advance 33 r" "oset_insert i acc"] Cons.prems(1) by simp
qed

text \<open>Whatever the bytes, the neighbours of a parsed state form an ordered set of valid keys.\<close>

lemma read_neighbors_ok:
  "read_neighbors env r acc = Inr (ids, r') \<Longrightarrow> oset_ok acc \<Longrightarrow> \<forall>i \<in> set acc. ValidatePublic env i \<Longrightarrow>
   oset_ok ids \<and> (\<forall>i \<in> set ids. ValidatePublic env i)"
proof (induction env r acc rule: read_neighbors.induct)
  case (1 env r acc)
  show ?case
  proof (cases "rd_size r \<ge> Identifier_Size")
    case False
    then show ?thesis
      using "1.prems" by (simp add: read_neighbors_stop)
  next
    case True
    obtain i r'' where i: "read_identifier env r = Inr (i, r'')"
      and rec: "read_neighbors env r'' (oset_insert i acc) = Inr (ids, r')"
      using "1.prems"(1) unfolding read_neighbors_step [OF True] by (elim sbind_pairE)
    obtain bs where rd: "rd_read Identifier_Size r = Inr (bs, r'')" and of_bs: "Identifier_of env bs = Inr i"
      using i by (auto simp: read_identifier_def sbind_Inr_iff)
    show ?thesis
      using "1.IH" [OF True rd refl of_bs rec] "1.prems" read_identifier_valid [OF i] by simp
  qed
qed

lemma FromMessage_wf:
  assumes "State_FromMessage env (Some m) = Inr s"
  shows "m_source m = Some (state_id s)" "st_sequence s = m_sequence m"
    "length (st_ecdhPublic s) = 65" "oset_ok (st_neighbors s)"
    "\<forall>i \<in> set (st_neighbors s). ValidatePublic env i"
proof -
  obtain key r ids r' where k: "rd_read Ecdh_KeySize (reader_of (m_body m)) = Inr (key, r)"
    and ids: "read_neighbors env r [] = Inr (ids, r')"
    and src: "m_source m = Some (st_ecdsaPublic s)"
    and s: "st_sequence s = m_sequence m" "st_ecdhPublic s = key" "st_neighbors s = ids"
    using assms by (auto simp: State_FromMessage_def State_new_def sbind_Inr_iff
        split: option.splits if_splits)
  show "m_source m = Some (state_id s)" "st_sequence s = m_sequence m"
    using src s by (simp_all add: state_id_def)
  show "length (st_ecdhPublic s) = 65"
  proof -
    have "65 \<le> length (m_body m)" "key = take 65 (m_body m)"
      using k by (auto simp: rd_read_eq Ecdh_KeySize_def split: if_splits)
    then show ?thesis
      using s by simp
  qed
  show "oset_ok (st_neighbors s)" "\<forall>i \<in> set (st_neighbors s). ValidatePublic env i"
    using read_neighbors_ok [OF ids] s by simp_all
qed

section \<open>Properties\<close>

definition state_ok :: "('p::linorder, 'k) env \<Rightarrow> 'p state \<Rightarrow> bool" where
  "state_ok env s \<longleftrightarrow> length (st_ecdhPublic s) = 65 \<and> oset_ok (st_neighbors s)
     \<and> (\<forall>i \<in> set (st_neighbors s). ValidatePublic env i)"

lemma State_toMessage_simp:
  "State_toMessage env seed s pair =
     message_sign env pair seed
       \<lparr>m_type = StateType, m_sequence = st_sequence s, m_source = None, m_destination = None,
        m_body = State_body env s, m_signature = []\<rparr>"
  by (simp add: State_toMessage_def make_message_def Message_Create_def)

text \<open>The bytes of a state depend on its neighbours as a set: a set has one listing.\<close>

lemma State_body_set:
  assumes "oset_ok (st_neighbors s)" "oset_ok (st_neighbors s')"
    and "st_ecdhPublic s = st_ecdhPublic s'" "set (st_neighbors s) = set (st_neighbors s')"
  shows "State_body env s = State_body env s'"
proof -
  have "Identifier_lt = ((<) :: 'a \<Rightarrow> 'a \<Rightarrow> bool)"
    by (simp add: fun_eq_iff key_operators)
  then have "sorted_wrt Identifier_lt xs" if "oset_ok xs" for xs :: "'a list"
    using that by (simp add: oset_ok_def strict_sorted_iff)
  then have "st_neighbors s = st_neighbors s'"
    using identifier_key.one_listing assms by blast
  then show ?thesis
    using assms(3) by (simp add: State_body_layout)
qed

text \<open>A short state travels as a message without a destination.\<close>

lemma state_message_exchange:
  assumes "ecdsa_laws env" "pair_ok env pair" "state_ok env s" "st_ecdsaPublic s = pair_public pair"
    and True: "length (st_neighbors s) \<le> 1983"
  shows "\<exists>m. State_toMessage env seed s pair = Inr m \<and> m_source m = Some (pair_public pair) \<and> m_destination m = None
    \<and> sbind (message_binary env m) (message_of env) = Inr m \<and> State_FromMessage env (Some m) = Inr s"
proof -
  have len: "length (State_body env s) = 65 + 33 * length (st_neighbors s)"
    using assms by (simp add: State_body_layout length_neighbors state_ok_def)
  obtain m where m: "State_toMessage env seed s pair = Inr m"
    and fields: "m_type m = StateType" "m_source m = Some (pair_public pair)" "m_destination m = None"
      "m_sequence m = st_sequence s" "m_body m = State_body env s"
    using True len by (simp add: State_toMessage_simp message_sign_simp)
  have "message_ok env m"
    using fields len True assms by (auto simp: message_ok_def pair_ok_def)
  moreover have "message_signed env m"
    using m assms by (auto simp: State_toMessage_simp intro: message_signed_sign)
  ultimately have wire: "sbind (message_binary env m) (message_of env) = Inr m"
    using assms(1) by (rule message_roundtrip [rotated])
  let ?r = "rd_advance 65 (reader_of (m_body m))"
  have body: "m_body m = st_ecdhPublic s @ concat (map (Identifier_binary env) (st_neighbors s))"
    using fields by (simp add: State_body_layout)
  have "rd_ok ?r" "rd_left ?r = concat (map (Identifier_binary env) (st_neighbors s)) @ []"
    using body assms by (simp_all add: state_ok_def rd_ok_advance)
  then obtain r' where "read_neighbors env ?r [] = Inr (fold oset_insert (st_neighbors s) [], r')"
    using read_neighbors_encoded [of env "st_neighbors s" ?r "[]" "[]"] assms
    by (auto simp: state_ok_def)
  moreover have "65 \<le> length (m_body m)" "take 65 (m_body m) = st_ecdhPublic s"
    using body assms by (simp_all add: state_ok_def)
  ultimately have "State_FromMessage env (Some m) = Inr s"
    using fields assms
    by (cases s) (simp add: State_FromMessage_def rd_size_left rd_read_eq Ecdh_KeySize_def state_ok_def
      State_new_def fold_oset_insert_id)
  with m wire fields show ?thesis
    by simp
qed

text \<open>C28: a node's state is announced and understood: with at most 1983 neighbours the State
  message is made, every receiver parses the bytes, and the state recovered is the one sent, its
  neighbours included; with more, no message can be made at all.\<close>

theorem state_announcement:
  assumes "ecdsa_laws env" "pair_ok env pair" "state_ok env s" "st_ecdsaPublic s = pair_public pair"
  shows "if length (st_neighbors s) \<le> 1983
    then \<exists>m. State_toMessage env seed s pair = Inr m
      \<and> sbind (sbind (message_binary env m) (message_of env)) (\<lambda>m. State_FromMessage env (Some m)) = Inr s
    else State_toMessage env seed s pair = Inl (Runtime_error ''Message body is too long'')"
proof -
  have len: "length (State_body env s) = 65 + 33 * length (st_neighbors s)"
    using assms by (simp add: State_body_layout length_neighbors state_ok_def)
  show ?thesis
    using state_message_exchange [OF assms, of seed] len
    by (cases "length (st_neighbors s) \<le> 1983") (auto simp: State_toMessage_simp message_sign_simp)
qed

theorem state_announcement_witness:
  "\<exists>m. State_toMessage demo_env 1
      \<lparr>st_ecdsaPublic = 7, st_sequence = 3, st_ecdhPublic = replicate 65 1, st_neighbors = [2, 9]\<rparr>
      demo_pair = Inr m
    \<and> sbind (sbind (message_binary demo_env m) (message_of demo_env))
        (\<lambda>m. State_FromMessage demo_env (Some m)) =
      Inr \<lparr>st_ecdsaPublic = 7, st_sequence = 3, st_ecdhPublic = replicate 65 1, st_neighbors = [2, 9]\<rparr>"
  using state_announcement [OF demo_ecdsa_laws demo_pair_ok, of
    "\<lparr>st_ecdsaPublic = 7, st_sequence = 3, st_ecdhPublic = replicate 65 1, st_neighbors = [2, 9]\<rparr>" 1]
  by (simp add: state_ok_def oset_ok_def demo_pair_def)

text \<open>C27: the parsers only produce well-formed values. The message accepted from any bytes has a body
  that fits its length field and valid keys as its source and destination, so it can be
  serialised again; a state recovered from it is the announcement of the message's source under
  the message's number, with an ECDH key of the right size and an ordered set of valid
  identifiers without repetition as its neighbours, so it can be announced again.\<close>

theorem parsed_values_well_formed:
  assumes "canonical_points env" "message_of env data = Inr m"
  shows "message_ok env m
    \<and> (\<forall>s. State_FromMessage env (Some m) = Inr s \<longrightarrow>
         state_ok env s \<and> m_source m = Some (state_id s) \<and> st_sequence s = m_sequence m)"
proof (intro conjI allI impI)
  show "message_ok env m"
    by (rule message_of_inv [OF assms])
  fix s
  assume "State_FromMessage env (Some m) = Inr s"
  note wf = FromMessage_wf [OF this]
  show "state_ok env s" "m_source m = Some (state_id s)" "st_sequence s = m_sequence m"
    using wf by (simp_all add: state_ok_def)
qed

theorem parsed_values_well_formed_witness:
  "\<exists>data m s. message_of demo_env data = Inr m \<and> message_ok demo_env m
     \<and> State_FromMessage demo_env (Some m) = Inr s \<and> st_neighbors s = [2, 9] \<and> state_ok demo_env s"
proof -
  let ?s = "\<lparr>st_ecdsaPublic = 7, st_sequence = 3, st_ecdhPublic = replicate 65 1, st_neighbors = [2, 9]\<rparr> :: nat state"
  have "state_ok demo_env ?s" "st_ecdsaPublic ?s = pair_public demo_pair"
    by (simp_all add: state_ok_def oset_ok_def demo_pair_def)
  from state_message_exchange [OF demo_ecdsa_laws demo_pair_ok this, of 1]
  obtain m data where m: "message_of demo_env data = Inr m" "State_FromMessage demo_env (Some m) = Inr ?s"
    by (auto simp: sbind_Inr_iff)
  then show ?thesis
    using parsed_values_well_formed [OF demo_canonical m(1)] by force
qed

end
