(* ===== verification/Routing_Table.thy ===== *)
theory Routing_Table
  imports Prelude
begin

text \<open>
  The routing table (\<open>src/impl/routingtable.cpp\<close>): for each known node, the neighbour to hand
  its messages to. The lock around each operation makes it atomic.
\<close>

type_synonym 'p routing_table = "('p, 'p) umap"

definition RoutingTable_new :: "'p routing_table" where
  "RoutingTable_new = []"

definition rt_add :: "'p \<Rightarrow> 'p \<Rightarrow> 'p routing_table \<Rightarrow> 'p routing_table" where
  "rt_add node nextHop t = um_emplace node nextHop t"

definition rt_remove :: "'p \<Rightarrow> 'p \<Rightarrow> 'p routing_table \<Rightarrow> 'p routing_table" where
  "rt_remove node nextHop t =
     (case um_find t node of
        None \<Rightarrow> t
      | Some hop \<Rightarrow> if hop = nextHop then um_erase node t else t)"

definition rt_clear :: "'p routing_table \<Rightarrow> 'p routing_table" where
  "rt_clear t = []"

definition rt_findNextHop :: "'p routing_table \<Rightarrow> 'p \<Rightarrow> 'p option" where
  "rt_findNextHop t i = um_find t i"

definition rt_nodes :: "'p routing_table \<Rightarrow> 'p list" where
  "rt_nodes t = um_keys t"

definition rt_count :: "'p routing_table \<Rightarrow> int" where
  "rt_count t = int (length t)"

text \<open>The operations as steps, and what holds of the table after any sequence of them.\<close>

datatype 'p rt_op = RtAdd 'p 'p | RtRemove 'p 'p | RtClear

fun rt_step :: "'p rt_op \<Rightarrow> 'p routing_table \<Rightarrow> 'p routing_table" where
  "rt_step (RtAdd node nextHop) t = rt_add node nextHop t"
| "rt_step (RtRemove node nextHop) t = rt_remove node nextHop t"
| "rt_step RtClear t = rt_clear t"

interpretation rt: dictionary rt_findNextHop rt_add
    "\<lambda>node t. case rt_findNextHop t node of None \<Rightarrow> t | Some hop \<Rightarrow> rt_remove node hop t"
  by unfold_locales
    (auto simp: rt_findNextHop_def rt_add_def rt_remove_def um_finds split: option.splits)

lemma rt_step_ok: "um_ok t \<Longrightarrow> um_ok (rt_step op t)"
  by (cases op) (auto simp: rt_add_def rt_remove_def rt_clear_def split: option.splits)

interpretation rt_run: preserved rt_step um_ok
  by unfold_locales (rule rt_step_ok)

lemma rt_nodes_iff: "i \<in> set (rt_nodes t) \<longleftrightarrow> rt_findNextHop t i \<noteq> None"
  by (simp add: rt_nodes_def rt_findNextHop_def um_find_None_iff)

text \<open>After any sequence of additions, removals and clears, the nodes listed are pairwise
  different and exactly those with a next hop, and the count is their number.\<close>

lemma routing_table_consistent:
  "distinct (rt_nodes (fold rt_step ops RoutingTable_new))
   \<and> set (rt_nodes (fold rt_step ops RoutingTable_new)) =
       {i. rt_findNextHop (fold rt_step ops RoutingTable_new) i \<noteq> None}
   \<and> rt_count (fold rt_step ops RoutingTable_new) =
       int (card {i. rt_findNextHop (fold rt_step ops RoutingTable_new) i \<noteq> None})"
proof -
  let ?t = "fold rt_step ops RoutingTable_new"
  have "um_ok ?t"
    by (rule rt_run.run_inv) (simp add: RoutingTable_new_def)
  then have d: "distinct (rt_nodes ?t)"
    by (simp add: um_ok_def rt_nodes_def)
  have s: "set (rt_nodes ?t) = {i. rt_findNextHop ?t i \<noteq> None}"
    by (simp add: set_eq_iff rt_nodes_iff)
  have "rt_count ?t = int (length (rt_nodes ?t))"
    by (simp add: rt_count_def rt_nodes_def um_keys_def)
  then show ?thesis
    using d s distinct_card [OF d] by simp
qed

end
