(* ===== verification/Routing.thy ===== *)
theory Routing
  imports State_Codec Routing_Table
begin

text \<open>
  Channels and routing (\<open>src/impl/routing.hpp\<close>, \<open>routing.cpp\<close>, \<open>events.hpp\<close>): the set of open
  channels, the neighbour reached through each, flooding to all channels and forwarding to one.
  An operation that emits an event does so as its last action, after releasing the lock; it
  returns the event, and the node delivers it.
\<close>

section \<open>Channels\<close>

text \<open>
  \<open>rtc::Channel\<close> belongs to libdatachannel, which is not under \<open>src\<close>: a channel is a handle,
  and whether it is open and whether a send throws are functions the environment may change at
  any time. What the program does to channels is recorded: the callback it installs, the data
  it sends in order, and the exceptions it reports on \<open>std::cerr\<close>.
\<close>

type_synonym channel = nat

datatype handler = NoHandler | RouteHandler

record rtc =
  rtc_open :: "channel \<Rightarrow> bool"
  rtc_throws :: "channel \<Rightarrow> binary \<Rightarrow> exn option"
  rtc_handler :: "channel \<Rightarrow> handler"
  rtc_sent :: "(channel \<times> binary) list"
  rtc_cerr :: "exn list"

definition rtc_send :: "channel \<Rightarrow> binary \<Rightarrow> ('z rtc_scheme, unit) prog" where
  "rtc_send ch data w =
     (case rtc_throws w ch data of
        Some e \<Rightarrow> (Throw e, w)
      | None \<Rightarrow> (Return (), w\<lparr>rtc_sent := rtc_sent w @ [(ch, data)]\<rparr>))"

definition rtc_report :: "exn \<Rightarrow> ('z rtc_scheme, unit) prog" where
  "rtc_report e w = (Return (), w\<lparr>rtc_cerr := rtc_cerr w @ [e]\<rparr>)"

section \<open>Events\<close>

datatype 'p event =
    MessageEvent "'p message" "channel option"
  | NeighborEvent 'p "channel option"

section \<open>Routing\<close>

record 'p routing = rtc +
  mTable :: "'p routing_table option"
  mChannels :: "channel list"
  mNeighbors :: "('p, channel) umap"

definition routing_addChannel :: "channel \<Rightarrow> ('p, 'z) routing_scheme \<Rightarrow> ('p, 'z) routing_scheme" where
  "routing_addChannel ch w =
     (let w = w\<lparr>rtc_handler := (rtc_handler w)(ch := RouteHandler)\<rparr>
      in w\<lparr>mChannels := us_emplace ch (mChannels w)\<rparr>)"

definition routing_removeChannel :: "channel \<Rightarrow> ('p, 'z) routing_scheme \<Rightarrow> ('p, 'z) routing_scheme" where
  "routing_removeChannel ch w =
     (let w = (if ch \<in> set (mChannels w)
               then w\<lparr>rtc_handler := (rtc_handler w)(ch := NoHandler),
                      mChannels := us_erase ch (mChannels w)\<rparr>
               else w)
      in w\<lparr>mNeighbors := filter (\<lambda>p. snd p \<noteq> ch) (mNeighbors w)\<rparr>)"

definition routing_addNeighbor ::
    "'p \<Rightarrow> channel \<Rightarrow> ('p, 'z) routing_scheme \<Rightarrow> 'p event option \<times> ('p, 'z) routing_scheme" where
  "routing_addNeighbor remoteId ch w =
     (if ch \<in> set (mChannels w) then
        (if um_find (mNeighbors w) remoteId = None
         then (Some (NeighborEvent remoteId (Some ch)),
               w\<lparr>mNeighbors := um_emplace remoteId ch (mNeighbors w)\<rparr>)
         else (None, w))
      else (None, w))"

definition routing_removeNeighbor ::
    "'p \<Rightarrow> channel \<Rightarrow> ('p, 'z) routing_scheme \<Rightarrow> 'p event option \<times> ('p, 'z) routing_scheme" where
  "routing_removeNeighbor remoteId ch w =
     (if um_find (mNeighbors w) remoteId = Some ch
      then (Some (NeighborEvent remoteId None), w\<lparr>mNeighbors := um_erase remoteId (mNeighbors w)\<rparr>)
      else (None, w))"

definition routing_hasNeighbor :: "'p \<Rightarrow> ('p, 'z) routing_scheme \<Rightarrow> bool" where
  "routing_hasNeighbor remoteId w \<longleftrightarrow> um_find (mNeighbors w) remoteId \<noteq> None"

definition routing_neighbors :: "('p::linorder, 'z) routing_scheme \<Rightarrow> 'p list" where
  "routing_neighbors w = oset_of (um_keys (mNeighbors w))"

definition routing_table :: "('p, 'z) routing_scheme \<Rightarrow> 'p routing_table option" where
  "routing_table w = mTable w"

definition routing_setTable ::
    "'p routing_table \<Rightarrow> ('p, 'z) routing_scheme \<Rightarrow> ('p, 'z) routing_scheme" where
  "routing_setTable t w = w\<lparr>mTable := Some t\<rparr>"

text \<open>\<open>channel->send(binary(*message))\<close>: serialisation may throw before anything is sent.\<close>

definition send_message ::
    "('p, 'k) env \<Rightarrow> channel \<Rightarrow> 'p message \<Rightarrow> ('z rtc_scheme, unit) prog" where
  "send_message env ch m w =
     (case message_binary env m of
        Inl e \<Rightarrow> (Throw e, w)
      | Inr data \<Rightarrow> rtc_send ch data w)"

definition broadcast_one ::
    "('p, 'k) env \<Rightarrow> 'p message \<Rightarrow> channel option \<Rightarrow> channel \<Rightarrow> 'z rtc_scheme \<Rightarrow> 'z rtc_scheme" where
  "broadcast_one env m from ch w =
     (if Some ch \<noteq> from \<and> rtc_open w ch then snd (catchp (send_message env ch m) rtc_report w) else w)"

definition routing_broadcast ::
    "('p, 'k) env \<Rightarrow> 'p message \<Rightarrow> channel option \<Rightarrow> ('p, 'z) routing_scheme \<Rightarrow> ('p, 'z) routing_scheme" where
  "routing_broadcast env m from w = fold (broadcast_one env m from) (mChannels w) w"

definition routing_findRoute :: "'p \<Rightarrow> ('p, 'z) routing_scheme \<Rightarrow> channel option" where
  "routing_findRoute remoteId w =
     (case mTable w of
        None \<Rightarrow> None
      | Some t \<Rightarrow>
          (case rt_findNextHop t remoteId of
             None \<Rightarrow> None
           | Some nextHop \<Rightarrow> um_find (mNeighbors w) remoteId))"

definition routing_route ::
    "('p, 'k) env \<Rightarrow> 'p \<Rightarrow> 'p message \<Rightarrow> channel option \<Rightarrow> (('p, 'z) routing_scheme, 'p event option) prog" where
  "routing_route env localId m from w =
     (if m_source m = None then (Throw (Runtime_error ''Missing message source''), w)
      else
        (case m_destination m of
           None \<Rightarrow> (Return (Some (MessageEvent m from)), w)
         | Some destination \<Rightarrow>
             if destination = localId then (Return (Some (MessageEvent m from)), w)
             else
               (case routing_findRoute destination w of
                  None \<Rightarrow> (Return None, w)
                | Some ch \<Rightarrow> bindp (send_message env ch m) (\<lambda>_ w. (Return None, w)) w)))"

definition routing_send ::
    "('p, 'k) env \<Rightarrow> 'p \<Rightarrow> 'p message \<Rightarrow> (('p, 'z) routing_scheme, 'p event option) prog" where
  "routing_send env localId m w =
     (if m_destination m \<noteq> None then routing_route env localId m None w
      else (Return None, routing_broadcast env m None w))"

definition Routing_new ::
    "(channel \<Rightarrow> bool) \<Rightarrow> (channel \<Rightarrow> binary \<Rightarrow> exn option) \<Rightarrow> 'p routing" where
  "Routing_new opened throws =
     \<lparr>rtc_open = opened, rtc_throws = throws, rtc_handler = (\<lambda>_. NoHandler), rtc_sent = [],
      rtc_cerr = [], mTable = Some RoutingTable_new, mChannels = [], mNeighbors = []\<rparr>"

section \<open>The invariant\<close>

text \<open>
  Channels and neighbours have no duplicates, every neighbour is reached through a channel that
  is in the set, and exactly the channels of the set have the routing callback installed.
\<close>

definition routing_ok :: "('p, 'z) routing_scheme \<Rightarrow> bool" where
  "routing_ok w \<longleftrightarrow>
     distinct (mChannels w) \<and> um_ok (mNeighbors w) \<and> snd ` set (mNeighbors w) \<subseteq> set (mChannels w)
     \<and> (\<forall>c. rtc_handler w c = RouteHandler \<longleftrightarrow> c \<in> set (mChannels w))"

lemma handler_cases [simp]: "h \<noteq> RouteHandler \<longleftrightarrow> h = NoHandler" "h \<noteq> NoHandler \<longleftrightarrow> h = RouteHandler"
  by (cases h; simp)+

text \<open>Operations that only touch the channels' traffic leave the invariant alone.\<close>

definition same_routing :: "('p, 'z) routing_scheme \<Rightarrow> ('p, 'z) routing_scheme \<Rightarrow> bool" where
  "same_routing w w' \<longleftrightarrow>
     mChannels w' = mChannels w \<and> mNeighbors w' = mNeighbors w \<and> rtc_handler w' = rtc_handler w"

lemma routing_ok_same: "same_routing w w' \<Longrightarrow> routing_ok w' = routing_ok w"
  by (simp add: same_routing_def routing_ok_def)

lemma routing_neighbors_ok [simp]: "oset_ok (routing_neighbors w)"
  by (simp add: routing_neighbors_def)

lemma routing_neighbors_set: "set (routing_neighbors w) = {i. routing_hasNeighbor i w}"
  by (auto simp: routing_neighbors_def routing_hasNeighbor_def um_find_None_iff)

lemma routing_ok_addChannel: "routing_ok w \<Longrightarrow> routing_ok (routing_addChannel ch w)"
  by (auto simp: routing_ok_def routing_addChannel_def Let_def)

lemma um_ok_filter: "um_ok m \<Longrightarrow> um_ok (filter P m)"
  by (simp add: um_ok_def um_keys_def distinct_map_filter)

lemma routing_ok_removeChannel: "routing_ok w \<Longrightarrow> routing_ok (routing_removeChannel ch w)"
  by (auto simp: routing_ok_def routing_removeChannel_def Let_def um_ok_filter)

lemma um_find_filter_value: "um_find (filter (\<lambda>p. snd p \<noteq> v) m) k \<noteq> Some v"
  using um_find_Some_in [of "filter (\<lambda>p. snd p \<noteq> v) m" k v] by auto

lemma routing_ok_handler:
  "routing_ok w \<Longrightarrow> rtc_handler w c = (if c \<in> set (mChannels w) then RouteHandler else NoHandler)"
  unfolding routing_ok_def by (metis handler.exhaust)

lemma routing_removeChannel_forgets:
  "ch \<notin> set (mChannels (routing_removeChannel ch w))"
  "um_find (mNeighbors (routing_removeChannel ch w)) i \<noteq> Some ch"
  by (auto simp: routing_removeChannel_def Let_def um_find_filter_value)

lemma routing_ok_addNeighbor: "routing_ok w \<Longrightarrow> routing_ok (snd (routing_addNeighbor i ch w))"
  by (auto simp: routing_ok_def routing_addNeighbor_def um_emplace_def um_ok_def um_keys_def um_find_None_iff)

lemma routing_ok_removeNeighbor: "routing_ok w \<Longrightarrow> routing_ok (snd (routing_removeNeighbor i ch w))"
  by (auto simp: routing_ok_def routing_removeNeighbor_def) (auto simp: um_erase_def)

section \<open>Flooding\<close>

text \<open>The channels a flood goes to, and what each send of the given bytes adds to the record.\<close>

definition flood_targets :: "channel option \<Rightarrow> ('p, 'z) routing_scheme \<Rightarrow> channel list" where
  "flood_targets from w = filter (\<lambda>c. Some c \<noteq> from \<and> rtc_open w c) (mChannels w)"

lemma broadcast_one_Inr:
  "message_binary env m = Inr data \<Longrightarrow>
   broadcast_one env m from c w =
     (if Some c \<noteq> from \<and> rtc_open w c then
        (case rtc_throws w c data of
           None \<Rightarrow> w\<lparr>rtc_sent := rtc_sent w @ [(c, data)]\<rparr>
         | Some e \<Rightarrow> w\<lparr>rtc_cerr := rtc_cerr w @ [e]\<rparr>)
      else w)"
  by (simp add: broadcast_one_def send_message_def catchp_def rtc_send_def rtc_report_def split: option.split)

lemma broadcast_one_Inl:
  "message_binary env m = Inl e \<Longrightarrow>
   broadcast_one env m from c w =
     (if Some c \<noteq> from \<and> rtc_open w c then w\<lparr>rtc_cerr := rtc_cerr w @ [e]\<rparr> else w)"
  by (simp add: broadcast_one_def send_message_def catchp_def rtc_report_def)

lemma broadcast_fold_Inr:
  "message_binary env m = Inr data \<Longrightarrow>
   fold (broadcast_one env m from) cs w =
     w\<lparr>rtc_sent := rtc_sent w @
         map (\<lambda>c. (c, data))
           (filter (\<lambda>c. rtc_throws w c data = None) (filter (\<lambda>c. Some c \<noteq> from \<and> rtc_open w c) cs)),
       rtc_cerr := rtc_cerr w @
         List.map_filter (\<lambda>c. rtc_throws w c data) (filter (\<lambda>c. Some c \<noteq> from \<and> rtc_open w c) cs)\<rparr>"
  by (induction cs arbitrary: w)
    (auto simp: broadcast_one_Inr map_filter_simps split: option.splits)

lemma broadcast_fold_Inl:
  "message_binary env m = Inl e \<Longrightarrow>
   fold (broadcast_one env m from) cs w =
     w\<lparr>rtc_cerr := rtc_cerr w @ map (\<lambda>_. e) (filter (\<lambda>c. Some c \<noteq> from \<and> rtc_open w c) cs)\<rparr>"
  by (induction cs arbitrary: w) (auto simp: broadcast_one_Inl)

text \<open>Everything a flood may change, whatever the message.\<close>

lemma routing_broadcast_frame:
  "\<exists>sent err. routing_broadcast env m from w = w\<lparr>rtc_sent := rtc_sent w @ sent, rtc_cerr := rtc_cerr w @ err\<rparr>"
proof (cases "message_binary env m")
  case (Inl e)
  then show ?thesis
    using broadcast_fold_Inl [OF Inl, of "from" "mChannels w" w]
    by (intro exI [of _ "[]"] exI) (simp add: routing_broadcast_def)
next
  case (Inr data)
  then show ?thesis
    by (auto simp: routing_broadcast_def broadcast_fold_Inr)
qed

lemma routing_broadcast_same: "same_routing w (routing_broadcast env m from w)"
  using routing_broadcast_frame [of env m "from" w] by (auto simp: same_routing_def)

lemma routing_broadcast_tables [simp]:
  "mTable (routing_broadcast env m from w) = mTable w"
  "mNeighbors (routing_broadcast env m from w) = mNeighbors w"
  "mChannels (routing_broadcast env m from w) = mChannels w"
  using routing_broadcast_frame [of env m "from" w] by auto

text \<open>C15: flooding sends the message's bytes once to every open channel except the one it came
  from, in the order of the channel set; a channel whose send throws is skipped, its error is
  reported and the others still get the message; nothing else changes. A message too long to
  serialise is sent to nobody.\<close>

theorem broadcast_floods_others:
  "routing_broadcast env m from w =
     (case message_binary env m of
        Inr data \<Rightarrow>
          w\<lparr>rtc_sent := rtc_sent w @
              map (\<lambda>c. (c, data)) (filter (\<lambda>c. rtc_throws w c data = None) (flood_targets from w)),
            rtc_cerr := rtc_cerr w @ List.map_filter (\<lambda>c. rtc_throws w c data) (flood_targets from w)\<rparr>
      | Inl e \<Rightarrow> w\<lparr>rtc_cerr := rtc_cerr w @ map (\<lambda>_. e) (flood_targets from w)\<rparr>)"
  by (auto simp: routing_broadcast_def broadcast_fold_Inr broadcast_fold_Inl flood_targets_def
      split: sum.split)

section \<open>Forwarding\<close>

lemma routing_findRoute_direct:
  "routing_findRoute d w = Some c \<Longrightarrow>
   um_find (mNeighbors w) d = Some c \<and> (\<exists>t. mTable w = Some t \<and> rt_findNextHop t d \<noteq> None)"
  by (auto simp: routing_findRoute_def split: option.splits)

lemma routing_findRoute_neighbour:
  "routing_findRoute d w = None \<or> routing_findRoute d w = um_find (mNeighbors w) d"
  by (simp add: routing_findRoute_def split: option.split)

lemma send_message_cases:
  "send_message env ch m w =
     (case message_binary env m of
        Inl e \<Rightarrow> (Throw e, w)
      | Inr data \<Rightarrow>
          (case rtc_throws w ch data of
             Some e \<Rightarrow> (Throw e, w)
           | None \<Rightarrow> (Return (), w\<lparr>rtc_sent := rtc_sent w @ [(ch, data)]\<rparr>)))"
  by (simp add: send_message_def rtc_send_def split: sum.split)

lemma routing_route_frame:
  "\<exists>sent. snd (routing_route env self m from w) = w\<lparr>rtc_sent := rtc_sent w @ sent\<rparr>"
proof -
  have *: "\<exists>sent. snd (send_message env ch m w) = w\<lparr>rtc_sent := rtc_sent w @ sent\<rparr>" for ch
    by (auto simp: send_message_cases split: sum.split option.split intro: exI [of _ "[]"])
  have nil: "\<exists>sent. w = w\<lparr>rtc_sent := rtc_sent w @ sent\<rparr>"
    by (rule exI [of _ "[]"]) simp
  show ?thesis
    using * nil
    by (auto simp: routing_route_def bindp_def split: option.splits prod.splits outcome.splits)
      (metis snd_conv)+
qed

lemma routing_route_same: "same_routing w (snd (routing_route env self m from w))"
  using routing_route_frame [of env self m "from" w] by (auto simp: same_routing_def)

lemma routing_send_same: "same_routing w (snd (routing_send env self m w))"
  by (simp add: routing_send_def routing_route_same routing_broadcast_same)

text \<open>C18: a message for another node is handed to at most one channel, as the bytes of the
  message, unchanged; that channel is the destination's own, so it is in the channel set and
  has the routing callback. A destination that is not itself a neighbour gets nothing, whatever
  next hop the routing table holds for it: \<open>findRoute\<close> looks up the destination's channel
  instead of the next hop's.\<close>

theorem forwarding_needs_direct_channel:
  assumes "routing_ok w" "m_source m \<noteq> None" "m_destination m = Some d" "d \<noteq> self"
  shows "(case um_find (mNeighbors w) d of
      None \<Rightarrow> routing_route env self m from w = (Return None, w)
    | Some c \<Rightarrow>
        c \<in> set (mChannels w) \<and> rtc_handler w c = RouteHandler
        \<and> (snd (routing_route env self m from w) = w
           \<or> (\<exists>data. message_binary env m = Inr data
               \<and> routing_route env self m from w =
                   (Return None, w\<lparr>rtc_sent := rtc_sent w @ [(c, data)]\<rparr>))))"
proof (cases "um_find (mNeighbors w) d")
  case None
  then show ?thesis
    using assms by (auto simp: routing_route_def routing_findRoute_def split: option.splits)
next
  case (Some c)
  then have "c \<in> set (mChannels w)"
    using assms(1) um_find_Some_in [OF Some] by (force simp: routing_ok_def)
  moreover have "rtc_handler w c = RouteHandler"
    using calculation assms(1) by (simp add: routing_ok_def)
  moreover have "snd (routing_route env self m from w) = w
      \<or> (\<exists>data. message_binary env m = Inr data
          \<and> routing_route env self m from w = (Return None, w\<lparr>rtc_sent := rtc_sent w @ [(c, data)]\<rparr>))"
  proof (cases "routing_findRoute d w")
    case None
    then show ?thesis
      using assms by (simp add: routing_route_def split: option.splits)
  next
    case (Some c')
    then have "c' = c"
      using routing_findRoute_neighbour [of d w] \<open>um_find (mNeighbors w) d = Some c\<close> by simp
    with Some show ?thesis
      using assms
      by (auto simp: routing_route_def bindp_def send_message_cases split: option.splits sum.splits)
  qed
  ultimately show ?thesis
    using Some by simp
qed

definition demo_routing :: "nat routing" where
  "demo_routing =
     routing_setTable [(9, 8), (8, 8)]
       (snd (routing_addNeighbor 8 1 (routing_addChannel 2 (routing_addChannel 1
         (Routing_new (\<lambda>_. True) (\<lambda>_ _. None))))))"

lemma demo_routing_eq:
  "demo_routing =
     \<lparr>rtc_open = (\<lambda>_. True), rtc_throws = (\<lambda>_ _. None),
      rtc_handler = (\<lambda>_. NoHandler)(1 := RouteHandler, 2 := RouteHandler), rtc_sent = [], rtc_cerr = [],
      mTable = Some [(9, 8), (8, 8)], mChannels = [1, 2], mNeighbors = [(8, 1)]\<rparr>"
  by (simp add: demo_routing_def routing_setTable_def routing_addNeighbor_def routing_addChannel_def
      Routing_new_def us_emplace_def um_emplace_def Let_def)

lemma demo_routing_ok: "routing_ok demo_routing"
  by (auto simp: demo_routing_eq routing_ok_def um_ok_def um_keys_def)

text \<open>Node 9 is known to be behind neighbour 8, and a message for it is dropped.\<close>

theorem forwarding_needs_direct_channel_witness:
  "rt_findNextHop (the (mTable demo_routing)) 9 = Some 8 \<and> um_find (mNeighbors demo_routing) 8 = Some 1
   \<and> routing_route demo_env 7
       \<lparr>m_type = User, m_sequence = 0, m_source = Some 3, m_destination = Some 9, m_body = [1],
        m_signature = []\<rparr> (Some 2) demo_routing = (Return None, demo_routing)"
proof -
  have "um_find (mNeighbors demo_routing) 9 = None"
    by (simp add: demo_routing_eq)
  then show ?thesis
    using forwarding_needs_direct_channel [OF demo_routing_ok, of
        "\<lparr>m_type = User, m_sequence = 0, m_source = Some 3, m_destination = Some 9, m_body = [1],
          m_signature = []\<rparr>" 9 7 demo_env "Some 2"]
    by (simp add: demo_routing_eq rt_findNextHop_def)
qed

section \<open>Any sequence of operations\<close>

datatype 'p routing_op =
    AddChannel channel
  | RemoveChannel channel
  | AddNeighbor 'p channel
  | RemoveNeighbor 'p channel
  | SetTable "'p routing_table"
  | SendMessage "'p message"
  | Broadcast "'p message" "channel option"
  | Route "'p message" "channel option"

fun routing_step :: "('p, 'k) env \<Rightarrow> 'p \<Rightarrow> 'p routing_op \<Rightarrow> ('p, 'z) routing_scheme \<Rightarrow> ('p, 'z) routing_scheme" where
  "routing_step env self (AddChannel ch) w = routing_addChannel ch w"
| "routing_step env self (RemoveChannel ch) w = routing_removeChannel ch w"
| "routing_step env self (AddNeighbor i ch) w = snd (routing_addNeighbor i ch w)"
| "routing_step env self (RemoveNeighbor i ch) w = snd (routing_removeNeighbor i ch w)"
| "routing_step env self (SetTable t) w = routing_setTable t w"
| "routing_step env self (SendMessage m) w = snd (routing_send env self m w)"
| "routing_step env self (Broadcast m from) w = routing_broadcast env m from w"
| "routing_step env self (Route m from) w = snd (routing_route env self m from w)"

lemma routing_step_ok: "routing_ok w \<Longrightarrow> routing_ok (routing_step env self op w)"
proof (cases op)
  case (SetTable t)
  then show "routing_ok w \<Longrightarrow> ?thesis"
    by (simp add: routing_setTable_def routing_ok_def)
qed (simp_all add: routing_ok_addChannel routing_ok_removeChannel routing_ok_addNeighbor
    routing_ok_removeNeighbor routing_ok_same [OF routing_send_same]
    routing_ok_same [OF routing_broadcast_same] routing_ok_same [OF routing_route_same])

interpretation routing_run: preserved "routing_step env self" routing_ok for env self
  by unfold_locales (rule routing_step_ok)

lemma Routing_new_ok: "routing_ok (Routing_new opened throws)"
  by (simp add: routing_ok_def Routing_new_def)

text \<open>Whatever channels and neighbours come and go and whatever is sent, forwarded or
  flooded, the channel set has no duplicates, every neighbour has exactly one channel, that
  channel is still in the set, and exactly the channels of the set deliver into routing; a
  removed channel takes its neighbours with it.\<close>

lemma routing_consistent:
  "routing_ok (fold (routing_step env self) ops (Routing_new opened throws))
   \<and> (let w = fold (routing_step env self) (ops @ [RemoveChannel ch]) (Routing_new opened throws)
      in ch \<notin> set (mChannels w) \<and> rtc_handler w ch = NoHandler
         \<and> (\<forall>i. um_find (mNeighbors w) i \<noteq> Some ch))"
proof -
  let ?w = "fold (routing_step env self) ops (Routing_new opened throws)"
  have "routing_ok ?w"
    by (rule routing_run.run_inv [OF Routing_new_ok])
  moreover from this have "routing_ok (routing_removeChannel ch ?w)"
    by (rule routing_ok_removeChannel)
  then have "rtc_handler (routing_removeChannel ch ?w) ch = NoHandler"
    using routing_removeChannel_forgets(1) [of ch ?w] by (simp add: routing_ok_handler)
  ultimately show ?thesis
    using routing_removeChannel_forgets [of ch ?w] by (simp add: Let_def)
qed

end
