(* ===== verification/Route_Computation.thy ===== *)
theory Route_Computation
  imports Routing
begin

text \<open>
  The network graph and the computation of the routing table from it
  (\<open>src/impl/graph.hpp\<close>, \<open>Graph::computeRoutingTable\<close> and \<open>Graph::findVertice\<close> in
  \<open>graph.cpp\<close>). Vertices are shared objects: \<open>mVertices\<close> and the edges hold pointers to them,
  so they live in an explicit heap and a pointer is an index into it.
\<close>

section \<open>The state of the graph\<close>

type_synonym pointer = nat

record 'p vertice =
  v_id :: 'p
  v_state :: "'p state option"
  v_edges :: "('p, pointer) umap"
  v_nextHop :: "pointer option"
  v_distance :: int
  v_visited :: bool

definition Vertice_new :: "'p \<Rightarrow> 'p vertice" where
  "Vertice_new i =
     \<lparr>v_id = i, v_state = None, v_edges = [], v_nextHop = None, v_distance = - 1, v_visited = False\<rparr>"

text \<open>
  \<open>g_heap\<close> holds the vertices in the order they were allocated, \<open>g_ptr\<close> the machine address the
  allocator gave to each: the priority queue orders equal distances by it. \<open>entropy\<close> counts the
  uses of the random number generator.
\<close>

record 'p graph = "'p routing" +
  g_heap :: "'p vertice list"
  g_ptr :: "pointer \<Rightarrow> nat"
  mVertices :: "('p, pointer) umap"
  mRoutingTable :: "'p routing_table"
  mEcdh :: Ecdh
  mHelloSequence :: "32 word"
  mStateSequence :: "32 word"
  entropy :: nat

definition graph_findVertice :: "'p \<Rightarrow> ('p, 'z) graph_scheme \<Rightarrow> pointer option" where
  "graph_findVertice i w = um_find (mVertices w) i"

section \<open>The priority queue\<close>

text \<open>
  \<open>std::priority_queue\<close> with \<open>std::greater\<close> of pairs: the top is the least entry by distance,
  then by address. Entries are kept in the order they were pushed.
\<close>

type_synonym pq = "(int \<times> pointer) list"

definition pq_le :: "(pointer \<Rightarrow> nat) \<Rightarrow> int \<times> pointer \<Rightarrow> int \<times> pointer \<Rightarrow> bool" where
  "pq_le ptr x y \<longleftrightarrow> fst x < fst y \<or> fst x = fst y \<and> ptr (snd x) \<le> ptr (snd y)"

fun pq_top :: "(pointer \<Rightarrow> nat) \<Rightarrow> int \<times> pointer \<Rightarrow> pq \<Rightarrow> int \<times> pointer" where
  "pq_top ptr x [] = x"
| "pq_top ptr x (y # q) = pq_top ptr (if pq_le ptr x y then x else y) q"

lemma pq_top_in: "pq_top ptr x q \<in> set (x # q)"
  by (induction q arbitrary: x) (auto split: if_splits)

lemma pq_le_trans: "pq_le ptr x y \<Longrightarrow> pq_le ptr y z \<Longrightarrow> pq_le ptr x z"
  by (auto simp: pq_le_def)

lemma pq_top_least: "y \<in> set (x # q) \<Longrightarrow> pq_le ptr (pq_top ptr x q) y"
proof (induction q arbitrary: x y)
  case Nil
  then show ?case
    by (simp add: pq_le_def)
next
  case (Cons z q)
  let ?m = "if pq_le ptr x z then x else z"
  have "pq_le ptr (pq_top ptr ?m q) ?m"
    by (rule Cons.IH) simp
  moreover have "pq_le ptr ?m x" "pq_le ptr ?m z"
    by (auto simp: pq_le_def)
  ultimately have "pq_le ptr (pq_top ptr ?m q) x" "pq_le ptr (pq_top ptr ?m q) z"
    by (blast intro: pq_le_trans)+
  moreover have "pq_le ptr (pq_top ptr ?m q) y" if "y \<in> set q"
    using that by (intro Cons.IH) simp
  ultimately show ?case
    using Cons.prems by auto
qed

text \<open>
  The loop holds a reference to the top of the queue while it pushes; entries at a greater
  distance do not displace it.
\<close>

lemma pq_top_append: "pq_top ptr x (q @ ys) = pq_top ptr (pq_top ptr x q) ys"
  by (induction q arbitrary: x) simp_all

lemma pq_top_push: "\<forall>y \<in> set ys. fst x < fst y \<Longrightarrow> pq_top ptr x ys = x"
  by (induction ys) (auto simp: pq_le_def)

section \<open>Dijkstra's algorithm\<close>

text \<open>
  One edge of the vertex at the top of the queue: \<open>a\<close> is that vertex (\<open>node\<close> in the code), \<open>d\<close>
  its distance, \<open>n\<close> the neighbour at the end of the edge.
\<close>

definition relax ::
    "pointer \<Rightarrow> int \<Rightarrow> 'p \<times> pointer \<Rightarrow> 'p vertice list \<times> pq \<Rightarrow> 'p vertice list \<times> pq" where
  "relax a d edge s =
     (let (heap, queue) = s; n = snd edge
      in if \<not> v_visited (heap ! n) then
           (let tentative = d + 1
            in if v_nextHop (heap ! a) = None \<or> tentative < v_distance (heap ! n) then
                 (let hop = (case v_nextHop (heap ! a) of Some h \<Rightarrow> h | None \<Rightarrow> n)
                  in (heap[n := (heap ! n)\<lparr>v_nextHop := Some hop, v_distance := tentative\<rparr>],
                      queue @ [(tentative, n)]))
               else (heap, queue))
         else (heap, queue))"

definition unvisited :: "'p vertice list \<Rightarrow> nat" where
  "unvisited heap = length (filter (\<lambda>v. \<not> v_visited v) heap)"

lemma nth_update: "xs[n := x] ! i = (if i = n \<and> n < length xs then x else xs ! i)"
  by (cases "n < length xs") (simp_all add: nth_list_update list_update_beyond)

lemma relax_length [simp]: "length (fst (relax a d edge s)) = length (fst s)"
  by (simp add: relax_def Let_def split: prod.split)

lemma update_hop_visited:
  "map v_visited (heap[n := (heap ! n)\<lparr>v_nextHop := h, v_distance := e\<rparr>]) = map v_visited heap"
  by (rule nth_equalityI) (simp_all add: nth_update)

lemma relax_visited:
  "map v_visited (fst (relax a d edge s)) = map v_visited (fst s)"
  by (simp add: relax_def Let_def update_hop_visited split: prod.split)

lemma fold_relax_visited:
  "map v_visited (fst (fold (relax a d) es s)) = map v_visited (fst s)"
  by (induction es arbitrary: s) (simp_all add: relax_visited)

lemma unvisited_cong: "map v_visited h = map v_visited h' \<Longrightarrow> unvisited h = unvisited h'"
  unfolding unvisited_def
  by (induction h h' rule: list_induct2') auto

lemma unvisited_visit:
  "a < length heap \<Longrightarrow> \<not> v_visited (heap ! a) \<Longrightarrow>
   unvisited (heap[a := (heap ! a)\<lparr>v_visited := True\<rparr>]) < unvisited heap"
proof (induction heap arbitrary: a)
  case (Cons v heap)
  then show ?case
    by (cases a) (auto simp: unvisited_def)
qed simp

text \<open>
  \<open>while (!queue.empty())\<close>. The queue holds pointers to live vertices only; the bound on \<open>a\<close>
  is what makes the loop terminate for every value of the arguments.
\<close>

function dijkstra :: "(pointer \<Rightarrow> nat) \<Rightarrow> 'p vertice list \<Rightarrow> pq \<Rightarrow> 'p vertice list" where
  "dijkstra ptr heap [] = heap"
| "dijkstra ptr heap (x # q) =
     (let (d, a) = pq_top ptr x q
      in if a < length heap \<and> \<not> v_visited (heap ! a) then
           (let (heap', queue) =
              fold (relax a d) (v_edges (heap ! a)) (heap[a := (heap ! a)\<lparr>v_visited := True\<rparr>], x # q)
            in dijkstra ptr heap' (remove1 (d, a) queue))
         else dijkstra ptr heap (remove1 (d, a) (x # q)))"
  by pat_completeness auto
termination
proof (relation "measures [\<lambda>(ptr, heap, q). unvisited heap, \<lambda>(ptr, heap, q). length q]", goal_cases)
  case 1
  then show ?case by simp
next
  case (2 ptr heap x q t d a s heap' queue)
  have "map v_visited heap' = map v_visited (heap[a := (heap ! a)\<lparr>v_visited := True\<rparr>])"
    using fold_relax_visited [of a d "v_edges (heap ! a)" "(heap[a := (heap ! a)\<lparr>v_visited := True\<rparr>], x # q)"]
    unfolding 2(4) [symmetric] 2(5) [symmetric] by simp
  then have "unvisited heap' = unvisited (heap[a := (heap ! a)\<lparr>v_visited := True\<rparr>])"
    by (rule unvisited_cong)
  also have "\<dots> < unvisited heap"
    using 2 by (intro unvisited_visit) simp_all
  finally show ?case by simp
next
  case (3 ptr heap x q t d a)
  then have "(d, a) \<in> set (x # q)"
    using pq_top_in [of ptr x q] by metis
  then show ?case
    using length_pos_if_in_set [of "(d, a)" q] by (auto simp: length_remove1)
qed

definition reset_vertice :: "'p vertice \<Rightarrow> 'p vertice" where
  "reset_vertice v = v\<lparr>v_nextHop := None, v_distance := - 1, v_visited := False\<rparr>"

text \<open>\<open>for (const auto &[id, vertice] : mVertices) ...\<close>\<close>

definition reset_all :: "('p, pointer) umap \<Rightarrow> 'p vertice list \<Rightarrow> 'p vertice list" where
  "reset_all m heap = fold (\<lambda>(i, a) heap. heap[a := reset_vertice (heap ! a)]) m heap"

definition table_entry ::
    "'p vertice list \<Rightarrow> 'p \<times> pointer \<Rightarrow> 'p routing_table \<Rightarrow> 'p routing_table" where
  "table_entry heap entry t =
     (case v_nextHop (heap ! snd entry) of
        Some h \<Rightarrow> rt_add (fst entry) (v_id (heap ! h)) t
      | None \<Rightarrow> t)"

definition graph_computeRoutingTable :: "'p \<Rightarrow> (('p, 'z) graph_scheme, unit) prog" where
  "graph_computeRoutingTable self w =
     (let w = w\<lparr>g_heap := reset_all (mVertices w) (g_heap w)\<rparr>
      in case graph_findVertice self w of
           None \<Rightarrow> (Throw (Runtime_error ''Missing local node in network state''), w)
         | Some a \<Rightarrow>
             (let heap = (g_heap w)[a := (g_heap w ! a)\<lparr>v_nextHop := None, v_distance := 0\<rparr>];
                  heap = dijkstra (g_ptr w) heap [(v_distance (heap ! a), a)];
                  w = w\<lparr>g_heap := heap\<rparr>;
                  t = fold (table_entry heap) (mVertices w) RoutingTable_new;
                  w = w\<lparr>mRoutingTable := t\<rparr>
              in (Return (), routing_setTable t w)))"

section \<open>What the computation may change\<close>

definition shape :: "'p vertice \<Rightarrow> 'p \<times> 'p state option \<times> ('p, pointer) umap" where
  "shape v = (v_id v, v_state v, v_edges v)"

lemma shape_update:
  "shape (v\<lparr>v_nextHop := h, v_distance := e\<rparr>) = shape v"
  "shape (v\<lparr>v_visited := b\<rparr>) = shape v"
  "shape (reset_vertice v) = shape v"
  by (simp_all add: shape_def reset_vertice_def)

lemma map_shape_update: "shape v = shape (heap ! n) \<Longrightarrow> map shape (heap[n := v]) = map shape heap"
  by (rule nth_equalityI) (simp_all add: nth_update)

lemma shape_eqD:
  assumes "map shape heap = map shape heap'" "a < length heap"
  shows "v_id (heap ! a) = v_id (heap' ! a)" "v_edges (heap ! a) = v_edges (heap' ! a)"
    "v_state (heap ! a) = v_state (heap' ! a)"
proof -
  have "length heap = length heap'"
    using assms(1) by (metis length_map)
  then have "shape (heap ! a) = shape (heap' ! a)"
    using assms by (metis nth_map)
  then show "v_id (heap ! a) = v_id (heap' ! a)" "v_edges (heap ! a) = v_edges (heap' ! a)"
    "v_state (heap ! a) = v_state (heap' ! a)"
    by (simp_all add: shape_def)
qed

lemma relax_shape: "map shape (fst (relax a d edge s)) = map shape (fst s)"
  by (simp add: relax_def Let_def map_shape_update shape_update split: prod.split)

lemma fold_relax_shape: "map shape (fst (fold (relax a d) es s)) = map shape (fst s)"
  by (induction es arbitrary: s) (simp_all add: relax_shape)

lemma dijkstra_shape: "map shape (dijkstra ptr heap q) = map shape heap"
proof (induction ptr heap q rule: dijkstra.induct)
  case (2 ptr heap x q)
  obtain d a where top: "pq_top ptr x q = (d, a)"
    by fastforce
  obtain heap' queue where step:
    "fold (relax a d) (v_edges (heap ! a)) (heap[a := (heap ! a)\<lparr>v_visited := True\<rparr>], x # q) = (heap', queue)"
    by fastforce
  have "map shape heap' = map shape (heap[a := (heap ! a)\<lparr>v_visited := True\<rparr>])"
    using fold_relax_shape [of a d "v_edges (heap ! a)" "(heap[a := (heap ! a)\<lparr>v_visited := True\<rparr>], x # q)"]
    by (simp add: step)
  then have "map shape heap' = map shape heap"
    by (simp add: map_shape_update shape_update)
  then show ?case
    using 2 [OF top [symmetric] refl] step by (simp add: top)
qed simp

lemma reset_all_shape: "map shape (reset_all m heap) = map shape heap"
proof (induction m arbitrary: heap)
  case (Cons x m)
  then show ?case
    by (cases x) (simp add: reset_all_def map_shape_update shape_update)
qed (simp add: reset_all_def)

lemma reset_all_length [simp]: "length (reset_all m heap) = length heap"
  using reset_all_shape by (metis length_map)

lemma reset_all_nth:
  "a \<in> snd ` set m \<Longrightarrow> a < length heap \<Longrightarrow>
   v_nextHop (reset_all m heap ! a) = None \<and> v_distance (reset_all m heap ! a) = - 1
   \<and> \<not> v_visited (reset_all m heap ! a)"
proof (induction m rule: rev_induct)
  case (snoc x m)
  have "reset_all (m @ [x]) heap = (reset_all m heap)[snd x := reset_vertice (reset_all m heap ! snd x)]"
    by (cases x) (simp add: reset_all_def)
  then show ?case
    using snoc by (auto simp: nth_update reset_vertice_def)
qed simp

section \<open>What the computation finds\<close>

text \<open>
  The vertices \<open>E\<close> one hop from the local vertex \<open>l\<close> are their own next hop at distance 1; no
  other vertex has a next hop.
\<close>

definition one_hop :: "pointer \<Rightarrow> pointer set \<Rightarrow> 'p vertice list \<Rightarrow> bool" where
  "one_hop l E heap \<longleftrightarrow>
     l < length heap \<and> l \<notin> E \<and> v_visited (heap ! l) \<and> v_nextHop (heap ! l) = None
     \<and> (\<forall>n < length heap. n \<noteq> l \<longrightarrow>
          v_nextHop (heap ! n) = (if n \<in> E then Some n else None)
          \<and> v_distance (heap ! n) = (if n \<in> E then 1 else - 1))"

definition edges_in :: "nat \<Rightarrow> ('p, pointer) umap \<Rightarrow> bool" where
  "edges_in k m \<longleftrightarrow> (\<forall>n \<in> snd ` set m. n < k)"

text \<open>The local vertex reaches exactly the targets of its edges, itself excepted.\<close>

lemma relax_local:
  assumes "one_hop l P heap" "\<forall>n < length heap. n \<noteq> l \<longrightarrow> \<not> v_visited (heap ! n)"
    "edges_in (length heap) es"
  shows "\<exists>heap' q'. fold (relax l 0) es (heap, q) = (heap', q @ q')
    \<and> one_hop l (P \<union> (snd ` set es - {l})) heap' \<and> set q' \<subseteq> Pair 1 ` (snd ` set es - {l})"
  using assms
proof (induction es arbitrary: P heap q)
  case Nil
  then show ?case by simp
next
  case (Cons e es)
  obtain i n where e: "e = (i, n)"
    by fastforce
  then have n: "n < length heap" "edges_in (length heap) es"
    using Cons.prems by (auto simp: edges_in_def)
  show ?case
  proof (cases "n = l")
    case True
    then have "relax l 0 e (heap, q) = (heap, q)"
      using Cons.prems(1) by (simp add: relax_def e one_hop_def)
    with True show ?thesis
      using Cons.IH [OF Cons.prems(1,2) n(2), of q] by (simp add: e)
  next
    case False
    let ?heap = "heap[n := (heap ! n)\<lparr>v_nextHop := Some n, v_distance := 1\<rparr>]"
    have step: "relax l 0 e (heap, q) = (?heap, q @ [(1, n)])"
      using Cons.prems(1,2) False n by (simp add: relax_def e one_hop_def)
    have 1: "one_hop l (insert n P) ?heap"
      using Cons.prems(1) False n by (simp add: one_hop_def nth_update)
    have 2: "\<forall>m < length ?heap. m \<noteq> l \<longrightarrow> \<not> v_visited (?heap ! m)"
      using Cons.prems(2) n by (simp add: nth_update)
    have 3: "edges_in (length ?heap) es"
      using n by simp
    obtain heap' q' where "fold (relax l 0) es (?heap, q @ [(1, n)]) = (heap', (q @ [(1, n)]) @ q')"
      "one_hop l (insert n P \<union> (snd ` set es - {l})) heap'" "set q' \<subseteq> Pair 1 ` (snd ` set es - {l})"
      using Cons.IH [OF 1 2 3, of "q @ [(1, n)]"] by blast
    moreover have "insert n P \<union> (snd ` set es - {l}) = P \<union> (snd ` set (e # es) - {l})"
      using False by (auto simp: e)
    moreover have "set ((1, n) # q') \<subseteq> Pair 1 ` (snd ` set (e # es) - {l})"
      using calculation(3) False by (auto simp: e)
    ultimately show ?thesis
      by (intro exI [of _ heap'] exI [of _ "(1, n) # q'"]) (simp add: step)
  qed
qed

text \<open>
  A vertex at distance 1 has a next hop, so the condition reduces to
  \<open>tentative < neighbor->distance\<close>: it fails for the vertices already reached (distance 1) and
  for those not reached yet, whose distance is still -1. Nothing happens from there on.
\<close>

lemma relax_remote:
  assumes "one_hop l E heap" "a \<in> E" "a < length heap" "edges_in (length heap) es"
  shows "fold (relax a 1) es (heap, q) = (heap, q)"
  using assms(4)
proof (induction es)
  case (Cons e es)
  then have "snd e < length heap" "edges_in (length heap) es"
    by (auto simp: edges_in_def)
  moreover have "v_visited (heap ! snd e) \<or> v_distance (heap ! snd e) \<le> 1"
    using assms(1) \<open>snd e < length heap\<close> by (cases "snd e = l") (simp_all add: one_hop_def)
  moreover have "v_nextHop (heap ! a) \<noteq> None"
    using assms(1-3) by (auto simp: one_hop_def)
  then have "relax a 1 e (heap, q) = (heap, q)"
    using calculation(3) by (auto simp: relax_def Let_def)
  ultimately show ?case
    using Cons.IH by simp
qed simp

lemma dijkstra_remote:
  assumes "one_hop l E heap" "\<forall>n < length heap. edges_in (length heap) (v_edges (heap ! n))"
    "set q \<subseteq> Pair 1 ` E"
  shows "one_hop l E (dijkstra ptr heap q)"
  using assms
proof (induction ptr heap q rule: dijkstra.induct)
  case (2 ptr heap x q)
  obtain d a where top: "pq_top ptr x q = (d, a)"
    by fastforce
  then have "(d, a) \<in> Pair 1 ` E"
    using pq_top_in [of ptr x q] "2.prems"(3) by auto
  then have d: "d = 1" and a: "a \<in> E"
    by auto
  let ?heap = "heap[a := (heap ! a)\<lparr>v_visited := True\<rparr>]"
  have q: "set (remove1 (d, a) (x # q)) \<subseteq> Pair 1 ` E"
    using "2.prems"(3) set_remove1_subset by (metis subset_trans)
  show ?case
  proof (cases "a < length heap \<and> \<not> v_visited (heap ! a)")
    case False
    then have "one_hop l E (dijkstra ptr heap (remove1 (d, a) (x # q)))"
      using "2.IH"(2) [OF top [symmetric] refl] "2.prems" q by blast
    then show ?thesis
      by (simp only: dijkstra.simps(2) top prod.case Let_def False if_False)
  next
    case True
    have hop: "one_hop l E ?heap"
      using "2.prems"(1) True by (auto simp: one_hop_def nth_update)
    have edges: "\<forall>n < length ?heap. edges_in (length ?heap) (v_edges (?heap ! n))"
      using "2.prems"(2) True by (simp add: nth_update)
    have "fold (relax a d) (v_edges (heap ! a)) (?heap, x # q) = (?heap, x # q)"
      unfolding d using hop a True "2.prems"(2) by (intro relax_remote) auto
    then show ?thesis
      using "2.IH"(1) [OF top [symmetric] refl True _ refl, of ?heap "x # q"] hop edges q True
      by (simp add: top)
  qed
qed simp

lemma dijkstra_local:
  assumes "l < length heap" "\<forall>n < length heap. edges_in (length heap) (v_edges (heap ! n))"
    "\<forall>n < length heap. v_nextHop (heap ! n) = None \<and> \<not> v_visited (heap ! n)
       \<and> (n \<noteq> l \<longrightarrow> v_distance (heap ! n) = - 1)"
  shows "one_hop l (snd ` set (v_edges (heap ! l)) - {l}) (dijkstra ptr heap [(0, l)])"
proof -
  let ?heap = "heap[l := (heap ! l)\<lparr>v_visited := True\<rparr>]" and ?es = "v_edges (heap ! l)"
  have start: "one_hop l {} ?heap" "\<forall>n < length ?heap. n \<noteq> l \<longrightarrow> \<not> v_visited (?heap ! n)"
    "edges_in (length ?heap) ?es"
    using assms by (simp_all add: one_hop_def nth_update)
  then obtain heap' q' where step: "fold (relax l 0) ?es (?heap, [(0, l)]) = (heap', [(0, l)] @ q')"
    and hop: "one_hop l ({} \<union> (snd ` set ?es - {l})) heap'" and q': "set q' \<subseteq> Pair 1 ` (snd ` set ?es - {l})"
    using relax_local [OF start, of "[(0, l)]"] by blast
  have shape: "map shape heap' = map shape heap"
    using fold_relax_shape [of l 0 ?es "(?heap, [(0, l)])"] step
    by (simp add: map_shape_update shape_update)
  then have len: "length heap' = length heap"
    by (metis length_map)
  have "\<forall>n < length heap'. edges_in (length heap') (v_edges (heap' ! n))"
    using assms(2) shape_eqD(2) [OF shape] len by simp
  then have "one_hop l (snd ` set ?es - {l}) (dijkstra ptr heap' q')"
    using hop q' by (intro dijkstra_remote) simp_all
  moreover have "dijkstra ptr heap [(0, l)] = dijkstra ptr heap' q'"
    using assms(1,3) step by simp
  ultimately show ?thesis
    by simp
qed

declare dijkstra.simps [simp del]

section \<open>The invariant of the graph\<close>

text \<open>
  Every vertex that exists is in \<open>mVertices\<close>, under its own identifier, and every edge points
  to the vertex \<open>mVertices\<close> has for its key: there are never two objects for one node.
\<close>

definition heap_wf :: "('p, pointer) umap \<Rightarrow> 'p vertice list \<Rightarrow> bool" where
  "heap_wf m heap \<longleftrightarrow>
     um_ok m
     \<and> (\<forall>(i, a) \<in> set m. a < length heap \<and> v_id (heap ! a) = i)
     \<and> (\<forall>a < length heap.
          um_find m (v_id (heap ! a)) = Some a \<and> um_ok (v_edges (heap ! a))
          \<and> (\<forall>(i, n) \<in> set (v_edges (heap ! a)). um_find m i = Some n))"

definition graph_wf :: "('p, 'z) graph_scheme \<Rightarrow> bool" where
  "graph_wf w \<longleftrightarrow> heap_wf (mVertices w) (g_heap w)"

lemma heap_wf_find:
  "heap_wf m heap \<Longrightarrow> um_find m i = Some a \<longleftrightarrow> a < length heap \<and> v_id (heap ! a) = i"
  unfolding heap_wf_def using um_find_Some_in [of m i a] by fastforce

lemma heap_wf_edge:
  "heap_wf m heap \<Longrightarrow> a < length heap \<Longrightarrow> (i, n) \<in> set (v_edges (heap ! a)) \<Longrightarrow>
   um_find m i = Some n \<and> n < length heap \<and> v_id (heap ! n) = i"
  using heap_wf_find [of m heap i n] by (fastforce simp: heap_wf_def)

lemma heap_wf_cong:
  assumes "map shape heap = map shape heap'"
  shows "heap_wf m heap = heap_wf m heap'"
proof -
  have len: "length heap = length heap'"
    using assms by (metis length_map)
  have "v_id (heap ! a) = v_id (heap' ! a)" "v_edges (heap ! a) = v_edges (heap' ! a)"
    if "a < length heap'" for a
    using shape_eqD [OF assms] that len by simp_all
  then show ?thesis
    unfolding heap_wf_def len by (simp cong: conj_cong split: prod.split)
qed

lemma heap_wf_edges_in:
  "heap_wf m heap \<Longrightarrow> \<forall>n < length heap. edges_in (length heap) (v_edges (heap ! n))"
  using heap_wf_edge [of m heap] by (fastforce simp: edges_in_def)

lemma heap_wf_all: "heap_wf m heap \<Longrightarrow> a < length heap \<Longrightarrow> a \<in> snd ` set m"
  using um_find_Some_in [of m "v_id (heap ! a)" a] by (force simp: heap_wf_def)

lemma table_find:
  assumes "um_ok m"
  shows "rt_findNextHop (fold (table_entry heap) m t) x =
    (case rt_findNextHop t x of
       Some h \<Rightarrow> Some h
     | None \<Rightarrow>
         (case um_find m x of
            None \<Rightarrow> None
          | Some a \<Rightarrow> map_option (\<lambda>h. v_id (heap ! h)) (v_nextHop (heap ! a))))"
  using assms
proof (induction m arbitrary: t)
  case (Cons e m)
  obtain i a where e: "e = (i, a)"
    by fastforce
  have ok: "um_ok m" and new: "um_find m i = None"
    using Cons.prems by (simp_all add: um_ok_def um_keys_def e um_find_None_iff)
  have "rt_findNextHop (table_entry heap e t) x =
      (case rt_findNextHop t x of
         Some h \<Rightarrow> Some h
       | None \<Rightarrow> if x = i then map_option (\<lambda>h. v_id (heap ! h)) (v_nextHop (heap ! a)) else None)"
    by (auto simp: e table_entry_def rt.find_emplace split: option.split)
  then show ?case
    using new by (auto simp: e Cons.IH [OF ok] split: option.split)
qed (simp add: rt_findNextHop_def split: option.split)

lemma edge_targets:
  assumes "heap_wf m heap" "l < length heap"
  shows "(\<exists>a. um_find m x = Some a \<and> a \<in> snd ` set (v_edges (heap ! l)) - {l}) \<longleftrightarrow>
    x \<in> set (um_keys (v_edges (heap ! l))) - {v_id (heap ! l)}" (is "?L \<longleftrightarrow> ?R")
proof
  assume ?L
  then obtain a i where a: "um_find m x = Some a" "(i, a) \<in> set (v_edges (heap ! l))" "a \<noteq> l"
    by auto
  then have "i = x" "v_id (heap ! a) = x"
    using heap_wf_edge [OF assms a(2)] heap_wf_find [OF assms(1), of x a] by simp_all
  moreover have "x \<noteq> v_id (heap ! l)"
    using a(1,3) assms heap_wf_find [OF assms(1), of x l] by auto
  ultimately show ?R
    using a(2) by (force simp: um_keys_def)
next
  assume ?R
  then obtain n where n: "(x, n) \<in> set (v_edges (heap ! l))" "x \<noteq> v_id (heap ! l)"
    by (auto simp: um_keys_def)
  then show ?L
    using heap_wf_edge [OF assms n(1)] by force
qed

text \<open>The table: each neighbour of the local vertex is its own next hop, nobody else has one.\<close>

lemma computeRoutingTable_result:
  assumes "graph_wf w" "graph_findVertice self w = Some l"
  shows "\<exists>heap t. graph_computeRoutingTable self w =
      (Return (), w\<lparr>g_heap := heap, mRoutingTable := t, mTable := Some t\<rparr>)
    \<and> map shape heap = map shape (g_heap w)
    \<and> (\<forall>x. rt_findNextHop t x =
         (if x \<in> set (um_keys (v_edges (g_heap w ! l))) - {self} then Some x else None))"
proof -
  let ?m = "mVertices w"
  let ?h0 = "reset_all ?m (g_heap w)"
  let ?h1 = "?h0[l := (?h0 ! l)\<lparr>v_nextHop := None, v_distance := 0\<rparr>]"
  let ?h2 = "dijkstra (g_ptr w) ?h1 [(0, l)]"
  let ?t = "fold (table_entry ?h2) ?m RoutingTable_new"
  let ?E = "snd ` set (v_edges (g_heap w ! l)) - {l}"
  have wf: "heap_wf ?m (g_heap w)" and l: "l < length (g_heap w)" "v_id (g_heap w ! l) = self"
    using assms heap_wf_find [of ?m "g_heap w" self l] by (simp_all add: graph_wf_def graph_findVertice_def)
  have shape1: "map shape ?h1 = map shape (g_heap w)"
    by (simp add: map_shape_update shape_update reset_all_shape)
  then have wf1: "heap_wf ?m ?h1"
    using wf heap_wf_cong by blast
  have shape2: "map shape ?h2 = map shape (g_heap w)"
    using shape1 by (simp add: dijkstra_shape)
  have "one_hop l (snd ` set (v_edges (?h1 ! l)) - {l}) ?h2"
  proof (rule dijkstra_local)
    show "\<forall>n < length ?h1. v_nextHop (?h1 ! n) = None \<and> \<not> v_visited (?h1 ! n)
        \<and> (n \<noteq> l \<longrightarrow> v_distance (?h1 ! n) = - 1)"
      using reset_all_nth [OF heap_wf_all [OF wf]] by (simp add: nth_update)
  qed (use l heap_wf_edges_in [OF wf1] in simp_all)
  moreover have "v_edges (?h1 ! l) = v_edges (g_heap w ! l)"
    by (rule shape_eqD(2) [OF shape1]) (simp add: l(1))
  ultimately have hop: "one_hop l ?E ?h2"
    by simp
  have len2: "length ?h2 = length (g_heap w)"
    using shape2 by (metis length_map)
  have table: "rt_findNextHop ?t x = (if x \<in> set (um_keys (v_edges (g_heap w ! l))) - {self} then Some x else None)" for x
  proof -
    have "rt_findNextHop ?t x =
        (case um_find ?m x of None \<Rightarrow> None
         | Some a \<Rightarrow> map_option (\<lambda>h. v_id (?h2 ! h)) (v_nextHop (?h2 ! a)))"
      using wf by (subst table_find) (simp_all add: heap_wf_def rt_findNextHop_def RoutingTable_new_def)
    also have "\<dots> = (case um_find ?m x of None \<Rightarrow> None | Some a \<Rightarrow> if a \<in> ?E then Some x else None)"
    proof (cases "um_find ?m x")
      case (Some a)
      then have a: "a < length (g_heap w)" "v_id (g_heap w ! a) = x"
        using heap_wf_find [OF wf] by auto
      have "v_nextHop (?h2 ! a) = (if a \<in> ?E then Some a else None)"
        using hop a(1) len2 by (cases "a = l") (simp_all add: one_hop_def)
      moreover have "v_id (?h2 ! a) = x"
        using shape_eqD(1) [OF shape2] a len2 by simp
      ultimately show ?thesis
        using Some by simp
    qed simp
    also have "\<dots> = (if x \<in> set (um_keys (v_edges (g_heap w ! l))) - {self} then Some x else None)"
      using edge_targets [OF wf l(1), of x] unfolding l(2)
      by (cases "um_find ?m x") (simp_all del: image_iff)
    finally show ?thesis .
  qed
  have "graph_computeRoutingTable self w =
      (Return (), w\<lparr>g_heap := ?h2, mRoutingTable := ?t, mTable := Some ?t\<rparr>)"
    using assms(2) l
    by (simp add: graph_computeRoutingTable_def Let_def graph_findVertice_def routing_setTable_def nth_update)
  with shape2 table show ?thesis
    by blast
qed

end
