(* ===== verification/Sequence.thy ===== *)
theory Sequence
  imports Prelude
begin

text \<open>
  Serial-number arithmetic (\<open>compare_sequence\<close> in \<open>src/impl/message.hpp\<close>) and the contract
  of the two places that use it to drop stale messages: the per-sender filter of the
  transports and the state table of the graph.
\<close>

section \<open>Comparison\<close>

text \<open>\<open>s1 - s2\<close> wraps around; \<open>std::numeric_limits<uint32_t>::max() / 2\<close> is an integer division.\<close>

definition compare_sequence :: "32 word \<Rightarrow> 32 word \<Rightarrow> int" where
  "compare_sequence s1 s2 =
     (if s1 = s2 then 0
      else if s1 - s2 < (- 1) div 2 then 1
      else - 1)"

definition seq_window :: nat where
  "seq_window = 2 ^ 31 - 1"

lemma half_max: "((- 1 :: 32 word) div 2) = 2147483647"
  by simp

lemma compare_sequence_pos_iff:
  "compare_sequence s1 s2 > 0 \<longleftrightarrow> s1 \<noteq> s2 \<and> unat (s1 - s2) < seq_window"
  by (simp add: compare_sequence_def half_max word_less_nat_alt seq_window_def)

lemma compare_sequence_self [simp]: "compare_sequence s s = 0"
  by (simp add: compare_sequence_def)

text \<open>Distances travelled from a common base, for numbers of steps that do not wrap around.\<close>

lemma unat_small: "n < 2 ^ 32 \<Longrightarrow> unat (of_nat n :: 32 word) = n"
  by (simp add: unat_of_nat take_bit_nat_eq_self)

lemma unat_diff_forward:
  assumes "m \<le> n" "n - m < 2 ^ 32"
  shows "unat ((base + of_nat n) - (base + of_nat m) :: 32 word) = n - m"
proof -
  have "(base + of_nat n) - (base + of_nat m) = (of_nat (n - m) :: 32 word)"
    using assms(1) by simp
  then show ?thesis
    using unat_small [OF assms(2)] by (simp only:)
qed

lemma unat_diff_backward:
  assumes "m < n" "n - m < 2 ^ 32"
  shows "unat ((base + of_nat m) - (base + of_nat n) :: 32 word) = 2 ^ 32 - (n - m)"
proof -
  have "(of_nat (2 ^ 32 - (n - m)) :: 32 word) = of_nat (2 ^ 32) - of_nat (n - m)"
    using assms(2) by (intro of_nat_diff) simp
  also have "\<dots> = (base + of_nat m) - (base + of_nat n)"
    using assms(1) by simp
  finally show ?thesis
    using assms unat_small [of "2 ^ 32 - (n - m)"] by (simp only:)
qed

lemma compare_sequence_steps:
  assumes "m < seq_window" "n < seq_window"
  shows "compare_sequence (base + of_nat n) (base + of_nat m) > 0 \<longleftrightarrow> m < n"
proof (cases "m < n")
  case True
  then have "unat ((base + of_nat n) - (base + of_nat m) :: 32 word) = n - m"
    using assms by (intro unat_diff_forward) (auto simp: seq_window_def)
  with True assms show ?thesis
    by (auto simp: compare_sequence_pos_iff)
next
  case False
  show ?thesis
  proof (cases "n = m")
    case False
    with \<open>\<not> m < n\<close> have "n < m"
      by simp
    then have "unat ((base + of_nat n) - (base + of_nat m) :: 32 word) = 2 ^ 32 - (m - n)"
      using assms by (intro unat_diff_backward) (auto simp: seq_window_def)
    with \<open>n < m\<close> assms show ?thesis
      by (auto simp: compare_sequence_pos_iff seq_window_def)
  qed simp
qed

lemma unat_diff_swap:
  assumes "s1 \<noteq> (s2 :: 32 word)"
  shows "unat (s2 - s1) = 2 ^ 32 - unat (s1 - s2)"
proof -
  have "unat (s1 - s2) \<noteq> 0"
    using assms by (simp add: unat_eq_0)
  moreover have "unat (s1 - s2) < 2 ^ 32"
    using unsigned_less [of "s1 - s2", where ?'a = nat] by simp
  ultimately have "unat ((s2 + of_nat 0) - (s2 + of_nat (unat (s1 - s2)))) = 2 ^ 32 - (unat (s1 - s2) - 0)"
    by (intro unat_diff_backward) auto
  then show ?thesis
    by simp
qed

text \<open>C35: comparing two sequence numbers says "newer" in at most one direction, and it says
  "older" in both directions exactly when they are 2147483647, 2147483648 or 2147483649 apart:
  a sender that far ahead is taken for stale, although the comment of the last branch reads
  \<open>s1 < s2\<close>.\<close>

theorem compare_sequence_directions:
  "(compare_sequence s1 s2 > 0 \<longleftrightarrow> s1 \<noteq> s2 \<and> unat (s1 - s2) < 2147483647)
   \<and> (compare_sequence s1 s2 < 0 \<and> compare_sequence s2 s1 < 0 \<longleftrightarrow>
        unat (s1 - s2) \<in> {2147483647, 2147483648, 2147483649})
   \<and> \<not> (compare_sequence s1 s2 > 0 \<and> compare_sequence s2 s1 > 0)"
proof (cases "s1 = s2")
  case True
  then show ?thesis by simp
next
  case False
  have "compare_sequence s1 s2 > 0 \<longleftrightarrow> unat (s1 - s2) < 2147483647"
    "compare_sequence s2 s1 > 0 \<longleftrightarrow> unat (s2 - s1) < 2147483647"
    using False by (auto simp: compare_sequence_pos_iff seq_window_def)
  moreover have "compare_sequence s1 s2 < 0 \<longleftrightarrow> \<not> compare_sequence s1 s2 > 0"
    "compare_sequence s2 s1 < 0 \<longleftrightarrow> \<not> compare_sequence s2 s1 > 0"
    using False by (auto simp: compare_sequence_def)
  moreover have "unat (s2 - s1) = 4294967296 - unat (s1 - s2)"
    using unat_diff_swap [OF False] by simp
  ultimately show ?thesis
    using False by auto
qed

section \<open>The contract of a freshness filter\<close>

text \<open>What is let through when sequence numbers arrive one after the other from one sender.\<close>

fun accepted_list :: "('k \<Rightarrow> 32 word \<Rightarrow> 's \<Rightarrow> bool \<times> 's) \<Rightarrow> 'k \<Rightarrow> 's \<Rightarrow> 32 word list \<Rightarrow> 32 word list" where
  "accepted_list accept k st [] = []"
| "accepted_list accept k st (s # ss) =
     (if fst (accept k s st) then s # accepted_list accept k (snd (accept k s st)) ss
      else accepted_list accept k (snd (accept k s st)) ss)"

text \<open>The abstract filter: a number passes when it exceeds everything that passed before.\<close>

fun newest :: "nat option \<Rightarrow> nat list \<Rightarrow> nat list" where
  "newest mx [] = []"
| "newest mx (n # ns) =
     (if (case mx of None \<Rightarrow> True | Some m \<Rightarrow> m < n) then n # newest (Some n) ns else newest mx ns)"

lemma newest_above: "x \<in> set (newest (Some m) ns) \<Longrightarrow> m < x"
  by (induction ns arbitrary: m) (auto split: if_splits dest: less_trans)

lemma newest_increasing: "sorted_wrt (<) (newest mx ns)"
  by (induction ns arbitrary: mx) (auto dest: newest_above)

lemma newest_subset: "set (newest mx ns) \<subseteq> set ns"
  by (induction ns arbitrary: mx) (auto split: if_splits)

locale freshness =
  fixes last_seq :: "'s \<Rightarrow> 'k \<Rightarrow> 32 word option"
    and accept :: "'k \<Rightarrow> 32 word \<Rightarrow> 's \<Rightarrow> bool \<times> 's"
    and ok :: "'s \<Rightarrow> bool"
    and senders :: "'k set"
  assumes accept_iff: "ok st \<Longrightarrow> k \<in> senders \<Longrightarrow>
      fst (accept k s st) \<longleftrightarrow>
        (case last_seq st k of None \<Rightarrow> True | Some l \<Rightarrow> compare_sequence s l > 0)"
    and last_accept: "ok st \<Longrightarrow> k \<in> senders \<Longrightarrow> k' \<in> senders \<Longrightarrow>
      last_seq (snd (accept k s st)) k' =
        (if k' = k \<and> fst (accept k s st) then Some s else last_seq st k')"
    and ok_accept: "ok st \<Longrightarrow> k \<in> senders \<Longrightarrow> ok (snd (accept k s st))"
begin

text \<open>A message that was let through is not let through again.\<close>

lemma no_replay:
  "ok st \<Longrightarrow> k \<in> senders \<Longrightarrow> fst (accept k s st) \<Longrightarrow> \<not> fst (accept k s (snd (accept k s st)))"
  by (simp add: accept_iff [OF ok_accept] last_accept)

text \<open>Senders do not disturb one another.\<close>

lemma independent:
  assumes "ok st" "k \<in> senders" "k' \<in> senders" "k' \<noteq> k"
  shows "fst (accept k' s' (snd (accept k s st))) = fst (accept k' s' st)"
  using assms by (simp add: accept_iff ok_accept last_accept)

text \<open>
  The wrapping filter implements the abstract one for a sender whose numbers start anywhere
  and stay within a window of the starting point, in whatever order and however often its
  messages arrive.
\<close>

lemma accepted_newest:
  assumes "ok st" "k \<in> senders"
    and "last_seq st k = map_option (\<lambda>m. base + of_nat m) mx"
    and "\<forall>m. mx = Some m \<longrightarrow> m < seq_window" "\<forall>n \<in> set ns. n < seq_window"
  shows "accepted_list accept k st (map (\<lambda>n. base + of_nat n) ns) =
    map (\<lambda>n. base + of_nat n) (newest mx ns)"
  using assms
proof (induction ns arbitrary: st mx)
  case Nil
  then show ?case by simp
next
  case (Cons n ns)
  let ?s = "base + of_nat n :: 32 word"
  let ?st = "snd (accept k ?s st)"
  have pass: "fst (accept k ?s st) \<longleftrightarrow> (case mx of None \<Rightarrow> True | Some m \<Rightarrow> m < n)"
    using Cons.prems by (auto simp: accept_iff compare_sequence_steps split: option.splits)
  have last: "last_seq ?st k = (if fst (accept k ?s st) then Some ?s else last_seq st k)"
    using Cons.prems by (simp add: last_accept)
  have ok: "ok ?st"
    using Cons.prems by (simp add: ok_accept)
  show ?case
  proof (cases "fst (accept k ?s st)")
    case True
    then have "accepted_list accept k ?st (map (\<lambda>n. base + of_nat n) ns) =
        map (\<lambda>n. base + of_nat n) (newest (Some n) ns)"
      using Cons.prems ok last by (intro Cons.IH) auto
    with True pass show ?thesis
      by simp
  next
    case False
    then have "accepted_list accept k ?st (map (\<lambda>n. base + of_nat n) ns) =
        map (\<lambda>n. base + of_nat n) (newest mx ns)"
      using Cons.prems ok last by (intro Cons.IH) auto
    with False pass show ?thesis
      by simp
  qed
qed

end

end
