(* ===== verification/Graph.thy ===== *)
theory Graph
  imports Route_Computation Sequence
begin

text \<open>
  The graph of the network (\<open>src/impl/graph.hpp\<close>, \<open>graph.cpp\<close>): the announced state of every
  node, how announcements are accepted and passed on, and the announcements of the local node.
  \<open>self\<close> is the identifier of the local node, the public half of its key pair.
\<close>

section \<open>Edges\<close>

definition graph_addEdge :: "pointer \<Rightarrow> 'p \<Rightarrow> ('p, 'z) graph_scheme \<Rightarrow> ('p, 'z) graph_scheme" where
  "graph_addEdge a i w =
     (let (neighbor, w) =
        (case um_find (mVertices w) i of
           Some n \<Rightarrow> (n, w)
         | None \<Rightarrow>
             (let n = length (g_heap w)
              in (n, w\<lparr>g_heap := g_heap w @ [Vertice_new i],
                       mVertices := um_emplace i n (mVertices w)\<rparr>)))
      in w\<lparr>g_heap := (g_heap w)[a := (g_heap w ! a)
             \<lparr>v_edges := um_emplace i neighbor (v_edges (g_heap w ! a))\<rparr>]\<rparr>)"

definition graph_updateEdges ::
    "'p::linorder \<Rightarrow> 'p \<Rightarrow> 'p list \<Rightarrow> (('p, 'z) graph_scheme, bool) prog" where
  "graph_updateEdges self i neighbors w =
     (case graph_findVertice i w of
        None \<Rightarrow> (Throw (Invalid_argument ''Vertice not found''), w)
      | Some a \<Rightarrow>
          (let currentNeighbors = oset_of (um_keys (v_edges (g_heap w ! a)));
               added = oset_diff neighbors currentNeighbors;
               removed = oset_diff currentNeighbors neighbors
           in if added = [] \<and> removed = [] then (Return False, w)
              else
                (let w = w\<lparr>g_heap := (g_heap w)[a := (g_heap w ! a)
                             \<lparr>v_edges := fold um_erase removed (v_edges (g_heap w ! a))\<rparr>]\<rparr>;
                     w = fold (graph_addEdge a) added w
                 in bindp (graph_computeRoutingTable self) (\<lambda>_ w. (Return True, w)) w)))"

section \<open>States\<close>

text \<open>
  \<open>updateVertice\<close> and \<open>broadcastState\<close> call each other. The first argument is the number of
  stack frames left: at 0 the call overflows the stack. The definitions return well within
  three frames in every state the program can be in (\<open>insert_state\<close> below).
\<close>

definition graph_setState :: "pointer \<Rightarrow> 'p state \<Rightarrow> ('p, 'z) graph_scheme \<Rightarrow> ('p, 'z) graph_scheme" where
  "graph_setState a s w = w\<lparr>g_heap := (g_heap w)[a := (g_heap w ! a)\<lparr>v_state := Some s\<rparr>]\<rparr>"

definition graph_newVertice :: "'p state \<Rightarrow> ('p, 'z) graph_scheme \<Rightarrow> ('p, 'z) graph_scheme" where
  "graph_newVertice s w =
     w\<lparr>g_heap := g_heap w @ [(Vertice_new (state_id s))\<lparr>v_state := Some s\<rparr>],
       mVertices := um_emplace (state_id s) (length (g_heap w)) (mVertices w)\<rparr>"

text \<open>The tail of \<open>updateVertice\<close>: \<open>vertice->state\<close> is read again after the nested calls.\<close>

definition graph_adopt :: "'p::linorder \<Rightarrow> pointer \<Rightarrow> (('p, 'z) graph_scheme, bool) prog" where
  "graph_adopt self a w =
     bindp
       (graph_updateEdges self (v_id (g_heap w ! a))
         (case v_state (g_heap w ! a) of Some st \<Rightarrow> st_neighbors st | None \<Rightarrow> []))
       (\<lambda>_ w. (Return True, w)) w"

fun graph_updateVertice ::
      "nat \<Rightarrow> ('p::linorder, 'k) env \<Rightarrow> ('p, 'k) EcdsaPair \<Rightarrow> 'p state
       \<Rightarrow> (('p, 'z) graph_scheme, bool) prog"
  and graph_broadcastState ::
      "nat \<Rightarrow> ('p, 'k) env \<Rightarrow> ('p, 'k) EcdsaPair \<Rightarrow> (('p, 'z) graph_scheme, unit) prog" where
  "graph_updateVertice 0 env pair s w = (Overflow, w)"
| "graph_updateVertice (Suc stack) env pair s w =
     (case um_find (mVertices w) (state_id s) of
        Some a \<Rightarrow>
          (let old = v_state (g_heap w ! a)
           in if (case old of Some st \<Rightarrow> compare_sequence (st_sequence s) (st_sequence st) \<le> 0
                  | None \<Rightarrow> False)
              then (Return False, w)
              else
                bindp
                  (\<lambda>w. if (case old of Some st \<Rightarrow> st_ecdhPublic st \<noteq> st_ecdhPublic s | None \<Rightarrow> True)
                       then graph_broadcastState stack env pair w else (Return (), w))
                  (\<lambda>_ w. graph_adopt (pair_public pair) a (graph_setState a s w)) w)
      | None \<Rightarrow>
          (let a = length (g_heap w)
           in bindp (\<lambda>w. graph_broadcastState stack env pair w)
                (\<lambda>_ w. graph_adopt (pair_public pair) a w) (graph_newVertice s w)))"
| "graph_broadcastState 0 env pair w = (Overflow, w)"
| "graph_broadcastState (Suc stack) env pair w =
     (let localState =
            State_new (pair_public pair) (mStateSequence w) (Ecdh_publicKey (mEcdh w));
          w = w\<lparr>mStateSequence := mStateSequence w + 1\<rparr>;
          localState = localState\<lparr>st_neighbors :=
            fold oset_insert (routing_neighbors w) (st_neighbors localState)\<rparr>;
          seed = entropy w;
          w = w\<lparr>entropy := seed + 1\<rparr>
      in case State_toMessage env seed localState pair of
           Inl e \<Rightarrow> (Throw e, w)
         | Inr message \<Rightarrow>
             bindp (\<lambda>w. graph_updateVertice stack env pair localState w)
               (\<lambda>_ w. (Return (), routing_broadcast env message None w)) w)"

section \<open>The operations of the class\<close>

definition graph_insert ::
    "nat \<Rightarrow> ('p::linorder, 'k) env \<Rightarrow> ('p, 'k) EcdsaPair \<Rightarrow> 'p state
     \<Rightarrow> (('p, 'z) graph_scheme, bool) prog" where
  "graph_insert stack env pair s w = graph_updateVertice stack env pair s w"

definition graph_get :: "'p \<Rightarrow> ('p, 'z) graph_scheme \<Rightarrow> exn + 'p state" where
  "graph_get nodeId w =
     (case um_find (mVertices w) nodeId of
        None \<Rightarrow> Inl (Runtime_error ''Attempted to get state for unknown node'')
      | Some a \<Rightarrow>
          (case v_state (g_heap w ! a) of
             None \<Rightarrow> Inl (Runtime_error ''Unknown node state'')
           | Some st \<Rightarrow> Inr st))"

definition graph_nodes :: "('p, 'z) graph_scheme \<Rightarrow> 'p list" where
  "graph_nodes w = map fst (filter (\<lambda>(i, a). v_state (g_heap w ! a) \<noteq> None) (mVertices w))"

definition graph_count :: "('p, 'z) graph_scheme \<Rightarrow> int" where
  "graph_count w = int (length (mVertices w))"

definition graph_localEcdhPair :: "('p, 'z) graph_scheme \<Rightarrow> Ecdh" where
  "graph_localEcdhPair w = mEcdh w"

definition graph_routingTable :: "('p, 'z) graph_scheme \<Rightarrow> 'p routing_table" where
  "graph_routingTable w = mRoutingTable w"

definition graph_broadcastHello ::
    "('p, 'k) env \<Rightarrow> ('p, 'k) EcdsaPair \<Rightarrow> (('p, 'z) graph_scheme, unit) prog" where
  "graph_broadcastHello env pair w =
     (let sequence = mHelloSequence w;
          w = w\<lparr>mHelloSequence := sequence + 1\<rparr>;
          seed = entropy w;
          w = w\<lparr>entropy := seed + 1\<rparr>
      in case make_message env seed Hello sequence [] (Some pair) None of
           Inl e \<Rightarrow> (Throw e, w)
         | Inr message \<Rightarrow> (Return (), routing_broadcast env message None w))"

definition graph_update ::
    "('p, 'k) env \<Rightarrow> ('p, 'k) EcdsaPair \<Rightarrow> (('p, 'z) graph_scheme, unit) prog" where
  "graph_update env pair w = graph_broadcastHello env pair w"

definition graph_notify ::
    "nat \<Rightarrow> ('p::linorder, 'k) env \<Rightarrow> ('p, 'k) EcdsaPair \<Rightarrow> 'p event
     \<Rightarrow> (('p, 'z) graph_scheme, 'p event option) prog" where
  "graph_notify stack env pair event w =
     (case event of
        MessageEvent message ch \<Rightarrow>
          if m_type message = Hello then
            (case (m_source message, ch) of
               (Some source, Some c) \<Rightarrow>
                 if \<not> routing_hasNeighbor source w
                 then (let (emitted, w) = routing_addNeighbor source c w in (Return emitted, w))
                 else (Return None, w)
             | _ \<Rightarrow> (Return None, w))
          else if m_type message = StateType then
            (case State_FromMessage env (Some message) of
               Inl e \<Rightarrow> (Throw e, w)
             | Inr s \<Rightarrow>
                 bindp (graph_insert stack env pair s)
                   (\<lambda>accepted w. (Return None,
                      if accepted then routing_broadcast env message ch w else w)) w)
          else (Return None, w)
      | NeighborEvent i ch \<Rightarrow>
          (let neighbors = routing_neighbors w
           in bindp (graph_updateEdges (pair_public pair) (pair_public pair) neighbors)
                (\<lambda>changed w.
                   if changed
                   then bindp (graph_broadcastState stack env pair) (\<lambda>_ w. (Return None, w)) w
                   else (Return None, w)) w))"

definition Graph_new ::
    "nat \<Rightarrow> ('p::linorder, 'k) env \<Rightarrow> ('p, 'k) EcdsaPair \<Rightarrow> (pointer \<Rightarrow> nat) \<Rightarrow> nat \<Rightarrow> 'p routing
     \<Rightarrow> bool outcome \<times> 'p graph" where
  "Graph_new stack env pair ptr seed r =
     (let w = routing.extend r
            \<lparr>g_heap = [], g_ptr = ptr, mVertices = [], mRoutingTable = RoutingTable_new,
             mEcdh = Ecdh_new env seed, mHelloSequence = 0, mStateSequence = 0,
             entropy = seed + 1\<rparr>
      in graph_insert stack env pair
           (State_new (pair_public pair) (mStateSequence w - 1) (Ecdh_publicKey (mEcdh w))) w)"

section \<open>The graph as a map from nodes to states and links\<close>

definition graph_state :: "('p, 'z) graph_scheme \<Rightarrow> 'p \<Rightarrow> 'p state option" where
  "graph_state w i = Option.bind (graph_findVertice i w) (\<lambda>a. v_state (g_heap w ! a))"

definition graph_links :: "('p, 'z) graph_scheme \<Rightarrow> 'p \<Rightarrow> 'p set" where
  "graph_links w i =
     (case graph_findVertice i w of None \<Rightarrow> {} | Some a \<Rightarrow> set (um_keys (v_edges (g_heap w ! a))))"

text \<open>What operations on the graph leave alone: everything but vertices and tables.\<close>

definition graph_frame :: "('p, 'z) graph_scheme \<Rightarrow> ('p, 'z) graph_scheme \<Rightarrow> bool" where
  "graph_frame w w' \<longleftrightarrow>
     (\<exists>heap m rt t. w' = w\<lparr>g_heap := heap, mVertices := m, mRoutingTable := rt, mTable := t\<rparr>)"

lemma graph_frame_refl [simp]: "graph_frame w w"
  unfolding graph_frame_def
  by (rule exI [of _ "g_heap w"], rule exI [of _ "mVertices w"], rule exI [of _ "mRoutingTable w"],
      rule exI [of _ "mTable w"]) simp

lemma graph_frame_trans: "graph_frame u v \<Longrightarrow> graph_frame v w \<Longrightarrow> graph_frame u w"
  by (auto simp: graph_frame_def) blast

lemma graph_frame_update [simp]:
  "graph_frame w (w\<lparr>g_heap := heap\<rparr>)"
  "graph_frame w (w\<lparr>g_heap := heap, mVertices := m\<rparr>)"
  "graph_frame w (w\<lparr>g_heap := heap, mRoutingTable := rt, mTable := t\<rparr>)"
  unfolding graph_frame_def
  by (rule exI [of _ heap], rule exI [of _ "mVertices w"], rule exI [of _ "mRoutingTable w"],
      rule exI [of _ "mTable w"], simp)
    (rule exI [of _ heap], rule exI [of _ m], rule exI [of _ "mRoutingTable w"],
      rule exI [of _ "mTable w"], simp,
     rule exI [of _ heap], rule exI [of _ "mVertices w"], rule exI [of _ rt],
      rule exI [of _ t], simp)

lemma graph_frame_fields:
  assumes "graph_frame w w'"
  shows "mNeighbors w' = mNeighbors w" "mChannels w' = mChannels w" "mEcdh w' = mEcdh w"
    "mStateSequence w' = mStateSequence w" "mHelloSequence w' = mHelloSequence w"
    "entropy w' = entropy w" "rtc_sent w' = rtc_sent w" "rtc_cerr w' = rtc_cerr w"
    "rtc_open w' = rtc_open w" "rtc_throws w' = rtc_throws w" "rtc_handler w' = rtc_handler w"
    "g_ptr w' = g_ptr w" "graph.more w' = graph.more w"
  using assms by (auto simp: graph_frame_def)

lemma graph_view_heap:
  assumes "graph_wf w" "a < length (g_heap w)"
  shows "graph_findVertice (v_id (g_heap w ! a)) w = Some a"
    "graph_state w (v_id (g_heap w ! a)) = v_state (g_heap w ! a)"
    "graph_links w (v_id (g_heap w ! a)) = set (um_keys (v_edges (g_heap w ! a)))"
proof -
  show "graph_findVertice (v_id (g_heap w ! a)) w = Some a"
    using assms heap_wf_find [of "mVertices w" "g_heap w" _ a]
    by (simp add: graph_findVertice_def graph_wf_def)
  then show "graph_state w (v_id (g_heap w ! a)) = v_state (g_heap w ! a)"
    "graph_links w (v_id (g_heap w ! a)) = set (um_keys (v_edges (g_heap w ! a)))"
    by (simp_all add: graph_state_def graph_links_def)
qed

lemma graph_findVertice_heap:
  assumes "graph_wf w" "graph_findVertice i w = Some a"
  shows "a < length (g_heap w)" "v_id (g_heap w ! a) = i"
  using assms heap_wf_find [of "mVertices w" "g_heap w"]
  by (auto simp: graph_findVertice_def graph_wf_def)

lemma graph_absent:
  "graph_findVertice i w = None \<Longrightarrow> graph_state w i = None \<and> graph_links w i = {}"
  by (simp add: graph_state_def graph_links_def)

section \<open>Keeping the graph well formed\<close>

lemma heap_wf_update:
  assumes "heap_wf m heap" "v_id v = v_id (heap ! a)" "um_ok (v_edges v)"
    "\<forall>(i, n) \<in> set (v_edges v). um_find m i = Some n"
  shows "heap_wf m (heap[a := v])"
proof -
  have "\<forall>(i, b) \<in> set m. b < length heap \<and> v_id (heap[a := v] ! b) = i"
    using assms(1,2) by (fastforce simp: heap_wf_def nth_update)
  then show ?thesis
    using assms by (simp add: heap_wf_def nth_update)
qed

lemma heap_wf_edges:
  "heap_wf m heap \<Longrightarrow> a < length heap \<Longrightarrow>
   um_ok (v_edges (heap ! a)) \<and> (\<forall>(i, n) \<in> set (v_edges (heap ! a)). um_find m i = Some n)"
  by (simp add: heap_wf_def)

lemma heap_wf_new:
  assumes "heap_wf m heap" "um_find m i = None" "v_id v = i" "v_edges v = []"
  shows "heap_wf (um_emplace i (length heap) m) (heap @ [v])"
proof -
  have m: "um_emplace i (length heap) m = m @ [(i, length heap)]"
    using assms(2) by (simp add: um_emplace_def)
  have find: "um_find (m @ [(i, length heap)]) j = (if j = i then Some (length heap) else um_find m j)" for j
    using assms(2) by (simp add: um_find_append split: option.split)
  have ok: "um_ok (m @ [(i, length heap)])"
    using assms(1) um_ok_emplace [of m i "length heap"] by (simp add: heap_wf_def m)
  have other: "v_id (heap ! a) \<noteq> i" if "a < length heap" for a
    using assms(1,2) heap_wf_find [of m heap i a] that by auto
  have edge: "um_find (m @ [(i, length heap)]) j = Some n"
    if "a < length heap" "(j, n) \<in> set (v_edges (heap ! a))" for a j n
    using heap_wf_edge [OF assms(1) that] assms(2) by (auto simp: find)
  have entries: "\<forall>(j, a) \<in> set (m @ [(i, length heap)]). a < length (heap @ [v]) \<and> v_id ((heap @ [v]) ! a) = j"
    using assms(1,3) by (fastforce simp: heap_wf_def nth_append)
  have "um_find (m @ [(i, length heap)]) (v_id ((heap @ [v]) ! a)) = Some a
      \<and> um_ok (v_edges ((heap @ [v]) ! a))
      \<and> (\<forall>(j, n) \<in> set (v_edges ((heap @ [v]) ! a)). um_find (m @ [(i, length heap)]) j = Some n)"
    if "a < length (heap @ [v])" for a
  proof (cases "a < length heap")
    case True
    then show ?thesis
      using assms(1) edge [OF True] other [OF True] by (auto simp: nth_append find heap_wf_def)
  next
    case False
    then show ?thesis
      using that assms(3,4) by (simp add: nth_append find less_Suc_eq)
  qed
  then show ?thesis
    unfolding m heap_wf_def using ok entries by blast
qed

text \<open>The steps of the operations, seen through \<open>graph_state\<close> and \<open>graph_links\<close>.\<close>

lemma graph_view_update:
  assumes "graph_wf w" "graph_findVertice i w = Some a" "v_id v = i"
  shows "graph_findVertice j (w\<lparr>g_heap := (g_heap w)[a := v]\<rparr>) = graph_findVertice j w"
    "graph_state (w\<lparr>g_heap := (g_heap w)[a := v]\<rparr>) j = (if j = i then v_state v else graph_state w j)"
    "graph_links (w\<lparr>g_heap := (g_heap w)[a := v]\<rparr>) j =
       (if j = i then set (um_keys (v_edges v)) else graph_links w j)"
proof -
  let ?w = "w\<lparr>g_heap := (g_heap w)[a := v]\<rparr>"
  show find: "graph_findVertice j ?w = graph_findVertice j w"
    by (simp add: graph_findVertice_def)
  have "b \<noteq> a" if "graph_findVertice j w = Some b" "j \<noteq> i" for b
    using that assms graph_findVertice_heap [of w] by metis
  then show "graph_state ?w j = (if j = i then v_state v else graph_state w j)"
    "graph_links ?w j = (if j = i then set (um_keys (v_edges v)) else graph_links w j)"
    using assms graph_findVertice_heap(1) [OF assms(1,2)] unfolding graph_state_def graph_links_def find
    by (auto simp: nth_update split: option.split bind_split)
qed

lemma graph_view_new:
  assumes "graph_wf w" "graph_findVertice i w = None" "v_id v = i" "v_edges v = []"
    and w': "w' = w\<lparr>g_heap := g_heap w @ [v], mVertices := um_emplace i (length (g_heap w)) (mVertices w)\<rparr>"
  shows "graph_wf w'"
    "graph_findVertice j w' = (if j = i then Some (length (g_heap w)) else graph_findVertice j w)"
    "graph_state w' j = (if j = i then v_state v else graph_state w j)"
    "graph_links w' j = graph_links w j"
proof -
  show wf: "graph_wf w'"
    using assms(1-4) by (simp add: w' graph_wf_def graph_findVertice_def heap_wf_new)
  show find: "graph_findVertice j w' = (if j = i then Some (length (g_heap w)) else graph_findVertice j w)" for j
    using assms(2) by (simp add: w' graph_findVertice_def um_find_emplace)
  have old: "b < length (g_heap w)" if "graph_findVertice j w = Some b" for b
    using that assms graph_findVertice_heap [of w] by metis
  then show "graph_state w' j = (if j = i then v_state v else graph_state w j)"
    unfolding graph_state_def find
    by (auto simp: w' nth_append split: option.split bind_split)
  show "graph_links w' j = graph_links w j"
    using old assms(2,4) unfolding graph_links_def find
    by (auto simp: w' nth_append um_keys_def split: option.split)
qed

text \<open>A step that adds vertices and changes links, but no vertex's identity or state.\<close>

definition graph_ext :: "('p, 'z) graph_scheme \<Rightarrow> ('p, 'z) graph_scheme \<Rightarrow> bool" where
  "graph_ext w w' \<longleftrightarrow>
     graph_wf w' \<and> graph_frame w w'
     \<and> (\<forall>i a. graph_findVertice i w = Some a \<longrightarrow> graph_findVertice i w' = Some a)
     \<and> (\<forall>i. graph_state w' i = graph_state w i)"

lemma graph_ext_refl: "graph_wf w \<Longrightarrow> graph_ext w w"
  by (simp add: graph_ext_def)

lemma graph_ext_trans: "graph_ext u v \<Longrightarrow> graph_ext v w \<Longrightarrow> graph_ext u w"
  using graph_frame_trans [of u v w] by (simp add: graph_ext_def)

lemma set_edges:
  assumes "graph_wf w" "graph_findVertice i w = Some a" "um_ok es"
    "\<forall>(j, n) \<in> set es. graph_findVertice j w = Some n"
    and w': "w' = w\<lparr>g_heap := (g_heap w)[a := (g_heap w ! a)\<lparr>v_edges := es\<rparr>]\<rparr>"
  shows "graph_ext w w'" "graph_findVertice k w' = graph_findVertice k w"
    "graph_links w' k = (if k = i then set (um_keys es) else graph_links w k)"
proof -
  have id: "v_id ((g_heap w ! a)\<lparr>v_edges := es\<rparr>) = i" and a: "a < length (g_heap w)"
    using graph_findVertice_heap [OF assms(1,2)] by simp_all
  have "graph_wf w'"
    using assms(1,3,4) graph_findVertice_heap(2) [OF assms(1,2)]
    by (simp add: w' graph_wf_def graph_findVertice_def heap_wf_update)
  moreover have "graph_state w' k = graph_state w k" for k
    using graph_view_update(2) [OF assms(1,2) id, of k] graph_view_heap(2) [OF assms(1) a]
      graph_findVertice_heap(2) [OF assms(1,2)]
    by (auto simp: w')
  ultimately show "graph_ext w w'"
    using graph_view_update(1) [OF assms(1,2) id] by (simp add: graph_ext_def w')
  show "graph_findVertice k w' = graph_findVertice k w"
    "graph_links w' k = (if k = i then set (um_keys es) else graph_links w k)"
    using graph_view_update(1,3) [OF assms(1,2) id, of k] by (simp_all add: w')
qed

lemma graph_edges_of:
  assumes "graph_wf w" "graph_findVertice i w = Some a"
  shows "um_ok (v_edges (g_heap w ! a))"
    "\<forall>(j, n) \<in> set (v_edges (g_heap w ! a)). graph_findVertice j w = Some n"
    "set (um_keys (v_edges (g_heap w ! a))) = graph_links w i"
  using heap_wf_edges [of "mVertices w" "g_heap w" a] graph_findVertice_heap [OF assms]
    graph_view_heap(3) [OF assms(1), of a] assms(1)
  by (simp_all add: graph_wf_def graph_findVertice_def)

lemma addEdge_view:
  assumes "graph_wf w" "graph_findVertice i w = Some a"
  shows "graph_ext w (graph_addEdge a j w)"
    "graph_links (graph_addEdge a j w) k = (if k = i then insert j (graph_links w i) else graph_links w k)"
proof -
  have main: "graph_ext w (u\<lparr>g_heap := (g_heap u)[a := (g_heap u ! a)\<lparr>v_edges := um_emplace j n (v_edges (g_heap u ! a))\<rparr>]\<rparr>)
      \<and> graph_links (u\<lparr>g_heap := (g_heap u)[a := (g_heap u ! a)\<lparr>v_edges := um_emplace j n (v_edges (g_heap u ! a))\<rparr>]\<rparr>) k
        = (if k = i then insert j (graph_links w i) else graph_links w k)"
    if u: "graph_ext w u" "graph_findVertice i u = Some a" "graph_findVertice j u = Some n"
      "\<forall>k. graph_links u k = graph_links w k" for u n
  proof -
    let ?es = "um_emplace j n (v_edges (g_heap u ! a))"
    have wf: "graph_wf u"
      using u(1) by (simp add: graph_ext_def)
    note old = graph_edges_of [OF wf u(2)]
    have "um_ok ?es" "\<forall>(j, n) \<in> set ?es. graph_findVertice j u = Some n"
      using old u(3) by (auto simp: um_emplace_def um_ok_def um_keys_def um_find_None_iff)
    note new = set_edges [OF wf u(2) this refl]
    have "set (um_keys ?es) = insert j (graph_links w i)"
      using old(3) u(4) by (simp add: um_keys_emplace insert_absorb)
    then show ?thesis
      using new graph_ext_trans [OF u(1) new(1)] u(4) by simp
  qed
  show "graph_ext w (graph_addEdge a j w)"
    "graph_links (graph_addEdge a j w) k = (if k = i then insert j (graph_links w i) else graph_links w k)"
  proof (atomize (full), cases "um_find (mVertices w) j")
    case (Some n)
    then show "graph_ext w (graph_addEdge a j w) \<and>
        graph_links (graph_addEdge a j w) k = (if k = i then insert j (graph_links w i) else graph_links w k)"
      using main [of w n] graph_ext_refl [OF assms(1)] assms(2)
      by (simp add: graph_addEdge_def graph_findVertice_def)
  next
    case None
    let ?u = "w\<lparr>g_heap := g_heap w @ [Vertice_new j], mVertices := um_emplace j (length (g_heap w)) (mVertices w)\<rparr>"
    have absent: "graph_findVertice j w = None"
      using None by (simp add: graph_findVertice_def)
    note new = graph_view_new [OF assms(1) absent _ _ refl, of "Vertice_new j"]
    have "graph_ext w ?u"
      using new absent graph_absent [OF absent] by (simp add: graph_ext_def Vertice_new_def)
    moreover have "graph_findVertice i ?u = Some a"
      using new(2) [of i] absent assms(2) by (auto simp: Vertice_new_def)
    ultimately have "graph_ext w (graph_addEdge a j w) \<and>
        graph_links (graph_addEdge a j w) k = (if k = i then insert j (graph_links w i) else graph_links w k)"
      using main [of ?u "length (g_heap w)"] new None
      by (simp add: graph_addEdge_def Let_def Vertice_new_def)
    then show "graph_ext w (graph_addEdge a j w) \<and>
        graph_links (graph_addEdge a j w) k = (if k = i then insert j (graph_links w i) else graph_links w k)" .
  qed
qed

lemma addEdges_view:
  assumes "graph_wf w" "graph_findVertice i w = Some a"
  shows "graph_ext w (fold (graph_addEdge a) js w)
    \<and> graph_links (fold (graph_addEdge a) js w) k
        = (if k = i then set js \<union> graph_links w i else graph_links w k)"
  using assms
proof (induction js arbitrary: w)
  case Nil
  then show ?case
    by (simp add: graph_ext_refl)
next
  case (Cons j js)
  note one = addEdge_view [OF Cons.prems, of j]
  have "graph_wf (graph_addEdge a j w)" "graph_findVertice i (graph_addEdge a j w) = Some a"
    using one(1) Cons.prems(2) by (simp_all add: graph_ext_def)
  then show ?case
    using Cons.IH [of "graph_addEdge a j w"] one graph_ext_trans [OF one(1)] by simp
qed

text \<open>The routing table always is the one computed from the local links.\<close>

definition table_ok :: "'p \<Rightarrow> ('p, 'z) graph_scheme \<Rightarrow> bool" where
  "table_ok self w \<longleftrightarrow>
     mTable w = Some (mRoutingTable w)
     \<and> (\<forall>x. rt_findNextHop (mRoutingTable w) x =
          (if x \<in> graph_links w self - {self} then Some x else None))"

lemma view_cong:
  assumes "map shape heap = map shape (g_heap w)" "graph_wf w"
    and w': "w' = w\<lparr>g_heap := heap, mRoutingTable := rt, mTable := t\<rparr>"
  shows "graph_ext w w'" "graph_links w' i = graph_links w i"
proof -
  have find: "graph_findVertice i w' = graph_findVertice i w" for i
    by (simp add: w' graph_findVertice_def)
  have "length heap = length (g_heap w)"
    using assms(1) by (metis length_map)
  then have eq: "v_state (heap ! a) = v_state (g_heap w ! a)" "v_edges (heap ! a) = v_edges (g_heap w ! a)"
    if "graph_findVertice i w = Some a" for i a
    using shape_eqD [OF assms(1)] graph_findVertice_heap(1) [OF assms(2) that] by simp_all
  have "graph_state w' i = graph_state w i" for i
    unfolding graph_state_def find by (simp add: w' eq split: bind_split)
  moreover have "graph_wf w'"
    using assms heap_wf_cong [OF assms(1)] by (simp add: w' graph_wf_def)
  ultimately show "graph_ext w w'"
    by (simp add: graph_ext_def find) (simp add: w')
  show "graph_links w' i = graph_links w i"
    unfolding graph_links_def find by (simp add: w' eq split: option.split)
qed

lemma computeRoutingTable_view:
  assumes "graph_wf w" "graph_findVertice self w = Some l"
  shows "\<exists>w'. graph_computeRoutingTable self w = (Return (), w') \<and> graph_ext w w'
    \<and> (\<forall>i. graph_links w' i = graph_links w i) \<and> table_ok self w'"
proof -
  obtain heap t where eq: "graph_computeRoutingTable self w =
      (Return (), w\<lparr>g_heap := heap, mRoutingTable := t, mTable := Some t\<rparr>)"
    and shape: "map shape heap = map shape (g_heap w)"
    and t: "\<forall>x. rt_findNextHop t x =
         (if x \<in> set (um_keys (v_edges (g_heap w ! l))) - {self} then Some x else None)"
    using computeRoutingTable_result [OF assms] by blast
  let ?w = "w\<lparr>g_heap := heap, mRoutingTable := t, mTable := Some t\<rparr>"
  have "graph_ext w ?w" "\<And>i. graph_links ?w i = graph_links w i"
    using view_cong [OF shape assms(1) refl] by blast+
  moreover have "table_ok self ?w"
    using t calculation(2) [of self] graph_edges_of(3) [OF assms] by (simp add: table_ok_def)
  ultimately show ?thesis
    using eq by blast
qed

lemma fold_erase:
  "set (um_keys (fold um_erase rs m)) = set (um_keys m) - set rs"
  "um_ok m \<Longrightarrow> um_ok (fold um_erase rs m)"
  "set (fold um_erase rs m) \<subseteq> set m"
proof -
  show "set (um_keys (fold um_erase rs m)) = set (um_keys m) - set rs"
    by (induction rs arbitrary: m) (auto simp: um_keys_erase)
  show "um_ok m \<Longrightarrow> um_ok (fold um_erase rs m)"
    by (induction rs arbitrary: m) auto
  have *: "set (um_erase r m) \<subseteq> set m" for r and m :: "('a \<times> 'b) list"
    by (auto simp: um_erase_def)
  show "set (fold um_erase rs m) \<subseteq> set m"
    by (induction rs arbitrary: m) (use * in fastforce)+
qed

lemma oset_diff_Nil_iff: "oset_diff xs ys = [] \<longleftrightarrow> set xs \<subseteq> set ys"
  by (auto simp: oset_diff_def filter_empty_conv)

text \<open>
  \<open>updateEdges\<close> makes the links of a vertex those given, and says whether that was a change;
  if so the routing table has been recomputed.
\<close>

lemma updateEdges_view:
  assumes "graph_wf w" "table_ok self w" "graph_findVertice self w = Some l"
    "graph_findVertice i w = Some a"
  shows "\<exists>w'. graph_updateEdges self i ns w = (Return (graph_links w i \<noteq> set ns), w') \<and> graph_ext w w'
    \<and> (\<forall>j. graph_links w' j = (if j = i then set ns else graph_links w j)) \<and> table_ok self w'
    \<and> (graph_links w i = set ns \<longrightarrow> w' = w)"
proof -
  let ?cur = "oset_of (um_keys (v_edges (g_heap w ! a)))"
  let ?added = "oset_diff ns ?cur" and ?removed = "oset_diff ?cur ns"
  note old = graph_edges_of [OF assms(1,4)]
  have links: "set ?cur = graph_links w i"
    using old(3) by simp
  show ?thesis
  proof (cases "graph_links w i = set ns")
    case True
    then have "?added = [] \<and> ?removed = []"
      using links by (simp add: oset_diff_Nil_iff)
    then have "graph_updateEdges self i ns w = (Return False, w)"
      using assms(4) by (simp add: graph_updateEdges_def Let_def)
    with True show ?thesis
      using assms(1,2) graph_ext_refl by auto
  next
    case False
    then have "\<not> (?added = [] \<and> ?removed = [])"
      using links by (auto simp: oset_diff_Nil_iff)
    let ?es = "fold um_erase ?removed (v_edges (g_heap w ! a))"
    let ?u = "w\<lparr>g_heap := (g_heap w)[a := (g_heap w ! a)\<lparr>v_edges := ?es\<rparr>]\<rparr>"
    have "um_ok ?es" "\<forall>(j, n) \<in> set ?es. graph_findVertice j w = Some n"
      using old fold_erase(2,3) by blast+
    note u = set_edges [OF assms(1,4) this refl]
    let ?v = "fold (graph_addEdge a) ?added ?u"
    have "graph_wf ?u" "graph_findVertice i ?u = Some a"
      using u(1) u(2) [of i] assms(4) by (simp_all add: graph_ext_def)
    note v = addEdges_view [OF this, of ?added]
    have ext: "graph_ext w ?v"
      using u(1) v graph_ext_trans by blast
    then obtain w' where w': "graph_computeRoutingTable self ?v = (Return (), w')" "graph_ext ?v w'"
      "\<forall>i. graph_links w' i = graph_links ?v i" "table_ok self w'"
      using computeRoutingTable_view [of ?v self l] assms(3) by (auto simp: graph_ext_def)
    have "set (um_keys ?es) = graph_links w i - set ?removed"
      using old(3) by (simp add: fold_erase(1))
    then have "set ?added \<union> set (um_keys ?es) = set ns"
      using links by auto
    then have "graph_links ?v j = (if j = i then set ns else graph_links w j)" for j
      using v u(3) by simp
    moreover have "graph_updateEdges self i ns w = (Return True, w')"
      using assms(4) \<open>\<not> (?added = [] \<and> ?removed = [])\<close> w'(1)
      by (simp add: graph_updateEdges_def Let_def bindp_def)
    ultimately show ?thesis
      using False w' graph_ext_trans [OF ext w'(2)] by simp
  qed
qed

section \<open>The table has the neighbours and nobody else\<close>

text \<open>C11: computing the routing table always ends, without an exception when the local node is in
  the graph, and leaves states and links alone; in the table every neighbour of the local
  node is its own next hop and no other node has one, however well it is connected. The
  condition \<open>!node->nextHop || tentative < neighbor->distance\<close> tests the vertex being expanded
  instead of the neighbour, and a distance not yet known is -1, so no vertex is ever reached
  through another.\<close>

theorem routing_table_is_one_hop:
  assumes "graph_wf w" "graph_findVertice self w = Some l"
  shows "\<exists>w' t. graph_computeRoutingTable self w = (Return (), w')
    \<and> mTable w' = Some t \<and> graph_routingTable w' = t
    \<and> (\<forall>x. rt_findNextHop t x = (if x \<in> graph_links w self \<and> x \<noteq> self then Some x else None))
    \<and> graph_wf w' \<and> (\<forall>i. graph_state w' i = graph_state w i \<and> graph_links w' i = graph_links w i)"
  using computeRoutingTable_view [OF assms]
  by (fastforce simp: table_ok_def graph_ext_def graph_routingTable_def)

text \<open>Three nodes in a line, 7 - 8 - 9, seen from 7.\<close>

definition demo_vertice :: "nat \<Rightarrow> (nat, pointer) umap \<Rightarrow> nat vertice" where
  "demo_vertice i es =
     (Vertice_new i)\<lparr>v_state := Some ((State_new i 0 [])\<lparr>st_neighbors := map fst es\<rparr>), v_edges := es\<rparr>"

definition demo_line :: "nat graph" where
  "demo_line =
     routing.extend (Routing_new (\<lambda>_. True) (\<lambda>_ _. None))
       \<lparr>g_heap = [demo_vertice 7 [(8, 1)], demo_vertice 8 [(7, 0), (9, 2)], demo_vertice 9 [(8, 1)]],
        g_ptr = id, mVertices = [(7, 0), (8, 1), (9, 2)], mRoutingTable = [],
        mEcdh = \<lparr>dh_private = [], dh_public = []\<rparr>, mHelloSequence = 0, mStateSequence = 1,
        entropy = 0\<rparr>"

lemma demo_line_fields:
  "g_heap demo_line = [demo_vertice 7 [(8, 1)], demo_vertice 8 [(7, 0), (9, 2)], demo_vertice 9 [(8, 1)]]"
  "mVertices demo_line = [(7, 0), (8, 1), (9, 2)]"
  by (simp_all add: demo_line_def routing.defs Routing_new_def)

lemma demo_line_wf: "graph_wf demo_line"
  unfolding graph_wf_def demo_line_fields heap_wf_def
  by (simp add: demo_vertice_def Vertice_new_def um_ok_def um_keys_def All_less_Suc)

theorem routing_table_is_one_hop_witness:
  "9 \<in> graph_links demo_line 8 \<and> 8 \<in> graph_links demo_line 7
   \<and> (\<exists>w' t. graph_computeRoutingTable 7 demo_line = (Return (), w') \<and> mTable w' = Some t
       \<and> rt_findNextHop t 8 = Some 8 \<and> rt_findNextHop t 9 = None)"
proof -
  have l: "graph_findVertice 7 demo_line = Some 0" "graph_findVertice 8 demo_line = Some 1"
    by (simp_all add: graph_findVertice_def demo_line_fields)
  have "graph_links demo_line 7 = {8}" "graph_links demo_line 8 = {7, 9}"
    by (simp_all add: graph_links_def l demo_line_fields demo_vertice_def um_keys_def)
  moreover obtain w' t where "graph_computeRoutingTable 7 demo_line = (Return (), w')" "mTable w' = Some t"
    "\<forall>x. rt_findNextHop t x = (if x \<in> graph_links demo_line 7 \<and> x \<noteq> 7 then Some x else None)"
    using routing_table_is_one_hop [OF demo_line_wf l(1)] by blast
  ultimately show ?thesis
    by simp
qed

end
