(* ===== verification/Announcements.thy ===== *)
theory Announcements
  imports Graph
begin

text \<open>
  Correctness of the announcement protocol of \<open>src/impl/graph.cpp\<close>: what accepting a state
  does to the graph, when the local node announces itself, that stale and repeated
  announcements are dropped, and the invariant that ties states, links and the routing table.
\<close>

section \<open>Setting a state\<close>

lemma table_ok_cong:
  "mTable w' = mTable w \<Longrightarrow> mRoutingTable w' = mRoutingTable w \<Longrightarrow>
   graph_links w' self = graph_links w self \<Longrightarrow> table_ok self w' = table_ok self w"
  by (simp add: table_ok_def)

lemma setState_view:
  assumes "graph_wf w" "graph_findVertice i w = Some a" and w': "w' = graph_setState a s w"
  shows "graph_wf w'" "graph_frame w w'" "graph_findVertice j w' = graph_findVertice j w"
    "graph_state w' j = (if j = i then Some s else graph_state w j)"
    "graph_links w' j = graph_links w j" "table_ok self w' = table_ok self w"
proof -
  let ?v = "(g_heap w ! a)\<lparr>v_state := Some s\<rparr>"
  have id: "v_id ?v = i"
    using graph_findVertice_heap [OF assms(1,2)] by simp
  note old = graph_edges_of [OF assms(1,2)]
  show "graph_wf w'"
    using assms(1) old by (simp add: w' graph_setState_def graph_wf_def graph_findVertice_def heap_wf_update)
  show "graph_frame w w'"
    by (simp add: w' graph_setState_def)
  show "graph_findVertice j w' = graph_findVertice j w"
    "graph_state w' j = (if j = i then Some s else graph_state w j)"
    using graph_view_update(1,2) [OF assms(1,2) id] by (simp_all add: w' graph_setState_def)
  show links: "graph_links w' j = graph_links w j" for j
    using graph_view_update(3) [OF assms(1,2) id, of j] old(3) by (simp add: w' graph_setState_def)
  have "mTable w' = mTable w" "mRoutingTable w' = mRoutingTable w"
    by (simp_all add: w' graph_setState_def)
  then show "table_ok self w' = table_ok self w"
    by (rule table_ok_cong) (rule links)
qed

lemma adopt_view:
  assumes "graph_wf w" "table_ok self w" "graph_findVertice self w = Some l"
    "graph_findVertice i w = Some a" "graph_state w i = Some st"
  shows "\<exists>w'. graph_adopt self a w = (Return True, w') \<and> graph_ext w w'
    \<and> (\<forall>j. graph_links w' j = (if j = i then set (st_neighbors st) else graph_links w j)) \<and> table_ok self w'"
proof -
  have at: "v_id (g_heap w ! a) = i" "v_state (g_heap w ! a) = Some st"
    using graph_findVertice_heap [OF assms(1,4)] graph_view_heap(2) [OF assms(1), of a] assms(5)
    by simp_all
  obtain w' where w': "graph_updateEdges self i (st_neighbors st) w =
      (Return (graph_links w i \<noteq> set (st_neighbors st)), w')"
    "graph_ext w w'" "\<forall>j. graph_links w' j = (if j = i then set (st_neighbors st) else graph_links w j)"
    "table_ok self w'"
    using updateEdges_view [OF assms(1-4), of "st_neighbors st"] by blast
  then have "graph_adopt self a w = (Return True, w')"
    by (simp only: graph_adopt_def at option.case bindp_Return)
  with w'(2-4) show ?thesis
    by blast
qed

section \<open>Announcing the local node\<close>

definition local_announcement :: "'p::linorder \<Rightarrow> ('p, 'z) graph_scheme \<Rightarrow> 'p state" where
  "local_announcement self w =
     (State_new self (mStateSequence w) (dh_public (mEcdh w)))\<lparr>st_neighbors := routing_neighbors w\<rparr>"

text \<open>The announcement fits in a message: 65 bytes of key and 33 for each neighbour.\<close>

definition announceable :: "('p::linorder, 'k) env \<Rightarrow> 'p \<Rightarrow> ('p, 'z) graph_scheme \<Rightarrow> bool" where
  "announceable env self w \<longleftrightarrow> length (State_body env (local_announcement self w)) \<le> 65535"

text \<open>What every operation of the graph leaves alone.\<close>

definition node_frame :: "('p, 'z) graph_scheme \<Rightarrow> ('p, 'z) graph_scheme \<Rightarrow> bool" where
  "node_frame w w' \<longleftrightarrow>
     mNeighbors w' = mNeighbors w \<and> mChannels w' = mChannels w \<and> mEcdh w' = mEcdh w
     \<and> mHelloSequence w' = mHelloSequence w \<and> rtc_open w' = rtc_open w
     \<and> rtc_throws w' = rtc_throws w \<and> rtc_handler w' = rtc_handler w \<and> g_ptr w' = g_ptr w
     \<and> graph.more w' = graph.more w"

lemma node_frame_trans: "node_frame u v \<Longrightarrow> node_frame v w \<Longrightarrow> node_frame u w"
  by (simp add: node_frame_def)

lemma node_frame_refl [simp]: "node_frame w w"
  by (simp add: node_frame_def)

lemma graph_frame_node: "graph_frame w w' \<Longrightarrow> node_frame w w'"
  by (simp add: node_frame_def graph_frame_fields)

lemma node_frame_neighbors: "node_frame w w' \<Longrightarrow> routing_neighbors w' = routing_neighbors w"
  by (simp add: node_frame_def routing_neighbors_def)

lemma node_frame_broadcast: "node_frame w (routing_broadcast env m from w)"
  using routing_broadcast_frame [of env m "from" w] by (auto simp: node_frame_def)

lemma broadcast_view [simp]:
  "graph_wf (routing_broadcast env m from w) = graph_wf w"
  "graph_findVertice i (routing_broadcast env m from w) = graph_findVertice i w"
  "graph_state (routing_broadcast env m from w) i = graph_state w i"
  "graph_links (routing_broadcast env m from w) i = graph_links w i"
  "table_ok self (routing_broadcast env m from w) = table_ok self w"
  "mStateSequence (routing_broadcast env m from w) = mStateSequence w"
  "entropy (routing_broadcast env m from w) = entropy w"
proof -
  obtain s e where w': "routing_broadcast env m from w = w\<lparr>rtc_sent := s, rtc_cerr := e\<rparr>"
    using routing_broadcast_frame [of env m "from" w] by blast
  show "graph_wf (routing_broadcast env m from w) = graph_wf w"
    "graph_findVertice i (routing_broadcast env m from w) = graph_findVertice i w"
    "graph_state (routing_broadcast env m from w) i = graph_state w i"
    "graph_links (routing_broadcast env m from w) i = graph_links w i"
    "table_ok self (routing_broadcast env m from w) = table_ok self w"
    "mStateSequence (routing_broadcast env m from w) = mStateSequence w"
    "entropy (routing_broadcast env m from w) = entropy w"
    unfolding w'
    by (simp_all add: graph_wf_def graph_findVertice_def graph_state_def graph_links_def table_ok_def
        cong: option.case_cong)
qed

lemma sequence_view [simp]:
  "graph_wf (w\<lparr>mStateSequence := q, entropy := e\<rparr>) = graph_wf w"
  "graph_findVertice i (w\<lparr>mStateSequence := q, entropy := e\<rparr>) = graph_findVertice i w"
  "graph_state (w\<lparr>mStateSequence := q, entropy := e\<rparr>) i = graph_state w i"
  "graph_links (w\<lparr>mStateSequence := q, entropy := e\<rparr>) i = graph_links w i"
  "table_ok self (w\<lparr>mStateSequence := q, entropy := e\<rparr>) = table_ok self w"
  "node_frame w (w\<lparr>mStateSequence := q, entropy := e\<rparr>)"
  by (simp_all add: graph_wf_def graph_findVertice_def graph_state_def graph_links_def table_ok_def
      node_frame_def cong: option.case_cong)

text \<open>The local node is in the graph, under the key and the number of its last announcement.\<close>

definition local_ok :: "'p \<Rightarrow> ('p, 'z) graph_scheme \<Rightarrow> bool" where
  "local_ok self w \<longleftrightarrow>
     (\<exists>st. graph_state w self = Some st \<and> st_ecdhPublic st = dh_public (mEcdh w)
        \<and> st_sequence st = mStateSequence w - 1)"

lemma local_ok_find: "local_ok self w \<Longrightarrow> \<exists>l. graph_findVertice self w = Some l"
  by (auto simp: local_ok_def graph_state_def bind_eq_Some_conv)

lemma State_toMessage_fits:
  "length (State_body env s) \<le> 65535 \<Longrightarrow> \<exists>m. State_toMessage env seed s pair = Inr m"
  by (simp add: State_toMessage_def make_message_def Message_Create_def message_sign_simp Let_def)

lemma compare_sequence_succ: "compare_sequence q (q - 1) > 0"
  by (simp add: compare_sequence_pos_iff seq_window_def)

lemma routing_neighbors_sequence [simp]:
  "routing_neighbors (w\<lparr>mStateSequence := q\<rparr>) = routing_neighbors w"
  by (simp add: routing_neighbors_def)

lemma broadcastState_eq:
  assumes "self = pair_public pair"
    and "u = w\<lparr>mStateSequence := mStateSequence w + 1, entropy := entropy w + 1\<rparr>"
  shows "graph_broadcastState (Suc stack) env pair w =
    (case State_toMessage env (entropy w) (local_announcement self w) pair of
       Inl e \<Rightarrow> (Throw e, u)
     | Inr m \<Rightarrow>
         bindp (graph_updateVertice stack env pair (local_announcement self w))
           (\<lambda>_ w. (Return (), routing_broadcast env m None w)) u)"
  by (simp add: assms Let_def local_announcement_def State_new_def Ecdh_publicKey_def fold_oset_insert_id
      split: sum.split)

text \<open>A newer state of a known vertex under the key it had: no announcement.\<close>

lemma updateVertice_same_key:
  assumes "um_find (mVertices w) (state_id s) = Some a" "v_state (g_heap w ! a) = Some old"
    "compare_sequence (st_sequence s) (st_sequence old) > 0" "st_ecdhPublic old = st_ecdhPublic s"
  shows "graph_updateVertice (Suc n) env pair s w =
    graph_adopt (pair_public pair) a (graph_setState a s w)"
  using assms by (simp add: bindp_def)

declare graph_updateVertice.simps [simp del] graph_broadcastState.simps [simp del]

text \<open>The local node records a newer state of its own, under its key.\<close>

lemma record_own:
  assumes "graph_wf w" "table_ok self w" "graph_state w self = Some st"
    and own: "state_id s = self" "st_ecdhPublic s = st_ecdhPublic st"
    and newer: "compare_sequence (st_sequence s) (st_sequence st) > 0" and self: "self = pair_public pair"
  shows "\<exists>w'. graph_updateVertice (Suc n) env pair s w = (Return True, w') \<and> graph_wf w' \<and> graph_frame w w'
    \<and> (\<forall>i a. graph_findVertice i w = Some a \<longrightarrow> graph_findVertice i w' = Some a)
    \<and> (\<forall>i. graph_state w' i = (if i = self then Some s else graph_state w i))
    \<and> (\<forall>i. graph_links w' i = (if i = self then set (st_neighbors s) else graph_links w i))
    \<and> table_ok self w'"
proof -
  obtain l where l: "graph_findVertice self w = Some l"
    using assms(3) by (auto simp: graph_state_def bind_eq_Some_conv)
  note set_w = setState_view [OF assms(1) l refl, where s = s]
  obtain w' where w': "graph_adopt self l (graph_setState l s w) = (Return True, w')"
      "graph_ext (graph_setState l s w) w'"
      "\<forall>j. graph_links w' j = (if j = self then set (st_neighbors s) else graph_links (graph_setState l s w) j)"
      "table_ok self w'"
    using adopt_view [of "graph_setState l s w" self l self l s] set_w assms(1,2) l by auto
  have "um_find (mVertices w) (state_id s) = Some l" "v_state (g_heap w ! l) = Some st"
    using graph_view_heap(2) [OF assms(1), of l] graph_findVertice_heap [OF assms(1) l] assms(3) l own(1)
    by (simp_all add: graph_findVertice_def)
  then have "graph_updateVertice (Suc n) env pair s w = (Return True, w')"
    using w'(1) own(2) newer self by (subst updateVertice_same_key) simp_all
  moreover have "graph_frame w w'"
    using set_w(2) w'(2) graph_frame_trans by (auto simp: graph_ext_def)
  ultimately show ?thesis
    using w' set_w by (intro exI [of _ w']) (auto simp: graph_ext_def)
qed

lemma broadcastState_view:
  assumes "graph_wf w" "table_ok self w" "local_ok self w" "announceable env self w"
    and self: "self = pair_public pair" and ann: "ann = local_announcement self w"
  shows "\<exists>w' m. graph_broadcastState (Suc (Suc n)) env pair w = (Return (), routing_broadcast env m None w')
    \<and> State_toMessage env (entropy w) ann pair = Inr m
    \<and> graph_wf w' \<and> graph_frame (w\<lparr>mStateSequence := mStateSequence w + 1, entropy := entropy w + 1\<rparr>) w'
    \<and> (\<forall>i a. graph_findVertice i w = Some a \<longrightarrow> graph_findVertice i w' = Some a)
    \<and> (\<forall>i. graph_state w' i = (if i = self then Some ann else graph_state w i))
    \<and> (\<forall>i. graph_links w' i = (if i = self then set (routing_neighbors w) else graph_links w i))
    \<and> table_ok self w'"
proof -
  let ?u = "w\<lparr>mStateSequence := mStateSequence w + 1, entropy := entropy w + 1\<rparr>"
  obtain st where st: "graph_state w self = Some st" "st_ecdhPublic st = dh_public (mEcdh w)"
    "st_sequence st = mStateSequence w - 1"
    using assms(3) by (auto simp: local_ok_def)
  obtain m where m: "State_toMessage env (entropy w) ann pair = Inr m"
    using State_toMessage_fits [OF assms(4) [unfolded announceable_def, folded ann], of "entropy w" pair]
    by blast
  have annf: "st_sequence ann = mStateSequence w" "st_ecdhPublic ann = dh_public (mEcdh w)"
    "state_id ann = self" "st_neighbors ann = routing_neighbors w"
    by (simp_all add: ann local_announcement_def State_new_def state_id_def)
  have "graph_wf ?u" "table_ok self ?u" "graph_state ?u self = Some st"
    "compare_sequence (st_sequence ann) (st_sequence st) > 0" "st_ecdhPublic ann = st_ecdhPublic st"
    using assms(1,2) st compare_sequence_succ [of "mStateSequence w"] annf by simp_all
  from record_own [OF this(1-3) annf(3) this(5,4) self, of n env]
  obtain w' where w': "graph_updateVertice (Suc n) env pair ann ?u = (Return True, w')" "graph_wf w'"
      "graph_frame ?u w'" "\<forall>i a. graph_findVertice i ?u = Some a \<longrightarrow> graph_findVertice i w' = Some a"
      "\<forall>i. graph_state w' i = (if i = self then Some ann else graph_state ?u i)"
      "\<forall>i. graph_links w' i = (if i = self then set (st_neighbors ann) else graph_links ?u i)" "table_ok self w'"
    by blast
  then have "graph_broadcastState (Suc (Suc n)) env pair w = (Return (), routing_broadcast env m None w')"
    using m broadcastState_eq [OF self refl, of "Suc n" env w] by (simp add: bindp_def ann)
  then show ?thesis
    using m w' annf(4) by (intro exI [of _ w'] exI [of _ m]) simp
qed

section \<open>Accepting a state\<close>

definition newer :: "'p state \<Rightarrow> 'p state option \<Rightarrow> bool" where
  "newer s old = (case old of None \<Rightarrow> True | Some st \<Rightarrow> compare_sequence (st_sequence s) (st_sequence st) > 0)"

definition rekeyed :: "'p state \<Rightarrow> 'p state option \<Rightarrow> bool" where
  "rekeyed s old = (case old of None \<Rightarrow> True | Some st \<Rightarrow> st_ecdhPublic st \<noteq> st_ecdhPublic s)"

text \<open>
  The invariant between operations: the graph is well formed, the routing table is up to date,
  the links of each node are those of its state, and the local node is in the graph and can
  announce itself.
\<close>

definition graph_ready :: "('p::linorder, 'k) env \<Rightarrow> 'p \<Rightarrow> ('p, 'z) graph_scheme \<Rightarrow> bool" where
  "graph_ready env self w \<longleftrightarrow>
     graph_wf w \<and> table_ok self w \<and> local_ok self w \<and> announceable env self w
     \<and> (\<forall>i. graph_links w i = (case graph_state w i of None \<Rightarrow> {} | Some st \<Rightarrow> set (st_neighbors st)))"

text \<open>
  What is left of it while the local node is between a change of its links and the announcement
  of the change.
\<close>

definition graph_sound :: "('p::linorder, 'k) env \<Rightarrow> 'p \<Rightarrow> ('p, 'z) graph_scheme \<Rightarrow> bool" where
  "graph_sound env self w \<longleftrightarrow> graph_wf w \<and> table_ok self w \<and> local_ok self w \<and> announceable env self w"

lemma graph_ready_sound:
  "graph_ready env self w \<longleftrightarrow> graph_sound env self w
     \<and> (\<forall>i. graph_links w i = (case graph_state w i of None \<Rightarrow> {} | Some st \<Rightarrow> set (st_neighbors st)))"
  by (simp add: graph_ready_def graph_sound_def conj_assoc)

lemma announceable_frame:
  "node_frame w w' \<Longrightarrow> announceable env self w' = announceable env self w"
  by (simp add: announceable_def State_body_layout local_announcement_def State_new_def
      node_frame_neighbors) (simp add: node_frame_def)

lemma local_ok_cong:
  "graph_state w' self = graph_state w self \<Longrightarrow> mEcdh w' = mEcdh w \<Longrightarrow>
   mStateSequence w' = mStateSequence w \<Longrightarrow> local_ok self w' = local_ok self w"
  by (simp add: local_ok_def)

text \<open>
  The first part of an update that makes the local node announce itself, in terms of what
  later steps need.
\<close>

definition announced ::
    "('p::linorder, 'k) env \<Rightarrow> ('p, 'k) EcdsaPair \<Rightarrow> ('p, 'z) graph_scheme \<Rightarrow> ('p, 'z) graph_scheme \<Rightarrow> bool" where
  "announced env pair w w' \<longleftrightarrow>
     (\<exists>m v. State_toMessage env (entropy w) (local_announcement (pair_public pair) w) pair = Inr m
        \<and> graph_frame (w\<lparr>mStateSequence := mStateSequence w + 1, entropy := entropy w + 1\<rparr>) v
        \<and> w' = routing_broadcast env m None v)"

lemma announced_fields:
  assumes "announced env pair w w'"
  shows "node_frame w w'" "mStateSequence w' = mStateSequence w + 1" "entropy w' = entropy w + 1"
proof -
  obtain m v where v: "graph_frame (w\<lparr>mStateSequence := mStateSequence w + 1, entropy := entropy w + 1\<rparr>) v"
    and w': "w' = routing_broadcast env m None v"
    using assms by (auto simp: announced_def)
  have "node_frame w v"
    using node_frame_trans [OF sequence_view(6) graph_frame_node [OF v]] .
  then show "node_frame w w'"
    unfolding w' using node_frame_broadcast node_frame_trans by blast
  show "mStateSequence w' = mStateSequence w + 1" "entropy w' = entropy w + 1"
    unfolding w' using graph_frame_fields [OF v] by simp_all
qed

lemma broadcastState_announced:
  assumes "graph_wf w" "table_ok self w" "local_ok self w" "announceable env self w"
    and self: "self = pair_public pair"
  shows "\<exists>w'. graph_broadcastState (Suc (Suc n)) env pair w = (Return (), w') \<and> announced env pair w w'
    \<and> graph_wf w' \<and> table_ok self w'
    \<and> (\<forall>i a. graph_findVertice i w = Some a \<longrightarrow> graph_findVertice i w' = Some a)
    \<and> (\<forall>i. graph_state w' i = (if i = self then Some (local_announcement self w) else graph_state w i))
    \<and> (\<forall>i. graph_links w' i = (if i = self then set (routing_neighbors w) else graph_links w i))"
proof -
  obtain v m where "graph_broadcastState (Suc (Suc n)) env pair w = (Return (), routing_broadcast env m None v)"
    "State_toMessage env (entropy w) (local_announcement self w) pair = Inr m"
    "graph_wf v" "graph_frame (w\<lparr>mStateSequence := mStateSequence w + 1, entropy := entropy w + 1\<rparr>) v"
    "\<forall>i a. graph_findVertice i w = Some a \<longrightarrow> graph_findVertice i v = Some a"
    "\<forall>i. graph_state v i = (if i = self then Some (local_announcement self w) else graph_state w i)"
    "\<forall>i. graph_links v i = (if i = self then set (routing_neighbors w) else graph_links w i)"
    "table_ok self v"
    using broadcastState_view [OF assms refl] by blast
  then show ?thesis
    by (intro exI [of _ "routing_broadcast env m None v"]) (auto simp: announced_def self)
qed

text \<open>
  The middle of \<open>updateVertice\<close>: what holds after the optional announcement of the local node
  made while the state \<open>s\<close> of another node is being taken over.
\<close>

definition announce_if ::
    "bool \<Rightarrow> nat \<Rightarrow> ('p::linorder, 'k) env \<Rightarrow> ('p, 'k) EcdsaPair \<Rightarrow> (('p, 'z) graph_scheme, unit) prog" where
  "announce_if b stack env pair w = (if b then graph_broadcastState stack env pair w else (Return (), w))"

lemma announce_if_view:
  assumes "graph_wf w" "table_ok self w" "local_ok self w" "announceable env self w"
    and self: "self = pair_public pair"
  shows "\<exists>w'. announce_if b (Suc (Suc n)) env pair w = (Return (), w')
    \<and> (if b then announced env pair w w' else w' = w)
    \<and> graph_wf w' \<and> table_ok self w'
    \<and> (\<forall>i a. graph_findVertice i w = Some a \<longrightarrow> graph_findVertice i w' = Some a)
    \<and> (\<forall>i. graph_state w' i = (if b \<and> i = self then Some (local_announcement self w) else graph_state w i))
    \<and> (\<forall>i. graph_links w' i = (if b \<and> i = self then set (routing_neighbors w) else graph_links w i))"
  using broadcastState_announced [OF assms, of n] assms(1,2)
  by (cases b) (auto simp: announce_if_def)

text \<open>Setting the state and adopting its links.\<close>

lemma take_over:
  assumes "graph_wf w" "table_ok self w" "graph_findVertice self w = Some l" "graph_findVertice i w = Some a"
  shows "\<exists>w'. graph_adopt self a (graph_setState a s w) = (Return True, w') \<and> graph_frame w w' \<and> graph_wf w'
    \<and> table_ok self w' \<and> (\<forall>j. graph_state w' j = (if j = i then Some s else graph_state w j))
    \<and> (\<forall>j. graph_links w' j = (if j = i then set (st_neighbors s) else graph_links w j))"
proof -
  let ?u = "graph_setState a s w"
  note u = setState_view [OF assms(1,4) refl, where s = s]
  obtain w' where "graph_adopt self a ?u = (Return True, w')" "graph_ext ?u w'"
    "\<forall>j. graph_links w' j = (if j = i then set (st_neighbors s) else graph_links ?u j)" "table_ok self w'"
    using adopt_view [of ?u self l i a s] u assms by auto
  then show ?thesis
    using u graph_frame_trans [OF u(2)] by (auto simp: graph_ext_def)
qed

lemma announce_then_take_over:
  assumes "graph_wf u" "table_ok self u" "local_ok self u" "announceable env self u"
    "self = pair_public pair" "graph_findVertice i u = Some a"
  shows "\<exists>v w'. announce_if b (Suc (Suc n)) env pair u = (Return (), v)
    \<and> (if b then announced env pair u v else v = u)
    \<and> graph_adopt self a (graph_setState a s v) = (Return True, w')
    \<and> graph_frame v w' \<and> graph_wf w' \<and> table_ok self w'
    \<and> (\<forall>j. graph_state w' j =
         (if j = i then Some s
          else if b \<and> j = self then Some (local_announcement self u) else graph_state u j))
    \<and> (\<forall>j. graph_links w' j =
         (if j = i then set (st_neighbors s)
          else if b \<and> j = self then set (routing_neighbors u) else graph_links u j))"
proof -
  obtain v where v: "announce_if b (Suc (Suc n)) env pair u = (Return (), v)"
      "if b then announced env pair u v else v = u" "graph_wf v" "table_ok self v"
      "\<forall>i a. graph_findVertice i u = Some a \<longrightarrow> graph_findVertice i v = Some a"
      "\<forall>i. graph_state v i = (if b \<and> i = self then Some (local_announcement self u) else graph_state u i)"
      "\<forall>i. graph_links v i = (if b \<and> i = self then set (routing_neighbors u) else graph_links u i)"
    using announce_if_view [OF assms(1-5)] by blast
  obtain l where "graph_findVertice self u = Some l"
    using local_ok_find [OF assms(3)] by blast
  then have "graph_findVertice self v = Some l" "graph_findVertice i v = Some a"
    using v(5) assms(6) by blast+
  then obtain w' where "graph_adopt self a (graph_setState a s v) = (Return True, w')"
    "graph_frame v w'" "graph_wf w'" "table_ok self w'"
    "\<forall>j. graph_state w' j = (if j = i then Some s else graph_state v j)"
    "\<forall>j. graph_links w' j = (if j = i then set (st_neighbors s) else graph_links v j)"
    using take_over [OF v(3,4)] by blast
  then show ?thesis
    using v by (intro exI [of _ v] exI [of _ w']) simp
qed

lemma setState_same:
  assumes "a < length (g_heap w)" "v_state (g_heap w ! a) = Some s"
  shows "graph_setState a s w = w"
proof -
  have "(g_heap w ! a)\<lparr>v_state := Some s\<rparr> = g_heap w ! a"
    using assms(2) by simp
  then show ?thesis
    by (simp add: graph_setState_def)
qed

text \<open>A state that is accepted: the vertex it is for exists or is created, then the code above runs.\<close>

lemma updateVertice_known:
  assumes "graph_findVertice (state_id s) w = Some a" "newer s (v_state (g_heap w ! a))"
  shows "graph_updateVertice (Suc stack) env pair s w =
    bindp (announce_if (rekeyed s (v_state (g_heap w ! a))) stack env pair)
      (\<lambda>_ w. graph_adopt (pair_public pair) a (graph_setState a s w)) w"
  using assms
  by (auto simp: graph_updateVertice.simps graph_findVertice_def newer_def rekeyed_def announce_if_def
      bindp_def split: option.splits)

lemma updateVertice_unknown:
  assumes "graph_findVertice (state_id s) w = None"
  shows "graph_updateVertice (Suc stack) env pair s w =
    bindp (announce_if True stack env pair)
      (\<lambda>_ w'. graph_adopt (pair_public pair) (length (g_heap w)) w') (graph_newVertice s w)"
  using assms
  by (simp add: graph_updateVertice.simps graph_findVertice_def announce_if_def bindp_def)

lemma updateVertice_stale:
  assumes "graph_findVertice (state_id s) w = Some a" "\<not> newer s (v_state (g_heap w ! a))"
  shows "graph_updateVertice (Suc stack) env pair s w = (Return False, w)"
  using assms by (auto simp: graph_updateVertice.simps graph_findVertice_def newer_def split: option.splits)

lemma newVertice_view:
  assumes "graph_wf w" "graph_findVertice (state_id s) w = None" and u: "u = graph_newVertice s w"
  shows "graph_wf u" "graph_frame w u" "graph_findVertice (state_id s) u = Some (length (g_heap w))"
    "graph_state u j = (if j = state_id s then Some s else graph_state w j)"
    "graph_links u j = graph_links w j" "table_ok self u = table_ok self w"
    "v_state (g_heap u ! length (g_heap w)) = Some s"
proof -
  have 1: "v_id ((Vertice_new (state_id s))\<lparr>v_state := Some s\<rparr>) = state_id s"
    "v_edges ((Vertice_new (state_id s))\<lparr>v_state := Some s\<rparr>) = []"
    by (simp_all add: Vertice_new_def)
  note new = graph_view_new [OF assms(1,2) 1 u [unfolded graph_newVertice_def]]
  show "graph_wf u" "graph_findVertice (state_id s) u = Some (length (g_heap w))"
    "graph_state u j = (if j = state_id s then Some s else graph_state w j)"
    using new by simp_all
  show links: "graph_links u j = graph_links w j" for j
    using new by simp
  show "graph_frame w u" "v_state (g_heap u ! length (g_heap w)) = Some s"
    by (simp_all add: u graph_newVertice_def nth_append)
  have "mTable u = mTable w" "mRoutingTable u = mRoutingTable w"
    by (simp_all add: u graph_newVertice_def)
  then show "table_ok self u = table_ok self w"
    by (rule table_ok_cong) (rule links)
qed

text \<open>What an announcement puts on the channels depends on the channels only.\<close>

lemma rtc_sent_broadcast:
  "message_binary env m = Inr data \<Longrightarrow>
   rtc_sent (routing_broadcast env m from w) = rtc_sent w @
     map (\<lambda>c. (c, data)) (filter (\<lambda>c. rtc_throws w c data = None)
       (filter (\<lambda>c. Some c \<noteq> from \<and> rtc_open w c) (mChannels w)))"
  "message_binary env m = Inl e \<Longrightarrow> rtc_sent (routing_broadcast env m from w) = rtc_sent w"
  by (simp_all add: routing_broadcast_def broadcast_fold_Inr broadcast_fold_Inl)

lemma rtc_sent_broadcast_cong:
  assumes "mChannels v = mChannels w" "rtc_open v = rtc_open w" "rtc_throws v = rtc_throws w"
    "rtc_sent v = rtc_sent w"
  shows "rtc_sent (routing_broadcast env m from v) = rtc_sent (routing_broadcast env m from w)"
  by (cases "message_binary env m") (simp_all add: rtc_sent_broadcast assms)

lemma local_announcement_frame:
  "graph_frame w u \<Longrightarrow> local_announcement self u = local_announcement self w"
  by (simp add: local_announcement_def graph_frame_fields routing_neighbors_def)

lemma announced_sent:
  assumes "announced env pair u v" "graph_frame w u"
  shows "\<exists>m. State_toMessage env (entropy w) (local_announcement (pair_public pair) w) pair = Inr m
    \<and> rtc_sent v = rtc_sent (routing_broadcast env m None w)"
proof -
  obtain m x where m: "State_toMessage env (entropy u) (local_announcement (pair_public pair) u) pair = Inr m"
    and x: "graph_frame (u\<lparr>mStateSequence := mStateSequence u + 1, entropy := entropy u + 1\<rparr>) x"
    and v: "v = routing_broadcast env m None x"
    using assms(1) by (auto simp: announced_def)
  have "rtc_sent v = rtc_sent (routing_broadcast env m None w)"
    unfolding v by (rule rtc_sent_broadcast_cong)
      (simp_all add: graph_frame_fields [OF x] graph_frame_fields [OF assms(2)])
  then show ?thesis
    using m local_announcement_frame [OF assms(2)] by (simp add: graph_frame_fields [OF assms(2)])
qed

text \<open>What accepting the state \<open>s\<close> of another node does.\<close>

definition accepted_effect ::
    "('p::linorder, 'k) env \<Rightarrow> ('p, 'k) EcdsaPair \<Rightarrow> 'p state
     \<Rightarrow> ('p, 'z) graph_scheme \<Rightarrow> ('p, 'z) graph_scheme \<Rightarrow> bool" where
  "accepted_effect env pair s w w' \<longleftrightarrow>
     (let self = pair_public pair; ann = local_announcement self w;
          announces = rekeyed s (graph_state w (state_id s))
      in node_frame w w'
         \<and> mStateSequence w' = (if announces then mStateSequence w + 1 else mStateSequence w)
         \<and> (\<forall>j. graph_state w' j =
              (if j = state_id s then Some s else if announces \<and> j = self then Some ann else graph_state w j))
         \<and> (\<forall>j. graph_links w' j =
              (if j = state_id s then set (st_neighbors s)
               else if announces \<and> j = self then set (st_neighbors ann) else graph_links w j))
         \<and> (if announces
            then \<exists>m. State_toMessage env (entropy w) ann pair = Inr m
                 \<and> rtc_sent w' = rtc_sent (routing_broadcast env m None w)
            else rtc_sent w' = rtc_sent w))"

lemma accepted_sound:
  assumes "graph_sound env self w" "accepted_effect env pair s w w'" "graph_wf w'" "table_ok self w'"
    "self = pair_public pair" "state_id s \<noteq> self"
  shows "graph_sound env self w'"
proof -
  have frame: "node_frame w w'"
    using assms(2) by (simp add: accepted_effect_def Let_def)
  then have "local_ok self w'"
    using assms(1,2,5,6)
    by (auto simp: accepted_effect_def Let_def local_ok_def graph_sound_def node_frame_def
        local_announcement_def State_new_def)
  then show ?thesis
    using assms(1,3,4) announceable_frame [OF frame, of env self] by (simp add: graph_sound_def)
qed

lemma wf_view:
  assumes "graph_wf w" "graph_findVertice i w = Some a"
  shows "v_state (g_heap w ! a) = graph_state w i"
  using graph_view_heap(2) [of w a] graph_findVertice_heap [of w i a] assms by simp

lemma accepted_insert:
  assumes sound: "graph_sound env self w" and self: "self = pair_public pair"
    and newer: "newer s (graph_state w (state_id s))"
  shows "\<exists>w'. graph_updateVertice (Suc (Suc (Suc n))) env pair s w = (Return True, w')
    \<and> accepted_effect env pair s w w' \<and> graph_wf w' \<and> table_ok self w'"
proof -
  let ?b = "rekeyed s (graph_state w (state_id s))"
  have w: "graph_wf w" "table_ok self w" "local_ok self w" "announceable env self w"
    using sound by (simp_all add: graph_sound_def)
  have "\<exists>u v w'. graph_frame w u
      \<and> (\<forall>j. j \<noteq> state_id s \<longrightarrow> graph_state u j = graph_state w j) \<and> (\<forall>j. graph_links u j = graph_links w j)
      \<and> (if ?b then announced env pair u v else v = u) \<and> graph_frame v w' \<and> graph_wf w' \<and> table_ok self w'
      \<and> (\<forall>j. graph_state w' j =
           (if j = state_id s then Some s
            else if ?b \<and> j = self then Some (local_announcement self u) else graph_state u j))
      \<and> (\<forall>j. graph_links w' j =
           (if j = state_id s then set (st_neighbors s)
            else if ?b \<and> j = self then set (routing_neighbors u) else graph_links u j))
      \<and> graph_updateVertice (Suc (Suc (Suc n))) env pair s w = (Return True, w')"
  proof (cases "graph_findVertice (state_id s) w")
    case (Some a)
    have "graph_updateVertice (Suc (Suc (Suc n))) env pair s w =
        bindp (announce_if ?b (Suc (Suc n)) env pair)
          (\<lambda>_ w. graph_adopt (pair_public pair) a (graph_setState a s w)) w"
      using updateVertice_known [OF Some] newer wf_view [OF w(1) Some] by simp
    moreover obtain v w' where v: "announce_if ?b (Suc (Suc n)) env pair w = (Return (), v)"
        "if ?b then announced env pair w v else v = w"
        "graph_adopt self a (graph_setState a s v) = (Return True, w')"
        "graph_frame v w'" "graph_wf w'" "table_ok self w'"
        "\<forall>j. graph_state w' j = (if j = state_id s then Some s
            else if ?b \<and> j = self then Some (local_announcement self w) else graph_state w j)"
        "\<forall>j. graph_links w' j = (if j = state_id s then set (st_neighbors s)
            else if ?b \<and> j = self then set (routing_neighbors w) else graph_links w j)"
      using announce_then_take_over [OF w self Some, where b = ?b and n = n and s = s] by blast
    ultimately have "graph_updateVertice (Suc (Suc (Suc n))) env pair s w = (Return True, w')"
      by (simp add: bindp_def self)
    then show ?thesis
      using v by (intro exI [of _ w] exI [of _ v] exI [of _ w']) simp
  next
    case None
    let ?u = "graph_newVertice s w"
    note u = newVertice_view [OF w(1) None refl]
    have b: "?b"
      using graph_absent [OF None] by (simp add: rekeyed_def)
    have other: "state_id s \<noteq> self"
      using local_ok_find [OF w(3)] None by auto
    have tk: "table_ok self ?u" and lo: "local_ok self ?u" and an: "announceable env self ?u"
      using w(2,3,4) u(6) local_ok_cong [of ?u self w] announceable_frame [OF graph_frame_node [OF u(2)], of env self]
        u(4) [of self] other graph_frame_fields [OF u(2)] by simp_all
    then obtain v w' where v: "announce_if True (Suc (Suc n)) env pair ?u = (Return (), v)"
        "announced env pair ?u v"
        "graph_adopt self (length (g_heap w)) (graph_setState (length (g_heap w)) s v) = (Return True, w')"
        "graph_frame v w'" "graph_wf w'" "table_ok self w'"
        "\<forall>j. graph_state w' j = (if j = state_id s then Some s
            else if j = self then Some (local_announcement self ?u) else graph_state ?u j)"
        "\<forall>j. graph_links w' j = (if j = state_id s then set (st_neighbors s)
            else if j = self then set (routing_neighbors ?u) else graph_links ?u j)"
      using announce_then_take_over [OF u(1) tk lo an self u(3), where b = True and n = n and s = s]
      unfolding if_True simp_thms by blast
    obtain x where x: "announce_if True (Suc (Suc n)) env pair ?u = (Return (), x)" "graph_wf x"
        "graph_findVertice (state_id s) x = Some (length (g_heap w))" "graph_state x (state_id s) = Some s"
      using announce_if_view [OF u(1) tk lo an self, where b = True and n = n]
        u(3,4) other by auto
    then have "v_state (g_heap x ! length (g_heap w)) = Some s"
      using graph_view_heap(2) [OF x(2), of "length (g_heap w)"] graph_findVertice_heap [OF x(2,3)] by simp
    then have "graph_setState (length (g_heap w)) s v = v"
      using v(1) x(1) setState_same [OF graph_findVertice_heap(1) [OF x(2,3)]] by simp
    then have "graph_updateVertice (Suc (Suc (Suc n))) env pair s w = (Return True, w')"
      using updateVertice_unknown [OF None, of "Suc (Suc n)" env pair] v(1,3) self by (simp add: bindp_def)
    then show ?thesis
      using u v b by (intro exI [of _ ?u] exI [of _ v] exI [of _ w']) simp
  qed
  then obtain u v w' where u: "graph_frame w u"
      "\<forall>j. j \<noteq> state_id s \<longrightarrow> graph_state u j = graph_state w j" "\<forall>j. graph_links u j = graph_links w j"
      "if ?b then announced env pair u v else v = u" "graph_frame v w'" "graph_wf w'" "table_ok self w'"
      "\<forall>j. graph_state w' j = (if j = state_id s then Some s
            else if ?b \<and> j = self then Some (local_announcement self u) else graph_state u j)"
      "\<forall>j. graph_links w' j = (if j = state_id s then set (st_neighbors s)
            else if ?b \<and> j = self then set (routing_neighbors u) else graph_links u j)"
      "graph_updateVertice (Suc (Suc (Suc n))) env pair s w = (Return True, w')"
    by blast
  have ann: "local_announcement self u = local_announcement self w"
    "routing_neighbors u = st_neighbors (local_announcement self w)"
    using local_announcement_frame [OF u(1)] node_frame_neighbors [OF graph_frame_node [OF u(1)]]
    by (simp_all add: local_announcement_def)
  have traffic: "rtc_sent w' = rtc_sent v" "mStateSequence w' = mStateSequence v"
    using graph_frame_fields [OF u(5)] by simp_all
  have "node_frame w w'"
    using u(1,4,5) announced_fields(1) graph_frame_node node_frame_trans by (metis (full_types))
  moreover have "mStateSequence v = (if ?b then mStateSequence w + 1 else mStateSequence w)"
    using u(4) announced_fields(2) [of env pair u v] graph_frame_fields(4) [OF u(1)] by auto
  moreover have "if ?b then \<exists>m. State_toMessage env (entropy w) (local_announcement (pair_public pair) w) pair = Inr m
      \<and> rtc_sent v = rtc_sent (routing_broadcast env m None w) else rtc_sent v = rtc_sent w"
    using u(4) announced_sent [of env pair u v w] u(1) graph_frame_fields(7) [OF u(1)] by auto
  ultimately have "accepted_effect env pair s w w'"
    using u(2,3,8,9) ann traffic by (simp add: accepted_effect_def Let_def self)
  then show ?thesis
    using u(6,7,10) by blast
qed

lemma insert_accepted_sound:
  assumes "graph_sound env self w" "self = pair_public pair" "state_id s \<noteq> self"
    and "newer s (graph_state w (state_id s))"
  shows "\<exists>w'. graph_updateVertice (Suc (Suc (Suc n))) env pair s w = (Return True, w')
    \<and> graph_sound env self w' \<and> accepted_effect env pair s w w'"
  using accepted_insert [OF assms(1,2,4), of n] accepted_sound [OF assms(1) _ _ _ assms(2,3)] by blast

lemma insert_accepted:
  assumes "graph_ready env self w" "self = pair_public pair" "state_id s \<noteq> self"
    "newer s (graph_state w (state_id s))"
  shows "\<exists>w'. graph_updateVertice (Suc (Suc (Suc n))) env pair s w = (Return True, w')
    \<and> graph_ready env self w' \<and> accepted_effect env pair s w w'"
proof -
  obtain w' where w': "graph_updateVertice (Suc (Suc (Suc n))) env pair s w = (Return True, w')"
    "graph_sound env self w'" "accepted_effect env pair s w w'"
    using insert_accepted_sound [of env self w pair s n] assms by (auto simp: graph_ready_sound)
  moreover have "graph_links w' i = (case graph_state w' i of None \<Rightarrow> {} | Some st \<Rightarrow> set (st_neighbors st))" for i
    using assms(1,2) w'(3) by (simp add: accepted_effect_def Let_def graph_ready_sound)
  ultimately show ?thesis
    by (simp add: graph_ready_sound)
qed

lemma insert_rejected:
  assumes "graph_wf w" "graph_findVertice (state_id s) w \<noteq> None"
    "\<not> newer s (graph_state w (state_id s))"
  shows "graph_updateVertice (Suc stack) env pair s w = (Return False, w)"
  using assms updateVertice_stale wf_view [OF assms(1)] by fastforce

section \<open>The properties of insertion\<close>

text \<open>A copy of one of our own announcements that comes back is never newer than the last one.\<close>

definition own_echo :: "'p \<Rightarrow> 'p state \<Rightarrow> ('p, 'z) graph_scheme \<Rightarrow> bool" where
  "own_echo self s w \<longleftrightarrow> state_id s = self \<and> \<not> newer s (graph_state w self)"

lemma insert_state_cases:
  assumes "graph_ready env (pair_public pair) w"
    and "state_id s \<noteq> pair_public pair \<or> own_echo (pair_public pair) s w"
  shows "if newer s (graph_state w (state_id s))
    then \<exists>w'. graph_insert (Suc (Suc (Suc n))) env pair s w = (Return True, w')
           \<and> graph_ready env (pair_public pair) w' \<and> accepted_effect env pair s w w'
    else graph_insert (Suc (Suc (Suc n))) env pair s w = (Return False, w)"
proof (cases "newer s (graph_state w (state_id s))")
  case True
  then have "state_id s \<noteq> pair_public pair"
    using assms(2) by (auto simp: own_echo_def)
  with True show ?thesis
    using insert_accepted [OF assms(1) refl, of s n] by (simp add: graph_insert_def)
next
  case False
  then have "graph_findVertice (state_id s) w \<noteq> None"
    using graph_absent by (fastforce simp: newer_def)
  with False show ?thesis
    using insert_rejected [of w s] assms(1) by (simp add: graph_insert_def graph_ready_def)
qed

text \<open>C9: in a node whose neighbour list fits in a message, a state, of another node or of its own,
  is accepted exactly when its node is unknown or its sequence number is newer than the one
  stored. A rejected state changes nothing at all. An accepted one becomes the node's state and
  its neighbours the node's links, no other node changes except the local one, and the local node
  announces itself to every open channel, with the next sequence number, exactly when the node
  was unknown or changed its ECDH key. Three stack frames are enough: the mutual recursion of
  \<open>updateVertice\<close> and \<open>broadcastState\<close> ends and nothing is thrown. The graph stays well formed,
  its routing table up to date and the links of every node those of its state; the whole invariant,
  with the local node under its current key and number, is kept when the state is another
  node's, and a newer state under the local identifier replaces the local entry as any other.\<close>

theorem insert_state:
  assumes "graph_ready env (pair_public pair) w" and "3 \<le> stack"
  shows "if newer s (graph_state w (state_id s))
    then \<exists>w'. graph_insert stack env pair s w = (Return True, w') \<and> accepted_effect env pair s w w'
           \<and> graph_wf w' \<and> table_ok (pair_public pair) w'
           \<and> (\<forall>i. graph_links w' i = (case graph_state w' i of None \<Rightarrow> {} | Some st \<Rightarrow> set (st_neighbors st)))
           \<and> (state_id s = pair_public pair \<or> graph_ready env (pair_public pair) w')
    else graph_insert stack env pair s w = (Return False, w)"
proof (cases "newer s (graph_state w (state_id s))")
  case True
  obtain n where n: "stack = Suc (Suc (Suc n))"
    using assms(2) by (metis Suc_le_D numeral_3_eq_3 Suc_le_mono)
  have sound: "graph_sound env (pair_public pair) w"
    using assms(1) by (simp add: graph_ready_sound)
  obtain w' where w': "graph_insert stack env pair s w = (Return True, w')" "accepted_effect env pair s w w'"
      "graph_wf w'" "table_ok (pair_public pair) w'"
    using accepted_insert [OF sound refl True, of n] by (auto simp: graph_insert_def n)
  moreover have links: "graph_links w' i = (case graph_state w' i of None \<Rightarrow> {} | Some st \<Rightarrow> set (st_neighbors st))" for i
    using assms(1) w'(2) by (simp add: accepted_effect_def Let_def graph_ready_sound)
  moreover have "state_id s = pair_public pair \<or> graph_ready env (pair_public pair) w'"
    using accepted_sound [OF sound w'(2-4) refl] links by (auto simp: graph_ready_sound)
  ultimately show ?thesis
    using True by auto
next
  case False
  then have "state_id s \<noteq> pair_public pair \<or> own_echo (pair_public pair) s w"
    by (auto simp: own_echo_def)
  moreover obtain n where "stack = Suc (Suc (Suc n))"
    using assms(2) by (metis Suc_le_D numeral_3_eq_3 Suc_le_mono)
  ultimately show ?thesis
    using insert_state_cases [OF assms(1), of s n] False by simp
qed

section \<open>The graph as a freshness filter\<close>

definition last_announced :: "('p, 'z) graph_scheme \<Rightarrow> 'p \<Rightarrow> 32 word option" where
  "last_announced w i = map_option st_sequence (graph_state w i)"

text \<open>Inserting a state with the given number; its key and neighbours are any functions of it.\<close>

definition announce_arrives ::
    "nat \<Rightarrow> ('p::linorder, 'k) env \<Rightarrow> ('p, 'k) EcdsaPair \<Rightarrow> ('p \<Rightarrow> 32 word \<Rightarrow> binary)
     \<Rightarrow> ('p \<Rightarrow> 32 word \<Rightarrow> 'p list) \<Rightarrow> 'p \<Rightarrow> 32 word
     \<Rightarrow> ('p, 'z) graph_scheme \<Rightarrow> bool \<times> ('p, 'z) graph_scheme" where
  "announce_arrives stack env pair key links i q w =
     (let (out, w') = graph_insert stack env pair ((State_new i q (key i q))\<lparr>st_neighbors := links i q\<rparr>) w
      in (out = Return True, w'))"

lemma announce_arrives_cases:
  assumes "graph_ready env (pair_public pair) w" "i \<noteq> pair_public pair"
  shows "graph_ready env (pair_public pair) (snd (announce_arrives (Suc (Suc (Suc n))) env pair key links i q w))"
    "fst (announce_arrives (Suc (Suc (Suc n))) env pair key links i q w) \<longleftrightarrow>
       (case last_announced w i of None \<Rightarrow> True | Some l \<Rightarrow> compare_sequence q l > 0)"
    "j \<noteq> pair_public pair \<Longrightarrow>
     last_announced (snd (announce_arrives (Suc (Suc (Suc n))) env pair key links i q w)) j =
       (if j = i \<and> fst (announce_arrives (Suc (Suc (Suc n))) env pair key links i q w)
        then Some q else last_announced w j)"
proof -
  let ?s = "(State_new i q (key i q))\<lparr>st_neighbors := links i q\<rparr>"
  have s: "state_id ?s = i" "st_sequence ?s = q"
    by (simp_all add: State_new_def state_id_def)
  have newer: "newer ?s (graph_state w i) \<longleftrightarrow>
      (case last_announced w i of None \<Rightarrow> True | Some l \<Rightarrow> compare_sequence q l > 0)"
    by (simp add: newer_def last_announced_def s split: option.split)
  have "graph_ready env (pair_public pair) (snd (announce_arrives (Suc (Suc (Suc n))) env pair key links i q w))
    \<and> (fst (announce_arrives (Suc (Suc (Suc n))) env pair key links i q w) \<longleftrightarrow> newer ?s (graph_state w i))
    \<and> (j \<noteq> pair_public pair \<longrightarrow>
       last_announced (snd (announce_arrives (Suc (Suc (Suc n))) env pair key links i q w)) j =
       (if j = i \<and> newer ?s (graph_state w i) then Some q else last_announced w j))"
    using insert_state_cases [OF assms(1), of ?s n] assms
    by (cases "newer ?s (graph_state w i)")
      (auto simp: announce_arrives_def s accepted_effect_def Let_def last_announced_def)
  then show "graph_ready env (pair_public pair) (snd (announce_arrives (Suc (Suc (Suc n))) env pair key links i q w))"
    "fst (announce_arrives (Suc (Suc (Suc n))) env pair key links i q w) \<longleftrightarrow>
       (case last_announced w i of None \<Rightarrow> True | Some l \<Rightarrow> compare_sequence q l > 0)"
    "j \<noteq> pair_public pair \<Longrightarrow>
     last_announced (snd (announce_arrives (Suc (Suc (Suc n))) env pair key links i q w)) j =
       (if j = i \<and> fst (announce_arrives (Suc (Suc (Suc n))) env pair key links i q w)
        then Some q else last_announced w j)"
    by (simp_all add: newer)
qed

interpretation graph_filter: freshness last_announced
    "announce_arrives (Suc (Suc (Suc n))) env pair key links" "graph_ready env (pair_public pair)"
    "- {pair_public pair}"
  for n env pair key links
  by unfold_locales (simp_all add: announce_arrives_cases)

text \<open>C17: when the announcements of one node reach the graph in any order and any number of
  times, their sequence numbers counted from any starting point (wrapping around) and less
  than 2147483647 apart, the graph takes over exactly those that are newer than all taken over
  before.\<close>

theorem graph_takes_newest:
  assumes "graph_ready env (pair_public pair) w" "i \<noteq> pair_public pair" "graph_state w i = None"
    "\<forall>n \<in> set ns. n < seq_window"
  shows "accepted_list (announce_arrives (Suc (Suc (Suc k))) env pair key links) i w
      (map (\<lambda>n. base + of_nat n) ns) = map (\<lambda>n. base + of_nat n) (newest None ns)"
  by (rule graph_filter.accepted_newest) (use assms in \<open>simp_all add: last_announced_def\<close>)

section \<open>The graph of a new node\<close>

definition Graph_fields ::
    "(pointer \<Rightarrow> nat) \<Rightarrow> Ecdh \<Rightarrow> nat \<Rightarrow> 'p routing \<Rightarrow> 'p graph" where
  "Graph_fields ptr ecdh e r =
     routing.extend r
       \<lparr>g_heap = [], g_ptr = ptr, mVertices = [], mRoutingTable = RoutingTable_new, mEcdh = ecdh,
        mHelloSequence = 0, mStateSequence = 0, entropy = e\<rparr>"

lemma Graph_fields_simps [simp]:
  "g_heap (Graph_fields ptr ecdh e r) = []" "mVertices (Graph_fields ptr ecdh e r) = []"
  "mRoutingTable (Graph_fields ptr ecdh e r) = RoutingTable_new" "mEcdh (Graph_fields ptr ecdh e r) = ecdh"
  "mStateSequence (Graph_fields ptr ecdh e r) = 0" "entropy (Graph_fields ptr ecdh e r) = e"
  "mHelloSequence (Graph_fields ptr ecdh e r) = 0"
  "mTable (Graph_fields ptr ecdh e r) = mTable r" "mNeighbors (Graph_fields ptr ecdh e r) = mNeighbors r"
  "mChannels (Graph_fields ptr ecdh e r) = mChannels r" "rtc_sent (Graph_fields ptr ecdh e r) = rtc_sent r"
  "rtc_open (Graph_fields ptr ecdh e r) = rtc_open r" "rtc_throws (Graph_fields ptr ecdh e r) = rtc_throws r"
  "rtc_handler (Graph_fields ptr ecdh e r) = rtc_handler r"
  by (simp_all add: Graph_fields_def routing.defs)

lemma Graph_fields_views:
  "graph_wf (Graph_fields ptr ecdh e r)" "graph_findVertice i (Graph_fields ptr ecdh e r) = None"
  "graph_state (Graph_fields ptr ecdh e r) i = None" "graph_links (Graph_fields ptr ecdh e r) i = {}"
  by (simp_all add: graph_wf_def heap_wf_def graph_findVertice_def graph_state_def graph_links_def)

lemma Graph_new_ready:
  assumes "length (dh_public (Ecdh_new env seed)) \<le> 65535"
    and r: "r = Routing_new opened throws" and self: "self = pair_public pair"
  shows "\<exists>w. Graph_new (Suc (Suc (Suc n))) env pair ptr seed r = (Return True, w) \<and> graph_ready env self w
    \<and> graph_state w = Map.empty(self \<mapsto> local_announcement self (Graph_fields ptr (Ecdh_new env seed) (seed + 1) r))
    \<and> mChannels w = [] \<and> mNeighbors w = [] \<and> mStateSequence w = 1 \<and> rtc_handler w = (\<lambda>_. NoHandler)
    \<and> mEcdh w = Ecdh_new env seed \<and> rtc_sent w = []"
proof -
  let ?w = "Graph_fields ptr (Ecdh_new env seed) (seed + 1) r"
  define e where "e = Ecdh_new env seed"
  define s where "s = State_new self (0 - 1) (dh_public e)"
  have id: "state_id s = self" "st_sequence s = - 1" "st_ecdhPublic s = dh_public e"
    by (simp_all add: s_def State_new_def state_id_def)
  have None: "graph_findVertice (state_id s) ?w = None"
    by (simp add: Graph_fields_views)
  define u where "u = graph_newVertice s ?w"
  note u = newVertice_view [OF Graph_fields_views(1) None u_def, unfolded id]
  note uf = graph_frame_fields [OF u(2)]
  have neighbors: "routing_neighbors u = []"
    by (simp add: routing_neighbors_def uf r Routing_new_def um_keys_def oset_of_def)
  have lo: "local_ok self u"
    by (simp add: local_ok_def u(4) uf id e_def)
  have "table_ok self ?w"
    by (simp add: table_ok_def Graph_fields_views r Routing_new_def rt_findNextHop_def RoutingTable_new_def)
  then have tk: "table_ok self u"
    using u(6) by blast
  have an: "announceable env self u"
    using assms(1)
    by (simp add: announceable_def State_body_layout local_announcement_def State_new_def neighbors uf)
  obtain v where v: "announce_if True (Suc (Suc n)) env pair u = (Return (), v)" "announced env pair u v"
    "graph_wf v" "table_ok self v" "graph_findVertice self v = Some 0"
    "\<forall>i. graph_state v i = (if i = self then Some (local_announcement self u) else graph_state u i)"
    "\<forall>i. graph_links v i = (if i = self then {} else graph_links u i)"
    using announce_if_view [OF u(1) tk lo an self, of True n] u(3) neighbors by auto
  then obtain w where w: "graph_adopt self 0 v = (Return True, w)" "graph_ext v w" "table_ok self w"
    "\<forall>j. graph_links w j = (if j = self then set (st_neighbors (local_announcement self u)) else graph_links v j)"
    using adopt_view [of v self 0 self 0] by auto
  have "Graph_new (Suc (Suc (Suc n))) env pair ptr seed r = graph_updateVertice (Suc (Suc (Suc n))) env pair s ?w"
    by (simp only: Graph_new_def Let_def graph_insert_def Graph_fields_def routing.defs self
        Ecdh_publicKey_def s_def e_def graph.select_convs routing.select_convs)
  also have "\<dots> = (Return True, w)"
    using updateVertice_unknown [OF None, of "Suc (Suc n)" env pair, folded u_def] v(1) w(1) by (simp add: bindp_def self)
  finally have new: "Graph_new (Suc (Suc (Suc n))) env pair ptr seed r = (Return True, w)" .
  have wf: "node_frame u w"
    using node_frame_trans [OF announced_fields(1) [OF v(2)] graph_frame_node] w(2)
    by (simp add: graph_ext_def)
  have seq: "mStateSequence w = 1"
    using w(2) announced_fields(2) [OF v(2)] graph_frame_fields(4) [of v w]
    by (simp add: graph_ext_def uf)
  have ann: "local_announcement self u = local_announcement self ?w"
    by (rule local_announcement_frame [OF u(2)])
  have state: "graph_state w = Map.empty(self \<mapsto> local_announcement self ?w)"
    using w(2) v(6) u(4) ann by (auto simp: graph_ext_def fun_eq_iff Graph_fields_views)
  have links: "graph_links w j = {}" for j
    using w(4) v(7) u(5) neighbors by (simp add: Graph_fields_views local_announcement_def)
  have fields: "mEcdh w = Ecdh_new env seed" "mChannels w = []" "mNeighbors w = []" "rtc_handler w = (\<lambda>_. NoHandler)"
    using wf by (simp_all add: node_frame_def uf r Routing_new_def)
  obtain m where "rtc_sent v = rtc_sent (routing_broadcast env m None u)"
    using announced_sent [OF v(2) graph_frame_refl] by blast
  then have sent: "rtc_sent w = []"
    using w(2) graph_frame_fields(7) [of v w]
    by (cases "message_binary env m") (simp_all add: graph_ext_def rtc_sent_broadcast uf r Routing_new_def)
  have "graph_ready env self w"
    using w(2,3) state links announceable_frame [OF wf, of env self] an seq fields neighbors ann
    by (simp add: graph_ready_def graph_ext_def local_ok_def local_announcement_def State_new_def)
  then show ?thesis
    using new state fields seq sent by blast
qed

section \<open>Events\<close>

lemma local_ok_broadcast [simp]: "local_ok self (routing_broadcast env m from w) = local_ok self w"
  using node_frame_broadcast [of w env m "from"] by (intro local_ok_cong) (simp_all add: node_frame_def)

lemma graph_ready_broadcast [simp]: "graph_ready env self (routing_broadcast env' m from w) = graph_ready env self w"
  using announceable_frame [OF node_frame_broadcast, of env self env' m "from" w] by (simp add: graph_ready_def)

lemma newer_self [simp]: "\<not> newer s (Some s)"
  by (simp add: newer_def)

lemma notify_state:
  assumes "State_FromMessage env (Some m) = Inr s"
  shows "graph_notify stack env pair (MessageEvent m ch) w =
    bindp (graph_insert stack env pair s)
      (\<lambda>accepted w. (Return None, if accepted then routing_broadcast env m ch w else w)) w"
proof -
  have "m_type m = StateType"
    using assms by (auto simp: State_FromMessage_def split: option.splits if_splits)
  then show ?thesis
    using assms by (simp add: graph_notify_def message_types)
qed

text \<open>C16: a State message of another node is passed on to every open channel but the one it came
  from exactly when the graph took the state over, after the local node's own announcement if
  one was due. The same message arriving again, through whatever channel, changes nothing and
  is sent to nobody: floods die out.\<close>

theorem announcement_floods_once:
  assumes "graph_ready env (pair_public pair) w" "State_FromMessage env (Some m) = Inr s"
    and "state_id s \<noteq> pair_public pair"
  shows "\<exists>w'. graph_notify (Suc (Suc (Suc n))) env pair (MessageEvent m ch) w = (Return None, w')
    \<and> graph_ready env (pair_public pair) w'
    \<and> (if newer s (graph_state w (state_id s))
       then \<exists>w1. graph_insert (Suc (Suc (Suc n))) env pair s w = (Return True, w1)
              \<and> accepted_effect env pair s w w1 \<and> w' = routing_broadcast env m ch w1
       else w' = w)
    \<and> graph_notify (Suc (Suc (Suc n))) env pair (MessageEvent m ch') w' = (Return None, w')"
proof (cases "newer s (graph_state w (state_id s))")
  case False
  then show ?thesis
    using insert_state_cases [OF assms(1), of s n] assms by (simp add: notify_state bindp_def)
next
  case True
  then obtain w1 where w1: "graph_insert (Suc (Suc (Suc n))) env pair s w = (Return True, w1)"
    "graph_ready env (pair_public pair) w1" "accepted_effect env pair s w w1"
    using insert_state_cases [OF assms(1), of s n] assms(3) by auto
  let ?w = "routing_broadcast env m ch w1"
  have "graph_state ?w (state_id s) = Some s"
    using w1(3) by (simp add: accepted_effect_def Let_def)
  then have "graph_insert (Suc (Suc (Suc n))) env pair s ?w = (Return False, ?w)"
    using insert_state_cases [of env pair ?w s n] w1(2) assms(3) by simp
  then show ?thesis
    using True w1 assms(2) by (intro exI [of _ ?w]) (simp add: notify_state bindp_def)
qed

lemma notify_neighbor_view:
  assumes "graph_ready env (pair_public pair) w"
  shows "if graph_links w (pair_public pair) = {j. routing_hasNeighbor j w}
    then graph_notify (Suc (Suc n)) env pair (NeighborEvent i ch) w = (Return None, w)
    else \<exists>w' m. graph_notify (Suc (Suc n)) env pair (NeighborEvent i ch) w = (Return None, w')
      \<and> node_frame w w' \<and> graph_ready env (pair_public pair) w' \<and> mStateSequence w' = mStateSequence w + 1
      \<and> graph_state w' = (graph_state w)(pair_public pair \<mapsto> local_announcement (pair_public pair) w)
      \<and> graph_links w' (pair_public pair) = {j. routing_hasNeighbor j w}
      \<and> (\<forall>j. rt_findNextHop (graph_routingTable w') j =
           (if routing_hasNeighbor j w \<and> j \<noteq> pair_public pair then Some j else None))
      \<and> State_toMessage env (entropy w) (local_announcement (pair_public pair) w) pair = Inr m
      \<and> rtc_sent w' = rtc_sent (routing_broadcast env m None w)"
proof -
  let ?self = "pair_public pair" and ?ns = "routing_neighbors w"
  have w: "graph_wf w" "table_ok ?self w" "local_ok ?self w" "announceable env ?self w"
    using assms by (simp_all add: graph_ready_def)
  obtain l where l: "graph_findVertice ?self w = Some l"
    using local_ok_find [OF w(3)] by blast
  obtain u where u: "graph_updateEdges ?self ?self ?ns w = (Return (graph_links w ?self \<noteq> set ?ns), u)"
    "graph_ext w u" "\<forall>j. graph_links u j = (if j = ?self then set ?ns else graph_links w j)"
    "table_ok ?self u" "graph_links w ?self = set ?ns \<longrightarrow> u = w"
    using updateEdges_view [OF w(1,2) l l, of ?ns] by blast
  have ns: "set ?ns = {j. routing_hasNeighbor j w}"
    by (rule routing_neighbors_set)
  show ?thesis
  proof (cases "graph_links w ?self = {j. routing_hasNeighbor j w}")
    case True
    then show ?thesis
      using u(1,5) ns by (simp add: graph_notify_def Let_def bindp_def)
  next
    case False
    have frame: "graph_frame w u" and wf: "graph_wf u" and state: "\<forall>i. graph_state u i = graph_state w i"
      using u(2) by (simp_all add: graph_ext_def)
    note uf = graph_frame_fields [OF frame]
    have "local_ok ?self u" "announceable env ?self u"
      using w(3,4) local_ok_cong [of u ?self w] state uf announceable_frame [OF graph_frame_node [OF frame], of env ?self]
      by simp_all
    then obtain v where v: "graph_broadcastState (Suc (Suc n)) env pair u = (Return (), v)" "announced env pair u v"
      "graph_wf v" "table_ok ?self v"
      "\<forall>i. graph_state v i = (if i = ?self then Some (local_announcement ?self u) else graph_state u i)"
      "\<forall>i. graph_links v i = (if i = ?self then set (routing_neighbors u) else graph_links u i)"
      using broadcastState_announced [OF wf u(4) _ _ refl, of env n] by blast
    have ann: "local_announcement ?self u = local_announcement ?self w" "routing_neighbors u = ?ns"
      using local_announcement_frame [OF frame] node_frame_neighbors [OF graph_frame_node [OF frame]] by simp_all
    note vf = announced_fields [OF v(2)]
    have frame': "node_frame w v"
      using node_frame_trans [OF graph_frame_node [OF frame] vf(1)] .
    have seq: "mStateSequence v = mStateSequence w + 1"
      using vf(2) uf by simp
    have gs: "graph_state v = (graph_state w)(?self \<mapsto> local_announcement ?self w)"
      using v(5) state ann by (auto simp: fun_eq_iff)
    have ls: "graph_links v j = (if j = ?self then set ?ns else graph_links w j)" for j
      using v(6) u(3) ann by simp
    have lo: "local_ok ?self v"
      using frame' seq gs by (simp add: local_ok_def local_announcement_def State_new_def node_frame_def)
    have "graph_ready env ?self v"
      using v(3,4) lo assms announceable_frame [OF frame', of env ?self] ls gs
      by (simp add: graph_ready_def local_announcement_def)
    moreover have "graph_notify (Suc (Suc n)) env pair (NeighborEvent i ch) w = (Return None, v)"
      using u(1) v(1) False ns by (simp add: graph_notify_def Let_def bindp_def)
    moreover have "\<forall>j. rt_findNextHop (graph_routingTable v) j =
        (if routing_hasNeighbor j w \<and> j \<noteq> ?self then Some j else None)"
      using v(4) ls ns by (auto simp: table_ok_def graph_routingTable_def)
    ultimately show ?thesis
      using False frame' seq gs ls [of ?self] ns announced_sent [OF v(2) frame] by auto
  qed
qed

section \<open>A concrete node\<close>

definition demo_start :: "nat graph" where
  "demo_start = snd (Graph_new 3 demo_env demo_pair id 5 (Routing_new (\<lambda>_. True) (\<lambda>_ _. None)))"

lemma demo_start_ready:
  "graph_ready demo_env (pair_public demo_pair) demo_start"
  "graph_state demo_start i = None \<longleftrightarrow> i \<noteq> 7" "mNeighbors demo_start = []" "mChannels demo_start = []"
  "mEcdh demo_start = Ecdh_new demo_env 5" "rtc_handler demo_start = (\<lambda>_. NoHandler)"
proof -
  have "length (dh_public (Ecdh_new demo_env 5)) \<le> 65535"
    by (simp add: Ecdh_new_def demo_env_def)
  from Graph_new_ready [OF this refl refl, of 0 demo_pair id "\<lambda>_. True" "\<lambda>_ _. None"]
  show "graph_ready demo_env (pair_public demo_pair) demo_start"
    "graph_state demo_start i = None \<longleftrightarrow> i \<noteq> 7" "mNeighbors demo_start = []" "mChannels demo_start = []"
    "mEcdh demo_start = Ecdh_new demo_env 5" "rtc_handler demo_start = (\<lambda>_. NoHandler)"
    by (auto simp: demo_start_def demo_pair_def numeral_3_eq_3)
qed

lemma demo_start_links: "graph_links demo_start 7 = {}"
proof -
  have "length (dh_public (Ecdh_new demo_env 5)) \<le> 65535"
    by (simp add: Ecdh_new_def demo_env_def)
  from Graph_new_ready [OF this refl refl, of 0 demo_pair id "\<lambda>_. True" "\<lambda>_ _. None"]
  have "\<exists>st. graph_state demo_start 7 = Some st \<and> st_neighbors st = []"
    by (auto simp: demo_start_def demo_pair_def numeral_3_eq_3 local_announcement_def routing_neighbors_def
        Routing_new_def um_keys_def oset_of_def)
  then show ?thesis
    using demo_start_ready(1) by (auto simp: graph_ready_def)
qed

definition demo_state :: "nat state" where
  "demo_state = State_new 9 4 (replicate 65 0)"

lemma demo_state_foreign: "state_id demo_state \<noteq> pair_public demo_pair" "state_id demo_state = 9"
  by (simp_all add: demo_state_def state_id_def State_new_def demo_pair_def)

theorem insert_state_witness:
  "\<exists>w'. graph_insert 3 demo_env demo_pair demo_state demo_start = (Return True, w')
     \<and> graph_ready demo_env (pair_public demo_pair) w'
     \<and> accepted_effect demo_env demo_pair demo_state demo_start w'"
  using insert_state [OF demo_start_ready(1), of 3 demo_state] demo_state_foreign demo_start_ready(2) [of 9]
  by (auto simp: newer_def)

theorem graph_takes_newest_witness:
  "accepted_list (announce_arrives (Suc (Suc (Suc 0))) demo_env demo_pair (\<lambda>_ _. []) (\<lambda>_ _. [])) 9 demo_start
     (map (\<lambda>n. - 4 + of_nat n) [5, 3, 9, 9, 7]) = [1, 5]"
proof -
  have n: "\<forall>n \<in> set [5, 3, 9, 9, 7]. n < seq_window"
    by (simp add: seq_window_def)
  have "9 \<noteq> pair_public demo_pair"
    by (simp add: demo_pair_def)
  then show ?thesis
    using graph_takes_newest [OF demo_start_ready(1) _ _ n, of 9 0 "\<lambda>_ _. []" "\<lambda>_ _. []" "- 4"]
      demo_start_ready(2) [of 9] by simp
qed

definition demo_message :: "nat message" where
  "demo_message =
     \<lparr>m_type = StateType, m_sequence = 4, m_source = Some 9, m_destination = None,
      m_body = replicate 65 0, m_signature = []\<rparr>"

lemma demo_message_state: "State_FromMessage demo_env (Some demo_message) = Inr demo_state"
  by (simp add: demo_message_def demo_state_def State_FromMessage_def rd_size_def reader_of_def
      Ecdh_KeySize_def Identifier_Size_def rd_read_def read_neighbors_stop State_new_def)

theorem announcement_floods_once_witness:
  "\<exists>w' w1. graph_notify (Suc (Suc (Suc 0))) demo_env demo_pair (MessageEvent demo_message (Some 1)) demo_start = (Return None, w')
     \<and> graph_insert (Suc (Suc (Suc 0))) demo_env demo_pair demo_state demo_start = (Return True, w1)
     \<and> w' = routing_broadcast demo_env demo_message (Some 1) w1
     \<and> graph_notify (Suc (Suc (Suc 0))) demo_env demo_pair (MessageEvent demo_message (Some 2)) w' = (Return None, w')"
proof -
  have "newer demo_state (graph_state demo_start (state_id demo_state))"
    using demo_start_ready(2) [of 9] by (simp add: newer_def demo_state_foreign)
  then show ?thesis
    using announcement_floods_once [OF demo_start_ready(1) demo_message_state demo_state_foreign(1), of 0 "Some 1" "Some 2"]
    by auto
qed

section \<open>Channels and neighbours\<close>

text \<open>Operations on channels and neighbours leave the graph as it is.\<close>

lemma graph_ready_routing:
  assumes "graph_ready env self w" "announceable env self w'"
    "g_heap w' = g_heap w" "mVertices w' = mVertices w" "mRoutingTable w' = mRoutingTable w"
    "mTable w' = mTable w" "mEcdh w' = mEcdh w" "mStateSequence w' = mStateSequence w"
  shows "graph_ready env self w'"
proof -
  have find: "graph_findVertice i w' = graph_findVertice i w" for i
    using assms by (simp add: graph_findVertice_def)
  have views: "graph_state w' i = graph_state w i" "graph_links w' i = graph_links w i" for i
    using assms by (simp_all add: graph_state_def graph_links_def find cong: option.case_cong)
  have "table_ok self w' = table_ok self w"
    by (rule table_ok_cong) (simp_all add: assms views)
  moreover have "local_ok self w' = local_ok self w"
    by (rule local_ok_cong) (simp_all add: assms views)
  ultimately show ?thesis
    using assms by (simp add: graph_ready_def graph_wf_def views)
qed

lemma graph_ready_addChannel:
  assumes "graph_ready env self w"
  shows "graph_ready env self (routing_addChannel ch w)"
proof (rule graph_ready_routing [OF assms])
  show "announceable env self (routing_addChannel ch w)"
    using assms
    by (simp add: graph_ready_def announceable_def State_body_layout local_announcement_def State_new_def
        routing_neighbors_def routing_addChannel_def Let_def)
qed (simp_all add: routing_addChannel_def Let_def)

lemma graph_ready_addNeighbor:
  assumes "graph_ready env self w" "announceable env self (snd (routing_addNeighbor i ch w))"
  shows "graph_ready env self (snd (routing_addNeighbor i ch w))"
  by (rule graph_ready_routing [OF assms]) (simp_all add: routing_addNeighbor_def)

text \<open>Fewer neighbours fit in a message when more do.\<close>

lemma announceable_neighbors:
  "announceable env self w \<longleftrightarrow>
   length (dh_public (mEcdh w)) + length (concat (map (Identifier_binary env) (routing_neighbors w))) \<le> 65535"
  by (simp add: announceable_def State_body_layout local_announcement_def State_new_def)

lemma length_concat_distinct:
  "distinct xs \<Longrightarrow> length (concat (map f xs)) = (\<Sum>x \<in> set xs. length (f x))"
  by (simp add: length_concat comp_def sum_list_distinct_conv_sum_set)

lemma routing_neighbors_distinct: "distinct (routing_neighbors w)"
  using routing_neighbors_ok [of w] by (simp only: oset_ok_def)

lemma announceable_mono:
  assumes "announceable env self w" "mEcdh w' = mEcdh w"
    "set (routing_neighbors w') \<subseteq> set (routing_neighbors w)"
  shows "announceable env self w'"
proof -
  have "length (concat (map (Identifier_binary env) (routing_neighbors w')))
      \<le> length (concat (map (Identifier_binary env) (routing_neighbors w)))"
    unfolding length_concat_distinct [OF routing_neighbors_distinct] using assms(3) by (intro sum_mono2) simp_all
  then show ?thesis
    using assms(1,2) by (simp add: announceable_neighbors)
qed

lemma removeChannel_neighbors:
  "mNeighbors (routing_removeChannel ch w) = filter (\<lambda>p. snd p \<noteq> ch) (mNeighbors w)"
  by (simp add: routing_removeChannel_def Let_def)

lemma graph_ready_removeChannel:
  assumes "graph_ready env self w"
  shows "graph_ready env self (routing_removeChannel ch w)"
proof (rule graph_ready_routing [OF assms])
  have "set (routing_neighbors (routing_removeChannel ch w)) \<subseteq> set (routing_neighbors w)"
    unfolding routing_neighbors_def removeChannel_neighbors by (auto simp: um_keys_def)
  moreover have "mEcdh (routing_removeChannel ch w) = mEcdh w"
    by (simp add: routing_removeChannel_def Let_def)
  moreover have "announceable env self w"
    using assms by (simp add: graph_ready_def)
  ultimately show "announceable env self (routing_removeChannel ch w)"
    using announceable_mono by blast
qed (simp_all add: routing_removeChannel_def Let_def split: if_split)

definition demo_linked :: "nat graph" where
  "demo_linked = snd (routing_addNeighbor 8 1 (routing_addChannel 1 demo_start))"

lemma demo_linked_neighbors: "mNeighbors demo_linked = [(8, 1)]" "mEcdh demo_linked = Ecdh_new demo_env 5"
  by (simp_all add: demo_linked_def routing_addNeighbor_def routing_addChannel_def Let_def demo_start_ready
      um_emplace_def)

lemma demo_linked_ready: "graph_ready demo_env (pair_public demo_pair) demo_linked"
  unfolding demo_linked_def
proof (rule graph_ready_addNeighbor [OF graph_ready_addChannel [OF demo_start_ready(1)]])
  have "routing_neighbors demo_linked = [8]"
    by (simp add: routing_neighbors_def demo_linked_neighbors um_keys_def oset_of_def oset_insert_def insort_insert_key_def)
  then have "announceable demo_env (pair_public demo_pair) demo_linked"
    by (simp add: announceable_neighbors demo_linked_neighbors)
      (simp add: Ecdh_new_def demo_env_def identifier_defs)
  then show "announceable demo_env (pair_public demo_pair)
      (snd (routing_addNeighbor 8 1 (routing_addChannel 1 demo_start)))"
    by (simp add: demo_linked_def)
qed

end
