(* ===== verification/Transport.thy ===== *)
theory Transport
  imports Announcements
begin

text \<open>
  The two message transports (\<open>src/impl/transport.hpp\<close>, \<open>transport.cpp\<close>,
  \<open>broadcastabletransport.hpp\<close>, \<open>broadcastabletransport.cpp\<close>): encrypted unicast, and for user
  messages also signed broadcast that every node passes on. Each drops the messages of a sender
  that are not newer than the last one it let through.
  Handing a payload to the receive callback is the last action of \<open>incoming\<close>: the functions
  return it, with the sender, and the node calls the callback.
\<close>

section \<open>State\<close>

text \<open>\<open>t_broadcastable\<close> is the dynamic class of the object, \<open>BroadcastableTransport\<close> or \<open>Transport\<close>.\<close>

record 'p transport =
  t_broadcastable :: bool
  mType :: byte
  mSendSequence :: "32 word"
  mSequences :: "('p, 32 word) umap"

text \<open>
  The constructor leaves the atomic \<open>mSendSequence\<close> uninitialised: its first value is an
  argument here.
\<close>

definition Transport_new :: "bool \<Rightarrow> byte \<Rightarrow> 32 word \<Rightarrow> 'p transport" where
  "Transport_new broadcastable type indeterminate =
     \<lparr>t_broadcastable = broadcastable, mType = type, mSendSequence = indeterminate, mSequences = []\<rparr>"

section \<open>Receiving\<close>

definition Transport_checkSequence :: "'p \<Rightarrow> 32 word \<Rightarrow> 'p transport \<Rightarrow> bool \<times> 'p transport" where
  "Transport_checkSequence i sequence t =
     (case um_find (mSequences t) i of
        None \<Rightarrow> (True, t\<lparr>mSequences := um_emplace i sequence (mSequences t)\<rparr>)
      | Some known \<Rightarrow>
          if compare_sequence sequence known > 0
          then (True, t\<lparr>mSequences := um_assign i sequence (mSequences t)\<rparr>)
          else (False, t))"

text \<open>
  The state of a transport call is the transport and the node's graph. \<open>*message->source\<close> is
  read unchecked; \<open>notify\<close> has checked that it is there.
\<close>

definition Transport_incoming_unicast ::
    "('p, 'k) env \<Rightarrow> 'p message \<Rightarrow> ('p transport \<times> ('p, 'z) graph_scheme, ('p \<times> binary) option) prog" where
  "Transport_incoming_unicast env message st =
     (let (t, w) = st
      in case m_source message of
           None \<Rightarrow> (Return None, st)
         | Some remoteId \<Rightarrow>
             (let (fresh, t) = Transport_checkSequence remoteId (m_sequence message) t
              in if \<not> fresh then (Return None, (t, w))
                 else if m_destination message = None then (Return None, (t, w))
                 else
                   (case CipherBody_of (m_body message) of
                      Inl e \<Rightarrow> (Throw e, (t, w))
                    | Inr cipherBody \<Rightarrow>
                        (let localEcdhPair = graph_localEcdhPair w
                         in if cb_destination cipherBody \<noteq> Ecdh_publicKey localEcdhPair
                            then (Return None, (t, w))
                            else
                              (case CipherBody_decrypt env cipherBody localEcdhPair of
                                 Inl e \<Rightarrow> (Throw e, (t, w))
                               | Inr payload \<Rightarrow> (Return (Some (remoteId, payload)), (t, w)))))))"

definition BroadcastableTransport_incoming ::
    "('p, 'k) env \<Rightarrow> 'p message \<Rightarrow> channel option
     \<Rightarrow> ('p transport \<times> ('p, 'z) graph_scheme, ('p \<times> binary) option) prog" where
  "BroadcastableTransport_incoming env message from st =
     (let (t, w) = st
      in if m_destination message \<noteq> None then Transport_incoming_unicast env message st
         else
           (case m_source message of
              None \<Rightarrow> (Return None, st)
            | Some remoteId \<Rightarrow>
                if m_type message \<noteq> mType t then (Return None, st)
                else
                  (let (fresh, t) = Transport_checkSequence remoteId (m_sequence message) t
                   in if \<not> fresh then (Return None, (t, w))
                      else (Return (Some (remoteId, m_body message)),
                            (t, routing_broadcast env message from w)))))"

text \<open>\<open>incoming\<close> is virtual.\<close>

definition Transport_incoming ::
    "('p, 'k) env \<Rightarrow> 'p message \<Rightarrow> channel option
     \<Rightarrow> ('p transport \<times> ('p, 'z) graph_scheme, ('p \<times> binary) option) prog" where
  "Transport_incoming env message from st =
     (if t_broadcastable (fst st) then BroadcastableTransport_incoming env message from st
      else Transport_incoming_unicast env message st)"

definition Transport_notify ::
    "('p, 'k) env \<Rightarrow> 'p event \<Rightarrow> ('p transport \<times> ('p, 'z) graph_scheme, ('p \<times> binary) option) prog" where
  "Transport_notify env event st =
     (case event of
        NeighborEvent i ch \<Rightarrow> (Return None, st)
      | MessageEvent message ch \<Rightarrow>
          if m_type message \<noteq> mType (fst st) \<or> m_source message = None then (Return None, st)
          else Transport_incoming env message ch st)"

section \<open>Sending\<close>

definition next_seed :: "(('p transport \<times> ('p, 'z) graph_scheme), nat) prog" where
  "next_seed st = (Return (entropy (snd st)), (fst st, (snd st)\<lparr>entropy := entropy (snd st) + 1\<rparr>))"

definition next_sequence :: "(('p transport \<times> ('p, 'z) graph_scheme), 32 word) prog" where
  "next_sequence st =
     (Return (mSendSequence (fst st)), ((fst st)\<lparr>mSendSequence := mSendSequence (fst st) + 1\<rparr>, snd st))"

definition try_value :: "exn + 'a \<Rightarrow> ('w, 'a) prog" where
  "try_value r w = (case r of Inl e \<Rightarrow> (Throw e, w) | Inr a \<Rightarrow> (Return a, w))"

definition on_node :: "('w, 'a) prog \<Rightarrow> ('t \<times> 'w, 'a) prog" where
  "on_node f st = (let (out, w) = f (snd st) in (out, (fst st, w)))"

text \<open>Sending may route to the local node itself, in which case routing emits the message as an event.\<close>

definition Transport_send ::
    "('p, 'k) env \<Rightarrow> ('p, 'k) EcdsaPair \<Rightarrow> 'p \<Rightarrow> binary
     \<Rightarrow> ('p transport \<times> ('p, 'z) graph_scheme, 'p event option) prog" where
  "Transport_send env pair remoteId payload st =
     bindp (try_value (graph_get remoteId (snd st))) (\<lambda>remoteState.
     bindp next_seed (\<lambda>seed.
     bindp (\<lambda>st. try_value (CipherBody_Encrypt env seed payload (graph_localEcdhPair (snd st))
              (st_ecdhPublic remoteState)) st) (\<lambda>cipherBody.
     bindp next_sequence (\<lambda>sequence.
     bindp next_seed (\<lambda>seed.
     bindp (try_value (make_message env seed (mType (fst st)) sequence (CipherBody_binary cipherBody)
              (Some pair) (Some remoteId))) (\<lambda>message.
     on_node (routing_send env (pair_public pair) message)))))))
     st"

definition Transport_broadcast ::
    "('p, 'k) env \<Rightarrow> ('p, 'k) EcdsaPair \<Rightarrow> binary \<Rightarrow> ('p transport \<times> ('p, 'z) graph_scheme, unit) prog" where
  "Transport_broadcast env pair payload st =
     (if \<not> t_broadcastable (fst st)
      then (Throw (Logic_error ''Transport does not support broadcasting''), st)
      else
        bindp next_sequence (\<lambda>sequence.
        bindp next_seed (\<lambda>seed.
        bindp (try_value (make_message env seed (mType (fst st)) sequence payload (Some pair) None))
          (\<lambda>message.
        on_node (\<lambda>w. (Return (), routing_broadcast env message None w))))) st)"

section \<open>The sequence filter\<close>

definition last_sequence :: "'p transport \<Rightarrow> 'p \<Rightarrow> 32 word option" where
  "last_sequence t i = um_find (mSequences t) i"

lemma checkSequence_fst:
  "fst (Transport_checkSequence i s t) \<longleftrightarrow>
   (case last_sequence t i of None \<Rightarrow> True | Some l \<Rightarrow> compare_sequence s l > 0)"
  by (simp add: Transport_checkSequence_def last_sequence_def split: option.split)

lemma checkSequence_snd:
  "last_sequence (snd (Transport_checkSequence i s t)) j =
   (if j = i \<and> fst (Transport_checkSequence i s t) then Some s else last_sequence t j)"
  by (simp add: Transport_checkSequence_def last_sequence_def um_finds split: option.split)

interpretation transport_filter: freshness last_sequence Transport_checkSequence "\<lambda>_. True" UNIV
  by unfold_locales (simp_all add: checkSequence_fst checkSequence_snd)

text \<open>C12: whatever order the messages of one sender arrive in, however often each arrives and
  wherever its numbering starts (it wraps around), the transport lets exactly those through
  that are newer than everything let through before, as long as the numbers stay within
  2147483647 of the start; in particular none twice.\<close>

theorem transport_lets_newest_through:
  assumes "um_find (mSequences t) i = None" "\<forall>n \<in> set ns. n < seq_window"
  shows "accepted_list Transport_checkSequence i t (map (\<lambda>n. base + of_nat n) ns) =
      map (\<lambda>n. base + of_nat n) (newest None ns)
    \<and> sorted_wrt (<) (newest None ns) \<and> set (newest None ns) \<subseteq> set ns"
  using transport_filter.accepted_newest [where st = t and k = i and base = base and mx = None and ns = ns] assms newest_increasing newest_subset
  by (simp add: last_sequence_def)

theorem transport_lets_newest_through_witness:
  "accepted_list Transport_checkSequence 9 (Transport_new True User 0)
     (map (\<lambda>n. - 2 + of_nat n) [1, 1, 0, 3, 2, 4]) = [- 1, 1, 2]"
proof -
  have "\<forall>n \<in> set [1, 1, 0, 3, 2, 4]. n < seq_window"
    by (simp add: seq_window_def)
  then show ?thesis
    using transport_lets_newest_through [of "Transport_new True User 0" 9 "[1, 1, 0, 3, 2, 4]" "- 2"]
    by (simp add: Transport_new_def)
qed

section \<open>Delivery\<close>

lemma checkSequence_again:
  assumes "fst (Transport_checkSequence i s t)"
  shows "Transport_checkSequence i s (snd (Transport_checkSequence i s t)) =
    (False, snd (Transport_checkSequence i s t))"
proof -
  let ?t = "snd (Transport_checkSequence i s t)"
  have "\<not> fst (Transport_checkSequence i s ?t)"
    using transport_filter.no_replay [where st = t and k = i and s = s] assms by simp
  then show ?thesis
    by (auto simp: Transport_checkSequence_def [of i s ?t] split: option.splits if_splits)
qed

text \<open>A broadcast of the transport's type is delivered with its sender and passed on, to every
  open channel but the one it came from, exactly when the sender's sequence number is new; when
  it arrives again through any channel, in whatever state the node is by then, it is neither
  delivered nor passed on.\<close>

lemma broadcast_delivered_once:
  assumes "t_broadcastable t" "m_type m = mType t" "m_source m = Some i" "m_destination m = None"
  shows "if fst (Transport_checkSequence i (m_sequence m) t)
    then \<exists>t'. Transport_notify env (MessageEvent m from) (t, w) =
           (Return (Some (i, m_body m)), (t', routing_broadcast env m from w))
         \<and> (\<forall>from' w'. Transport_notify env (MessageEvent m from') (t', w') = (Return None, (t', w')))
    else Transport_notify env (MessageEvent m from) (t, w) = (Return None, (t, w))"
proof (cases "fst (Transport_checkSequence i (m_sequence m) t)")
  case True
  let ?t = "snd (Transport_checkSequence i (m_sequence m) t)"
  have same: "t_broadcastable ?t = t_broadcastable t" "mType ?t = mType t"
    by (simp_all add: Transport_checkSequence_def split: option.split)
  obtain t' where eq: "Transport_checkSequence i (m_sequence m) t = (True, t')" and t': "?t = t'"
    using True by (metis prod.collapse)
  have "Transport_notify env (MessageEvent m from') (?t, w') = (Return None, (?t, w'))" for from' w'
    using assms same checkSequence_again [OF True]
    by (simp add: Transport_notify_def Transport_incoming_def BroadcastableTransport_incoming_def Let_def)
  moreover have "Transport_notify env (MessageEvent m from) (t, w) =
      (Return (Some (i, m_body m)), (?t, routing_broadcast env m from w))"
    unfolding t' using assms
    by (simp add: Transport_notify_def Transport_incoming_def BroadcastableTransport_incoming_def eq)
  ultimately show ?thesis
    unfolding if_P [OF True] by blast
next
  case False
  then have "Transport_checkSequence i (m_sequence m) t = (False, t)"
    by (auto simp: Transport_checkSequence_def split: option.splits if_splits)
  then show ?thesis
    using assms
    by (simp add: Transport_notify_def Transport_incoming_def BroadcastableTransport_incoming_def Let_def)
qed

definition demo_broadcast :: "nat message" where
  "demo_broadcast =
     \<lparr>m_type = User, m_sequence = 6, m_source = Some 9, m_destination = None, m_body = [1, 2],
      m_signature = []\<rparr>"

text \<open>C31: a payload is delivered only if a message of the transport's type said it comes from that
  sender, with a sequence number newer than the last one let through; it is then either the body
  of a broadcast, on a transport that supports them, or the decryption of a body encrypted to
  the local node's current ECDH key. Every other message, and every one that makes parsing or
  decryption throw, delivers nothing.\<close>

theorem delivery_sound:
  assumes "Transport_notify env (MessageEvent m from) (t, w) = (Return (Some (i, payload)), st')"
  shows "m_type m = mType t \<and> m_source m = Some i \<and> fst (Transport_checkSequence i (m_sequence m) t)
    \<and> fst st' = snd (Transport_checkSequence i (m_sequence m) t)
    \<and> (if m_destination m = None
       then t_broadcastable t \<and> payload = m_body m \<and> snd st' = routing_broadcast env m from w
       else \<exists>cb. CipherBody_of (m_body m) = Inr cb \<and> cb_destination cb = Ecdh_publicKey (graph_localEcdhPair w)
              \<and> CipherBody_decrypt env cb (graph_localEcdhPair w) = Inr payload \<and> snd st' = w)"
  using assms
  by (cases "m_source m"; cases "Transport_checkSequence i (m_sequence m) t")
    (auto simp: Transport_notify_def Transport_incoming_def BroadcastableTransport_incoming_def
      Transport_incoming_unicast_def Let_def split: if_splits sum.splits prod.splits)

theorem delivery_sound_witness:
  "fst (Transport_checkSequence (9 :: nat) 6 (Transport_new True User 0)) \<and> t_broadcastable (Transport_new True User 0 :: nat transport)"
proof -
  have "Transport_notify demo_env (MessageEvent demo_broadcast None) (Transport_new True User 0, demo_start) =
      (Return (Some (9, [1, 2])),
       (Transport_new True User 0)\<lparr>mSequences := [(9, 6)]\<rparr>, routing_broadcast demo_env demo_broadcast None demo_start)"
    by (simp add: Transport_notify_def Transport_incoming_def BroadcastableTransport_incoming_def
        Transport_new_def demo_broadcast_def Transport_checkSequence_def um_emplace_def)
  from delivery_sound [OF this] show ?thesis
    by (simp add: demo_broadcast_def)
qed

section \<open>A payload from end to end\<close>

lemma routing_route_local:
  "m_source m = Some i \<Longrightarrow> m_destination m = Some self \<Longrightarrow>
   routing_route env self m from w = (Return (Some (MessageEvent m from)), w)"
  by (simp add: routing_route_def)

lemma Transport_send_eq:
  assumes "graph_get remoteId w = Inr st"
    and "CipherBody_Encrypt env (entropy w) payload (graph_localEcdhPair w) (st_ecdhPublic st) = Inr cb"
    and "make_message env (entropy w + 1) (mType t) (mSendSequence t) (CipherBody_binary cb) (Some pair) (Some remoteId) = Inr m"
  shows "Transport_send env pair remoteId payload (t, w) =
    (let (out, w') = routing_send env (pair_public pair) m (w\<lparr>entropy := entropy w + 2\<rparr>)
     in (out, (t\<lparr>mSendSequence := mSendSequence t + 1\<rparr>, w')))"
  using assms
  by (simp add: Transport_send_def bindp_def try_value_def next_seed_def next_sequence_def on_node_def
      graph_localEcdhPair_def)

text \<open>
  Sending a payload of up to 65373 bytes to a node whose state is known hands routing one signed
  message; its bytes parse back to the message, and the transport at the destination hands the
  payload, followed by rubbish, to its callback when the number is new.
\<close>

lemma unicast_exchange:
  assumes "ecdsa_laws env" "ecdh_laws env" "aead_laws env" "pair_ok env pairA" "pair_ok env pairB"
    and "mEcdh wA = Ecdh_new env sA" "mEcdh wB = Ecdh_new env sB"
    and "graph_get (pair_public pairB) wA = Inr st" "st_ecdhPublic st = Ecdh_publicKey (mEcdh wB)"
    and "length payload \<le> 65373" "mType tB = mType tA"
    and "Transport_checkSequence (pair_public pairA) (mSendSequence tA) tB = (True, tB')"
  shows "\<exists>m junk.
    Transport_send env pairA (pair_public pairB) payload (tA, wA) =
      (let (out, w') = routing_send env (pair_public pairA) m (wA\<lparr>entropy := entropy wA + 2\<rparr>)
       in (out, (tA\<lparr>mSendSequence := mSendSequence tA + 1\<rparr>, w')))
    \<and> sbind (message_binary env m) (message_of env) = Inr m
    \<and> m_source m = Some (pair_public pairA) \<and> m_destination m = Some (pair_public pairB) \<and> m_type m = mType tA
    \<and> m_sequence m = mSendSequence tA
    \<and> routing_route env (pair_public pairB) m from wB = (Return (Some (MessageEvent m from)), wB)
    \<and> Transport_notify env (MessageEvent m from) (tB, wB) =
        (Return (Some (pair_public pairA, payload @ junk)), (tB', wB))
    \<and> 16 \<le> length junk"
proof -
  obtain cb junk where cb:
    "CipherBody_Encrypt env (entropy wA) payload (Ecdh_new env sA) (Ecdh_publicKey (Ecdh_new env sB)) = Inr cb"
    "CipherBody_of (CipherBody_binary cb) = Inr cb"
    "CipherBody_decrypt env cb (Ecdh_new env sB) = Inr (payload @ junk)" "16 \<le> length junk"
    "cb_destination cb = Ecdh_publicKey (Ecdh_new env sB)" "length (CipherBody_binary cb) = 162 + length payload"
    using CipherBody_exchange [OF assms(2,3) refl refl] by blast
  obtain m where m: "Message_Create env (entropy wA + 1) (mType tA) (mSendSequence tA) (CipherBody_binary cb)
      (Some pairA) (Some (pair_public pairB)) = Inr m"
    "m_source m = Some (pair_public pairA)" "m_type m = mType tA" "m_sequence m = mSendSequence tA"
    "m_body m = CipherBody_binary cb" "m_destination m = Some (pair_public pairB)"
    "sbind (message_binary env m) (message_of env) = Inr m"
    using created_message [OF assms(1,4), of "CipherBody_binary cb" "Some (pair_public pairB)"
        "entropy wA + 1" "mType tA" "mSendSequence tA"] assms(5,10) cb(6)
    by (auto simp: pair_ok_def)
  have "Transport_send env pairA (pair_public pairB) payload (tA, wA) =
      (let (out, w') = routing_send env (pair_public pairA) m (wA\<lparr>entropy := entropy wA + 2\<rparr>)
       in (out, (tA\<lparr>mSendSequence := mSendSequence tA + 1\<rparr>, w')))"
  proof (rule Transport_send_eq [OF assms(8)])
    show "CipherBody_Encrypt env (entropy wA) payload (graph_localEcdhPair wA) (st_ecdhPublic st) = Inr cb"
      unfolding graph_localEcdhPair_def assms(6,7,9) by (rule cb(1))
  qed (unfold make_message_def, rule m(1))
  moreover have "routing_route env (pair_public pairB) m from wB = (Return (Some (MessageEvent m from)), wB)"
    by (rule routing_route_local [OF m(2,6)])
  moreover have "Transport_notify env (MessageEvent m from) (tB, wB) =
      (Return (Some (pair_public pairA, payload @ junk)), (tB', wB))"
    using m cb assms(7,11,12)
    by (simp del: Ecdh_new_sel add: Transport_notify_def Transport_incoming_def BroadcastableTransport_incoming_def
        Transport_incoming_unicast_def graph_localEcdhPair_def)
  ultimately show ?thesis
    using m(2-4,6,7) cb(4) by blast
qed

end
