(* ===== verification/Peering.thy ===== *)
theory Peering
  imports Transport Binary
begin

text \<open>
  Peer connections (\<open>src/impl/peering.hpp\<close>, \<open>peering.cpp\<close>): one WebRTC connection to a remote
  node, negotiated over the signaling transport, whose data channel becomes a channel of
  routing. WebRTC belongs to libdatachannel: its objects are handles, what it answers is part
  of the state and may change at any time, what the program asks of it is recorded.
\<close>

section \<open>The state of the node\<close>

datatype sdp_type = Unspec | Offer | Answer | Pranswer | Rollback

datatype signaling_state = Stable | HaveLocalOffer | HaveRemoteOffer | HaveLocalPranswer | HaveRemotePranswer

text \<open>\<open>rtc::Description\<close>: the constructor from text and type, and what is read from it.\<close>

record 'd webrtc =
  Description :: "string \<Rightarrow> string \<Rightarrow> exn + 'd"
  desc_type :: "'d \<Rightarrow> sdp_type"
  typeString :: "'d \<Rightarrow> string"
  desc_string :: "'d \<Rightarrow> string"

text \<open>
  The callbacks installed on a channel object: those of \<open>Networking::connectWebSocket\<close>, those of
  \<open>Server\<close>, or those of the peering of a remote node.
\<close>

datatype 'p role = NoRole | OutgoingSocket | IncomingSocket | PeerData 'p

record 'p peering =
  pr_remoteId :: 'p
  pr_connection :: nat
  pr_dataChannel :: "channel option"

text \<open>
  The node: routing and graph, the two transports, the peerings, and what is known of the
  objects of libdatachannel. \<open>pc_fails\<close>, \<open>dc_refuses\<close>, \<open>pc_refuses\<close> and \<open>ws_refuses\<close> say what its
  calls throw at the moment: making a connection, making a data channel on one, giving one a
  description, opening a WebSocket; \<open>rng_fails\<close> what \<open>std::random_device\<close> throws. \<open>delivered\<close>
  records the calls of the user's message callback, which is assumed to return and not to throw.
\<close>

record ('p, 'd) world = "'p graph" +
  w_signaling :: "'p transport"
  w_user :: "'p transport"
  mPeerings :: "('p, 'p peering) umap"
  pc_state :: "nat \<Rightarrow> signaling_state"
  pc_gathered :: "nat \<Rightarrow> bool"
  pc_local :: "nat \<Rightarrow> 'd option"
  pc_refuses :: "nat \<Rightarrow> 'd \<Rightarrow> exn option"
  pc_fails :: "exn option"
  dc_refuses :: "nat \<Rightarrow> exn option"
  rng_fails :: "exn option"
  pc_remote :: "(nat \<times> 'd) list"
  ws_refuses :: "string \<Rightarrow> exn option"
  ws_opened :: "(channel \<times> string) list"
  ch_role :: "channel \<Rightarrow> 'p role"
  ch_label :: "channel \<Rightarrow> string"
  rtc_next :: nat
  rtc_closed :: "channel list"
  callback_set :: bool
  delivered :: "('p \<times> binary) list"

section \<open>Peerings\<close>

definition DataChannelName :: string where
  "DataChannelName = ''legio''"

definition rtc_close :: "channel \<Rightarrow> ('p, 'd, 'z) world_scheme \<Rightarrow> ('p, 'd, 'z) world_scheme" where
  "rtc_close c w = w\<lparr>rtc_open := (rtc_open w)(c := False), rtc_closed := rtc_closed w @ [c]\<rparr>"

definition pc_createDataChannel ::
    "nat \<Rightarrow> string \<Rightarrow> (('p, 'd, 'z) world_scheme, channel) prog" where
  "pc_createDataChannel pc label w =
     (case dc_refuses w pc of
        Some e \<Rightarrow> (Throw e, w)
      | None \<Rightarrow>
          (let c = rtc_next w
           in (Return c,
               w\<lparr>rtc_next := c + 1, ch_label := (ch_label w)(c := label), rtc_open := (rtc_open w)(c := False)\<rparr>)))"

definition Peering_isConnected :: "'p peering \<Rightarrow> ('p, 'd, 'z) world_scheme \<Rightarrow> bool" where
  "Peering_isConnected p w = (case pr_dataChannel p of None \<Rightarrow> False | Some c \<Rightarrow> rtc_open w c)"

definition Peering_disconnect ::
    "'p peering \<Rightarrow> ('p, 'd, 'z) world_scheme \<Rightarrow> 'p peering \<times> ('p, 'd, 'z) world_scheme" where
  "Peering_disconnect p w =
     (case pr_dataChannel p of
        None \<Rightarrow> (p, w)
      | Some c \<Rightarrow>
          (let w = routing_removeChannel c w;
               w = rtc_close c w
           in (p\<lparr>pr_dataChannel := None\<rparr>, w)))"

definition Peering_setDataChannel ::
    "channel \<Rightarrow> 'p peering \<Rightarrow> ('p, 'd, 'z) world_scheme \<Rightarrow> 'p peering \<times> ('p, 'd, 'z) world_scheme" where
  "Peering_setDataChannel c p w =
     (p\<lparr>pr_dataChannel := Some c\<rparr>, w\<lparr>ch_role := (ch_role w)(c := PeerData (pr_remoteId p))\<rparr>)"

text \<open>
  When the library throws, the peering has lost its data channel and the exception goes on; the
  peering is an object, so it is part of what the computation leaves.
\<close>

definition Peering_connect :: "('p peering \<times> ('p, 'd, 'z) world_scheme, unit) prog" where
  "Peering_connect st =
     (let (p, w) = Peering_disconnect (fst st) (snd st)
      in case pc_createDataChannel (pr_connection p) DataChannelName w of
           (Return c, w) \<Rightarrow> (Return (), Peering_setDataChannel c p w)
         | (Throw e, w) \<Rightarrow> (Throw e, (p, w))
         | (Overflow, w) \<Rightarrow> (Overflow, (p, w)))"

text \<open>
  The constructor: \<open>createPeerConnection\<close> on a peering that has no data channel yet. There is no
  peering when making the connection throws.
\<close>

definition Peering_new :: "'p \<Rightarrow> (('p, 'd, 'z) world_scheme, 'p peering) prog" where
  "Peering_new remoteId w =
     (let p = \<lparr>pr_remoteId = remoteId, pr_connection = 0, pr_dataChannel = None\<rparr>;
          (p, w) = Peering_disconnect p w
      in case pc_fails w of
           Some e \<Rightarrow> (Throw e, w)
         | None \<Rightarrow> (let pc = rtc_next w in (Return (p\<lparr>pr_connection := pc\<rparr>), w\<lparr>rtc_next := pc + 1\<rparr>)))"

definition pc_setRemoteDescription :: "nat \<Rightarrow> 'd \<Rightarrow> (('p, 'd, 'z) world_scheme, unit) prog" where
  "pc_setRemoteDescription pc d w =
     (case pc_refuses w pc d of
        Some e \<Rightarrow> (Throw e, w)
      | None \<Rightarrow> (Return (), w\<lparr>pc_remote := pc_remote w @ [(pc, d)]\<rparr>))"

definition Peering_receive ::
    "'d webrtc \<Rightarrow> 'p::linorder \<Rightarrow> 'p peering \<Rightarrow> binary \<Rightarrow> (('p, 'd, 'z) world_scheme, unit) prog" where
  "Peering_receive lib localId p payload w =
     (let strs = unpack_strings 2 payload;
          type = strs ! 0;
          sdp = strs ! 1
      in case Description lib sdp type of
           Inl e \<Rightarrow> (Throw e, w)
         | Inr description \<Rightarrow>
             if desc_type lib description = Offer \<and> pc_state w (pr_connection p) = HaveLocalOffer
                \<and> localId > pr_remoteId p
             then (Return (), w)
             else pc_setRemoteDescription (pr_connection p) description w)"

text \<open>Running a transport's operation on the node.\<close>

definition with_signaling ::
    "('p transport \<times> ('p, 'd, 'z) world_scheme, 'a) prog \<Rightarrow> (('p, 'd, 'z) world_scheme, 'a) prog" where
  "with_signaling f w = (let (out, (t, w')) = f (w_signaling w, w) in (out, w'\<lparr>w_signaling := t\<rparr>))"

definition with_user ::
    "('p transport \<times> ('p, 'd, 'z) world_scheme, 'a) prog \<Rightarrow> (('p, 'd, 'z) world_scheme, 'a) prog" where
  "with_user f w = (let (out, (t, w')) = f (w_user w, w) in (out, w'\<lparr>w_user := t\<rparr>))"

definition Peering_sendLocalDescription ::
    "('p, 'k) env \<Rightarrow> 'd webrtc \<Rightarrow> ('p, 'k) EcdsaPair \<Rightarrow> 'p peering \<Rightarrow> 'd
     \<Rightarrow> (('p, 'd, 'z) world_scheme, 'p event option) prog" where
  "Peering_sendLocalDescription env lib pair p description =
     with_signaling (Transport_send env pair (pr_remoteId p)
       (pack_strings [typeString lib description, desc_string lib description]))"

section \<open>The callbacks\<close>

definition Peering_onLocalDescription ::
    "('p, 'k) env \<Rightarrow> 'd webrtc \<Rightarrow> ('p, 'k) EcdsaPair \<Rightarrow> 'p peering \<Rightarrow> 'd
     \<Rightarrow> (('p, 'd, 'z) world_scheme, 'p event option) prog" where
  "Peering_onLocalDescription env lib pair p description w =
     (if pc_gathered w (pr_connection p) then Peering_sendLocalDescription env lib pair p description w
      else (Return None, w))"

definition Peering_onGatheringStateChange ::
    "('p, 'k) env \<Rightarrow> 'd webrtc \<Rightarrow> ('p, 'k) EcdsaPair \<Rightarrow> 'p peering \<Rightarrow> bool
     \<Rightarrow> (('p, 'd, 'z) world_scheme, 'p event option) prog" where
  "Peering_onGatheringStateChange env lib pair p complete w =
     (if complete then
        (case pc_local w (pr_connection p) of
           Some description \<Rightarrow> Peering_sendLocalDescription env lib pair p description w
         | None \<Rightarrow> (Return None, w))
      else (Return None, w))"

definition Peering_onDataChannel ::
    "channel \<Rightarrow> 'p peering \<Rightarrow> ('p, 'd, 'z) world_scheme \<Rightarrow> 'p peering \<times> ('p, 'd, 'z) world_scheme" where
  "Peering_onDataChannel c p w =
     (if ch_label w c = DataChannelName then Peering_setDataChannel c p w else (p, w))"

text \<open>
  The callbacks of a data channel use the peering's current channel, not the one they were
  installed on. Without one, adding it dereferences a null pointer; nothing happens in that
  case here.
\<close>

definition Peering_onOpen ::
    "'p peering \<Rightarrow> ('p, 'd, 'z) world_scheme \<Rightarrow> 'p event option \<times> ('p, 'd, 'z) world_scheme" where
  "Peering_onOpen p w =
     (case pr_dataChannel p of
        None \<Rightarrow> (None, w)
      | Some c \<Rightarrow> (let w = routing_addChannel c w in routing_addNeighbor (pr_remoteId p) c w))"

definition Peering_onClosed :: "'p peering \<Rightarrow> ('p, 'd, 'z) world_scheme \<Rightarrow> ('p, 'd, 'z) world_scheme" where
  "Peering_onClosed p w =
     (case pr_dataChannel p of None \<Rightarrow> w | Some c \<Rightarrow> routing_removeChannel c w)"

section \<open>Properties\<close>

text \<open>Packed strings survive whatever the transport appends.\<close>

lemma Peering_receive_packed:
  assumes "CHR 0x00 \<notin> set (typeString lib d)" "CHR 0x00 \<notin> set (desc_string lib d)"
    and "Description lib (desc_string lib d) (typeString lib d) = Inr d'"
    and "\<not> (desc_type lib d' = Offer \<and> pc_state w (pr_connection p) = HaveLocalOffer \<and> self > pr_remoteId p)"
  shows "Peering_receive lib self p (pack_strings [typeString lib d, desc_string lib d] @ junk) w =
    pc_setRemoteDescription (pr_connection p) d' w"
proof -
  have "unpack_strings 2 (pack_strings [typeString lib d, desc_string lib d] @ junk) =
      [typeString lib d, desc_string lib d]"
    using unpack_pack_strings [of "[typeString lib d, desc_string lib d]" junk] assms(1,2)
    by (simp add: numeral_2_eq_2)
  then show ?thesis
    using assms(3,4) by (auto simp: Peering_receive_def Let_def)
qed

definition demo_webrtc :: "(string \<times> string) webrtc" where
  "demo_webrtc =
     \<lparr>Description = (\<lambda>sdp type. Inr (type, sdp)),
      desc_type = (\<lambda>d. if fst d = ''offer'' then Offer else if fst d = ''answer'' then Answer else Unspec),
      typeString = fst, desc_string = snd\<rparr>"

definition demo_world :: "(nat, string \<times> string) world" where
  "demo_world =
     graph.extend demo_line
       \<lparr>w_signaling = Transport_new False Signaling 0, w_user = Transport_new True User 0,
        mPeerings = [], pc_state = (\<lambda>_. HaveLocalOffer), pc_gathered = (\<lambda>_. True), pc_local = (\<lambda>_. None),
        pc_refuses = (\<lambda>_ _. None), pc_fails = None, dc_refuses = (\<lambda>_. None), rng_fails = None, pc_remote = [], ws_refuses = (\<lambda>_. None), ws_opened = [],
        ch_role = (\<lambda>_. NoRole), ch_label = (\<lambda>_. []), rtc_next = 5, rtc_closed = [],
        callback_set = True, delivered = []\<rparr>"

lemma demo_world_fields:
  "pc_state demo_world = (\<lambda>_. HaveLocalOffer)" "pc_refuses demo_world = (\<lambda>_ _. None)"
  "pc_fails demo_world = None" "dc_refuses demo_world = (\<lambda>_. None)" "rng_fails demo_world = None"
  "pc_remote demo_world = []" "rtc_next demo_world = 5"
  by (simp_all add: demo_world_def graph.defs)

text \<open>When two nodes have each made an offer to the other, exactly one of the two offers goes
  through: the node with the greater identifier ignores the other's offer, the other one takes
  it, so the negotiation neither stalls nor crosses.\<close>

lemma offer_glare_resolved:
  assumes "a \<noteq> b" "Description lib (unpack_strings 2 offerA ! 1) (unpack_strings 2 offerA ! 0) = Inr da"
    and "Description lib (unpack_strings 2 offerB ! 1) (unpack_strings 2 offerB ! 0) = Inr db"
    and "desc_type lib da = Offer" "desc_type lib db = Offer"
    and "pr_remoteId pa = b" "pr_remoteId pb = a"
    and "pc_state wa (pr_connection pa) = HaveLocalOffer" "pc_state wb (pr_connection pb) = HaveLocalOffer"
  shows "(Peering_receive lib a pa offerB wa = (Return (), wa)
       \<and> Peering_receive lib b pb offerA wb = pc_setRemoteDescription (pr_connection pb) da wb
       \<and> a > b)
    \<or> (Peering_receive lib b pb offerA wb = (Return (), wb)
       \<and> Peering_receive lib a pa offerB wa = pc_setRemoteDescription (pr_connection pa) db wa
       \<and> b > a)"
  using assms by (cases "a > b") (auto simp: Peering_receive_def Let_def)

end
