(* ===== verification/Networking.thy ===== *)
theory Networking
  imports Peering
begin

text \<open>
  The management of connections (\<open>src/impl/networking.hpp\<close>, \<open>networking.cpp\<close>): outgoing
  WebSockets, and one peering per remote node, of which the node keeps up to four on its own.
  The callbacks of channels are the events at the end of the section on operations.
\<close>

section \<open>Operations\<close>

definition Networking_createPeering ::
    "'p \<Rightarrow> (('p, 'd, 'z) world_scheme, 'p peering) prog" where
  "Networking_createPeering remoteId w =
     (case um_find (mPeerings w) remoteId of
        Some p \<Rightarrow> (Return p, w)
      | None \<Rightarrow>
          bindp (Peering_new remoteId)
            (\<lambda>p w. (Return p, w\<lparr>mPeerings := um_emplace remoteId p (mPeerings w)\<rparr>)) w)"

text \<open>The map holds pointers: a changed peering is written back to its entry.\<close>

definition store_peering :: "'p peering \<Rightarrow> ('p, 'd, 'z) world_scheme \<Rightarrow> ('p, 'd, 'z) world_scheme" where
  "store_peering p w = w\<lparr>mPeerings := um_assign (pr_remoteId p) p (mPeerings w)\<rparr>"

definition Networking_connectPeer :: "'p \<Rightarrow> (('p, 'd, 'z) world_scheme, unit) prog" where
  "Networking_connectPeer remoteId =
     bindp (Networking_createPeering remoteId)
       (\<lambda>p w. let (out, (p, w)) = Peering_connect (p, w) in (out, store_peering p w))"

definition Networking_receive ::
    "'d webrtc \<Rightarrow> 'p::linorder \<Rightarrow> 'p \<Rightarrow> binary \<Rightarrow> (('p, 'd, 'z) world_scheme, unit) prog" where
  "Networking_receive lib localId remoteId payload =
     bindp (Networking_createPeering remoteId) (\<lambda>p. Peering_receive lib localId p payload)"

definition Networking_isConnected :: "('p, 'd, 'z) world_scheme \<Rightarrow> bool" where
  "Networking_isConnected w \<longleftrightarrow> (\<exists>(i, p) \<in> set (mPeerings w). Peering_isConnected p w)"

definition targetPeeringCount :: int where
  "targetPeeringCount = 4"

text \<open>\<open>shuffle\<close> stands for \<open>std::shuffle\<close> with an engine seeded by \<open>std::random_device\<close>.\<close>

definition Networking_update ::
    "(nat \<Rightarrow> 'p list \<Rightarrow> 'p list) \<Rightarrow> (('p, 'd, 'z) world_scheme, unit) prog" where
  "Networking_update shuffle w =
     (if int (length (mPeerings w)) < targetPeeringCount then
        (let nodes = (case routing_table w of Some t \<Rightarrow> rt_nodes t | None \<Rightarrow> [])
         in case rng_fails w of
              Some e \<Rightarrow> (Throw e, w)
            | None \<Rightarrow>
                (let seed = entropy w;
                     w = w\<lparr>entropy := seed + 1\<rparr>
                 in case find (\<lambda>i. um_find (mPeerings w) i = None) (shuffle seed nodes) of
                      None \<Rightarrow> (Return (), w)
                    | Some i \<Rightarrow> Networking_connectPeer i w))
      else (Return (), w))"

definition Networking_connectWebSocket :: "string \<Rightarrow> (('p, 'd, 'z) world_scheme, unit) prog" where
  "Networking_connectWebSocket url w =
     (let c = rtc_next w;
          w = w\<lparr>rtc_next := c + 1, ch_role := (ch_role w)(c := OutgoingSocket)\<rparr>
      in case ws_refuses w url of
           Some e \<Rightarrow> (Throw e, w)
         | None \<Rightarrow> (Return (), w\<lparr>ws_opened := ws_opened w @ [(c, url)]\<rparr>))"

text \<open>The server accepts a WebSocket (\<open>Server::createWebSocketServer\<close>, \<open>onClient\<close>): only \<open>onOpen\<close> is installed.\<close>

definition Server_onClient :: "('p, 'd, 'z) world_scheme \<Rightarrow> channel \<times> ('p, 'd, 'z) world_scheme" where
  "Server_onClient w =
     (let c = rtc_next w
      in (c, w\<lparr>rtc_next := c + 1, ch_role := (ch_role w)(c := IncomingSocket)\<rparr>))"

text \<open>
  A channel opens or closes: the callback its owner installed. Sockets accepted by the server
  have no callback for closing.
\<close>

definition channel_opened ::
    "channel \<Rightarrow> ('p, 'd, 'z) world_scheme \<Rightarrow> 'p event option \<times> ('p, 'd, 'z) world_scheme" where
  "channel_opened c w =
     (case ch_role w c of
        NoRole \<Rightarrow> (None, w)
      | OutgoingSocket \<Rightarrow> (None, routing_addChannel c w)
      | IncomingSocket \<Rightarrow> (None, routing_addChannel c w)
      | PeerData i \<Rightarrow>
          (case um_find (mPeerings w) i of
             None \<Rightarrow> (None, w)
           | Some p \<Rightarrow> Peering_onOpen p w))"

definition channel_closed :: "channel \<Rightarrow> ('p, 'd, 'z) world_scheme \<Rightarrow> ('p, 'd, 'z) world_scheme" where
  "channel_closed c w =
     (case ch_role w c of
        NoRole \<Rightarrow> w
      | OutgoingSocket \<Rightarrow> routing_removeChannel c w
      | IncomingSocket \<Rightarrow> w
      | PeerData i \<Rightarrow>
          (case um_find (mPeerings w) i of
             None \<Rightarrow> w
           | Some p \<Rightarrow> Peering_onClosed p w))"

definition data_channel_received ::
    "'p \<Rightarrow> channel \<Rightarrow> ('p, 'd, 'z) world_scheme \<Rightarrow> ('p, 'd, 'z) world_scheme" where
  "data_channel_received i c w =
     (case um_find (mPeerings w) i of
        None \<Rightarrow> w
      | Some p \<Rightarrow> (let (p, w) = Peering_onDataChannel c p w in store_peering p w))"

section \<open>The peerings\<close>

text \<open>One peering per node, filed under the node it is for.\<close>

definition peerings_ok :: "('p, 'd, 'z) world_scheme \<Rightarrow> bool" where
  "peerings_ok w \<longleftrightarrow> um_ok (mPeerings w) \<and> (\<forall>(i, p) \<in> set (mPeerings w). pr_remoteId p = i)"

lemma peerings_find: "peerings_ok w \<Longrightarrow> um_find (mPeerings w) i = Some p \<Longrightarrow> pr_remoteId p = i"
  using um_find_Some_in [of "mPeerings w" i p] by (auto simp: peerings_ok_def)

lemma disconnect_frame [simp]:
  "mPeerings (snd (Peering_disconnect p w)) = mPeerings w"
  "pr_remoteId (fst (Peering_disconnect p w)) = pr_remoteId p"
  "pr_dataChannel (fst (Peering_disconnect p w)) = None"
  "rtc_next (snd (Peering_disconnect p w)) = rtc_next w"
  "dc_refuses (snd (Peering_disconnect p w)) = dc_refuses w"
  "pr_connection (fst (Peering_disconnect p w)) = pr_connection p"
  by (simp_all add: Peering_disconnect_def routing_removeChannel_def rtc_close_def Let_def split: option.split)

lemma connect_frame:
  assumes "Peering_connect (p, w) = (out, (q, u))"
  shows "mPeerings u = mPeerings w" "pr_remoteId q = pr_remoteId p" "pr_connection q = pr_connection p" "out \<noteq> Overflow"
    "out = Return () \<longleftrightarrow> dc_refuses w (pr_connection p) = None"
    "out = Throw e \<longleftrightarrow> dc_refuses w (pr_connection p) = Some e"
    "out = Return () \<Longrightarrow> pr_dataChannel q = Some (rtc_next w) \<and> ch_role u (rtc_next w) = PeerData (pr_remoteId p)
       \<and> ch_label u (rtc_next w) = DataChannelName"
    "out = Throw e \<Longrightarrow> pr_dataChannel q = None"
proof -
  obtain r v where d: "Peering_disconnect p w = (r, v)"
    by fastforce
  have v: "rtc_next v = rtc_next w" "mPeerings v = mPeerings w" "dc_refuses v = dc_refuses w"
      "pr_remoteId r = pr_remoteId p" "pr_dataChannel r = None" "pr_connection r = pr_connection p"
    using disconnect_frame [of p w] by (simp_all add: d)
  show "mPeerings u = mPeerings w" "pr_remoteId q = pr_remoteId p" "pr_connection q = pr_connection p" "out \<noteq> Overflow"
    "out = Return () \<longleftrightarrow> dc_refuses w (pr_connection p) = None"
    "out = Throw e \<longleftrightarrow> dc_refuses w (pr_connection p) = Some e"
    "out = Return () \<Longrightarrow> pr_dataChannel q = Some (rtc_next w) \<and> ch_role u (rtc_next w) = PeerData (pr_remoteId p)
       \<and> ch_label u (rtc_next w) = DataChannelName"
    "out = Throw e \<Longrightarrow> pr_dataChannel q = None"
    using assms v by (auto simp: Peering_connect_def d pc_createDataChannel_def Peering_setDataChannel_def Let_def
        split: option.splits)
qed

text \<open>The peering there is or a new one; no new one, and no change, when libdatachannel throws.\<close>

lemma createPeering_cases:
  assumes "peerings_ok w" "Networking_createPeering i w = (out, u)"
  shows "peerings_ok u" "out \<noteq> Overflow"
    "out = Throw e \<Longrightarrow> u = w \<and> pc_fails w = Some e"
    "um_find (mPeerings w) i \<noteq> None \<or> pc_fails w = None \<Longrightarrow> \<exists>p. out = Return p"
    "out = Return p \<Longrightarrow> pr_remoteId p = i \<and> um_find (mPeerings u) i = Some p
      \<and> um_keys (mPeerings u) =
          (if i \<in> set (um_keys (mPeerings w)) then um_keys (mPeerings w) else um_keys (mPeerings w) @ [i])"
proof -
  have "peerings_ok u \<and> out \<noteq> Overflow \<and> (out = Throw e \<longrightarrow> u = w \<and> pc_fails w = Some e)
    \<and> (um_find (mPeerings w) i \<noteq> None \<or> pc_fails w = None \<longrightarrow> (\<exists>p. out = Return p))
    \<and> (out = Return p \<longrightarrow> pr_remoteId p = i \<and> um_find (mPeerings u) i = Some p
      \<and> um_keys (mPeerings u) =
          (if i \<in> set (um_keys (mPeerings w)) then um_keys (mPeerings w) else um_keys (mPeerings w) @ [i]))"
  proof (cases "um_find (mPeerings w) i")
    case (Some p)
    then show ?thesis
      using assms peerings_find [OF assms(1) Some] um_find_Some_key [OF Some]
      by (auto simp: Networking_createPeering_def)
  next
    case None
    then have new: "i \<notin> set (um_keys (mPeerings w))"
      by (simp add: um_find_None_iff)
    have "um_emplace i p (mPeerings w) = mPeerings w @ [(i, p)]" for p
      using None by (simp add: um_emplace_def)
    with None new show ?thesis
      using assms um_ok_emplace [of "mPeerings w" i]
      by (auto simp: Networking_createPeering_def Peering_new_def Peering_disconnect_def Let_def peerings_ok_def
          um_find_append um_ok_def um_keys_def bindp_def split: option.splits)
  qed
  then show "peerings_ok u" "out \<noteq> Overflow" "out = Throw e \<Longrightarrow> u = w \<and> pc_fails w = Some e"
    "um_find (mPeerings w) i \<noteq> None \<or> pc_fails w = None \<Longrightarrow> \<exists>p. out = Return p"
    "out = Return p \<Longrightarrow> pr_remoteId p = i \<and> um_find (mPeerings u) i = Some p
      \<and> um_keys (mPeerings u) =
          (if i \<in> set (um_keys (mPeerings w)) then um_keys (mPeerings w) else um_keys (mPeerings w) @ [i])"
    by blast+
qed

lemma store_peering_ok:
  assumes "peerings_ok w"
  shows "peerings_ok (store_peering p w)" "um_keys (mPeerings (store_peering p w)) = um_keys (mPeerings w)"
    "um_find (mPeerings (store_peering p w)) i =
       (if i = pr_remoteId p \<and> um_find (mPeerings w) i \<noteq> None then Some p else um_find (mPeerings w) i)"
proof -
  have "\<forall>(i, q) \<in> set (um_assign (pr_remoteId p) p (mPeerings w)). pr_remoteId q = i"
    using assms by (auto simp: peerings_ok_def um_assign_def split: if_splits)
  then show "peerings_ok (store_peering p w)"
    using assms by (simp add: peerings_ok_def store_peering_def)
qed (simp_all add: store_peering_def um_find_assign)

text \<open>
  Connecting to a node leaves it with one peering, as before or new. The peering has a data channel
  named \<open>legio\<close> whose callbacks are its own, unless making the channel threw, when it has none;
  there may be no new peering only when making its connection threw.
\<close>

lemma connectPeer_view:
  assumes "peerings_ok w" "Networking_connectPeer i w = (out, u)"
  shows "peerings_ok u" "out \<noteq> Overflow"
    "out = Throw e \<Longrightarrow> pc_fails w = Some e \<or> (\<exists>c. dc_refuses w c = Some e)"
    "out = Return () \<Longrightarrow> um_keys (mPeerings u) =
       (if i \<in> set (um_keys (mPeerings w)) then um_keys (mPeerings w) else um_keys (mPeerings w) @ [i])
     \<and> (\<exists>p c. um_find (mPeerings u) i = Some p \<and> pr_dataChannel p = Some c
       \<and> ch_role u c = PeerData i \<and> ch_label u c = DataChannelName)"
proof -
  obtain o1 v where c: "Networking_createPeering i w = (o1, v)"
    by fastforce
  have refuses: "dc_refuses v = dc_refuses w"
    using c by (auto simp: Networking_createPeering_def Peering_new_def Peering_disconnect_def Let_def bindp_def split: option.splits)
  note new = createPeering_cases [OF assms(1) c]
  have "peerings_ok u \<and> out \<noteq> Overflow \<and> (out = Throw e \<longrightarrow> pc_fails w = Some e \<or> (\<exists>c. dc_refuses w c = Some e))
    \<and> (out = Return () \<longrightarrow> um_keys (mPeerings u) =
         (if i \<in> set (um_keys (mPeerings w)) then um_keys (mPeerings w) else um_keys (mPeerings w) @ [i])
       \<and> (\<exists>p c. um_find (mPeerings u) i = Some p \<and> pr_dataChannel p = Some c
         \<and> ch_role u c = PeerData i \<and> ch_label u c = DataChannelName))"
  proof (cases o1)
    case (Throw e')
    then show ?thesis
      using assms new(3) by (auto simp: Networking_connectPeer_def c bindp_def)
  next
    case Overflow
    then show ?thesis
      using new(2) by simp
  next
    case (Return p)
    obtain o2 q x where d: "Peering_connect (p, v) = (o2, (q, x))"
      by (metis prod.collapse)
    note p = new(5) [OF Return] and con = connect_frame [OF d]
    have u: "out = o2" "u = store_peering q x"
      using assms(2) by (simp_all add: Networking_connectPeer_def c Return bindp_def d)
    have x: "peerings_ok x"
      using new(1) con(1) by (simp add: peerings_ok_def)
    have "um_find (mPeerings u) i = Some q" "ch_role u = ch_role x" "ch_label u = ch_label x"
      using store_peering_ok(3) [OF x, of q i] p con(1,2) by (simp_all add: u store_peering_def)
    then show ?thesis
      using store_peering_ok(1,2) [OF x, of q] p con refuses by (auto simp: u(1)) (simp_all add: u(2))
  qed
  then show "peerings_ok u" "out \<noteq> Overflow" "out = Throw e \<Longrightarrow> pc_fails w = Some e \<or> (\<exists>c. dc_refuses w c = Some e)"
    "out = Return () \<Longrightarrow> um_keys (mPeerings u) =
       (if i \<in> set (um_keys (mPeerings w)) then um_keys (mPeerings w) else um_keys (mPeerings w) @ [i])
     \<and> (\<exists>p c. um_find (mPeerings u) i = Some p \<and> pr_dataChannel p = Some c
       \<and> ch_role u c = PeerData i \<and> ch_label u c = DataChannelName)"
    by blast+
qed

text \<open>The periodic update throws only what libdatachannel or the random device throws. When it
  returns it has added at most one peering, and none when there were four or more; when
  there were fewer and some node of the routing table had no peering yet, whatever the shuffle
  exactly one such node has got one, with a data channel named \<open>legio\<close> whose callbacks are those
  of its peering; no peering is ever replaced.\<close>

lemma update_adds_one_peering:
  assumes "peerings_ok w" "\<forall>s xs. set (shuffle s xs) = set xs" "mTable w = Some t"
    and "Networking_update shuffle w = (Return (), w')"
  shows "peerings_ok w' \<and>
      (if length (mPeerings w) < 4 \<and> \<not> set (rt_nodes t) \<subseteq> set (um_keys (mPeerings w))
       then \<exists>i p c. i \<in> set (rt_nodes t) - set (um_keys (mPeerings w)) \<and> um_keys (mPeerings w') = um_keys (mPeerings w) @ [i]
              \<and> um_find (mPeerings w') i = Some p \<and> pr_dataChannel p = Some c
              \<and> ch_role w' c = PeerData i \<and> ch_label w' c = DataChannelName
       else mPeerings w' = mPeerings w)"
proof (cases "length (mPeerings w) < 4")
  case False
  then show ?thesis
    using assms(1,4) by (simp add: Networking_update_def targetPeeringCount_def)
next
  case True
  let ?u = "w\<lparr>entropy := entropy w + 1\<rparr>"
  let ?nodes = "shuffle (entropy w) (rt_nodes t)"
  have ok: "peerings_ok ?u"
    using assms(1) by (simp add: peerings_ok_def)
  have upd: "(case find (\<lambda>i. um_find (mPeerings w) i = None) ?nodes of
      None \<Rightarrow> (Return (), ?u) | Some i \<Rightarrow> Networking_connectPeer i ?u) = (Return (), w')"
    using assms(3,4) True by (simp add: Networking_update_def targetPeeringCount_def Let_def routing_table_def
        split: option.splits)
  show ?thesis
  proof (cases "find (\<lambda>i. um_find (mPeerings w) i = None) ?nodes")
    case None
    then have "set (rt_nodes t) \<subseteq> set (um_keys (mPeerings w))"
      using assms(2) by (auto simp: find_None_iff um_find_None_iff)
    with None show ?thesis
      using ok upd by auto
  next
    case (Some i)
    then have i: "i \<in> set (rt_nodes t)" "i \<notin> set (um_keys (mPeerings w))"
      using assms(2) by (auto simp: find_Some_iff um_find_None_iff) (metis nth_mem)
    have "Networking_connectPeer i ?u = (Return (), w')"
      using upd Some by simp
    note view = connectPeer_view [OF ok this]
    show ?thesis
      using True i view(1) view(4) by auto
  qed
qed

text \<open>What the update can throw, and that it cannot run out of stack.\<close>

lemma update_throws:
  "fst (Networking_update shuffle w) \<in>
     insert (Return ()) (Throw ` (set_option (rng_fails w) \<union> set_option (pc_fails w) \<union> (\<Union>c. set_option (dc_refuses w c))))"
proof -
  have create: "Networking_createPeering i w = (out, u) \<Longrightarrow> dc_refuses u = dc_refuses w \<and> out \<noteq> Overflow
      \<and> (\<forall>e. out = Throw e \<longrightarrow> pc_fails w = Some e)" for i out and w u :: "('p, 'd, 'z) world_scheme"
    by (auto simp: Networking_createPeering_def Peering_new_def Peering_disconnect_def Let_def bindp_def split: option.splits)
  have connect: "fst (Networking_connectPeer i w) = Return () \<or>
      (\<exists>e. fst (Networking_connectPeer i w) = Throw e \<and> (pc_fails w = Some e \<or> (\<exists>c. dc_refuses w c = Some e)))"
    for i and w :: "('p, 'd, 'z) world_scheme"
  proof -
    obtain o1 v where c: "Networking_createPeering i w = (o1, v)"
      by fastforce
    show ?thesis
    proof (cases o1)
      case (Return p)
      obtain o2 q x where d: "Peering_connect (p, v) = (o2, (q, x))"
        by (metis prod.collapse)
      have "fst (Networking_connectPeer i w) = o2"
        by (simp add: Networking_connectPeer_def c Return bindp_def d)
      then show ?thesis
        using connect_frame(4,5,6) [OF d] create [OF c] by (cases o2) auto
    qed (use create [OF c] in \<open>simp_all add: Networking_connectPeer_def c bindp_def\<close>)
  qed
  define S where "S = insert (Return ()) (Throw ` (set_option (rng_fails w) \<union> set_option (pc_fails w) \<union> (\<Union>c. set_option (dc_refuses w c))))"
  have "fst (Networking_connectPeer i (w\<lparr>entropy := Suc (entropy w)\<rparr>)) \<in> S" for i
    using connect [of i "w\<lparr>entropy := Suc (entropy w)\<rparr>"] by (auto simp: S_def image_iff)
  moreover have "Return () \<in> S" "rng_fails w = Some e \<Longrightarrow> Throw e \<in> S" for e
    by (simp_all add: S_def)
  ultimately show ?thesis
    unfolding S_def [symmetric] by (simp add: Networking_update_def Let_def split: option.split)
qed

lemma demo_world_more:
  "mPeerings demo_world = []" "mTable demo_world = Some RoutingTable_new" "mChannels demo_world = []"
  "mNeighbors demo_world = []" "ch_role demo_world = (\<lambda>_. NoRole)" "rtc_open demo_world = (\<lambda>_. True)"
  by (simp_all add: demo_world_def demo_line_def graph.defs routing.defs Routing_new_def)

text \<open>C32: the callbacks of a data channel act on the peering's current channel. So when a second
  data channel has taken the place of the first, closing the first one throws the second out of
  routing, with the neighbour it reaches, although it is open.\<close>

theorem superseded_channel_takes_current_down:
  assumes "peerings_ok w" "um_find (mPeerings w) i = Some p" "ch_role w old = PeerData i" "ch_label w c = DataChannelName"
    and "c \<noteq> old"
  shows "let w1 = snd (channel_opened c (data_channel_received i c w)); w2 = channel_closed old w1
    in c \<in> set (mChannels w1) \<and> c \<notin> set (mChannels w2) \<and> (\<forall>j. um_find (mNeighbors w2) j \<noteq> Some c)
       \<and> rtc_open w2 c = rtc_open w c"
proof -
  let ?p = "p\<lparr>pr_dataChannel := Some c\<rparr>"
  let ?u = "data_channel_received i c w"
  have id: "pr_remoteId p = i"
    by (rule peerings_find [OF assms(1,2)])
  have u: "?u = store_peering ?p (w\<lparr>ch_role := (ch_role w)(c := PeerData i)\<rparr>)"
    using assms(2,4) id by (simp add: data_channel_received_def Peering_onDataChannel_def Peering_setDataChannel_def)
  have uf: "um_find (mPeerings ?u) i = Some ?p" "ch_role ?u = (ch_role w)(c := PeerData i)" "rtc_open ?u = rtc_open w"
    using assms(2) id by (simp_all add: u store_peering_def um_find_assign)
  let ?v = "snd (channel_opened c ?u)"
  have v: "?v = snd (routing_addNeighbor i c (routing_addChannel c ?u))"
    using uf id by (simp add: channel_opened_def Peering_onOpen_def Let_def)
  have vf: "mPeerings ?v = mPeerings ?u" "ch_role ?v = ch_role ?u" "rtc_open ?v = rtc_open ?u"
    "mChannels ?v = us_emplace c (mChannels ?u)"
    unfolding v by (simp_all add: routing_addNeighbor_def routing_addChannel_def Let_def)
  have "channel_closed old ?v = routing_removeChannel c ?v"
    using vf uf assms(3,5) by (simp add: channel_closed_def Peering_onClosed_def)
  moreover have "rtc_open (routing_removeChannel c ?v) = rtc_open ?v"
    by (simp add: routing_removeChannel_def Let_def)
  ultimately show ?thesis
    using routing_removeChannel_forgets [of c ?v] vf uf(3) by (simp add: Let_def)
qed

definition demo_glare :: "(nat, string \<times> string) world" where
  "demo_glare =
     demo_world\<lparr>mPeerings := [(9, \<lparr>pr_remoteId = 9, pr_connection = 1, pr_dataChannel = Some 2\<rparr>)],
       ch_role := (\<lambda>_. NoRole)(2 := PeerData 9), ch_label := (\<lambda>_. DataChannelName)\<rparr>"

theorem superseded_channel_takes_current_down_witness:
  "let w1 = snd (channel_opened 3 (data_channel_received 9 3 demo_glare)); w2 = channel_closed 2 w1
   in 3 \<in> set (mChannels w1) \<and> 3 \<notin> set (mChannels w2) \<and> rtc_open w2 3"
  using superseded_channel_takes_current_down [of demo_glare 9
      "\<lparr>pr_remoteId = 9, pr_connection = 1, pr_dataChannel = Some 2\<rparr>" 2 3]
  by (simp add: peerings_ok_def demo_glare_def um_ok_def um_keys_def Let_def demo_world_more)

end
