(* ===== verification/Server.thy ===== *)
theory Server
  imports Prelude
begin

text \<open>
  The WebSocket server and its public address (\<open>src/impl/server.hpp\<close>, \<open>server.cpp\<close>,
  \<open>include/legio/configuration.hpp\<close>). Port mapping (libplum) and the listening socket
  (libdatachannel) are parameters: what they return is given by the fields of \<open>plum\<close>.
\<close>

section \<open>Configuration and state\<close>

definition DefaultPort :: "16 word" where "DefaultPort = 8080"

definition DefaultDummyTlsService :: string where "DefaultDummyTlsService = ''legio-p2p.net''"

record Configuration =
  cfg_port :: "16 word option"
  cfg_externalHost :: "string option"
  cfg_externalPort :: "16 word option"
  cfg_tlsPemCertificate :: "string option"
  cfg_tlsPemKey :: "string option"
  cfg_dummyTlsService :: "string option"

definition Configuration_default :: Configuration where
  "Configuration_default =
     \<lparr>cfg_port = Some DefaultPort, cfg_externalHost = None, cfg_externalPort = None,
      cfg_tlsPemCertificate = None, cfg_tlsPemKey = None, cfg_dummyTlsService = Some DefaultDummyTlsService\<rparr>"

record CertificatePair =
  certificate :: string
  key :: string

text \<open>A running server is known by the port it listens on.\<close>

record server =
  mMappingId :: int
  mWebSocketServer :: "16 word option"
  mTlsEnabled :: bool
  mExternalHost :: "string option"
  mExternalPort :: "16 word option"

datatype pem_type = PEM_FULLCHAIN | PEM_PRIVKEY

record plum =
  plum_init :: "string option \<Rightarrow> int"
  plum_get_dummytls_host :: "string \<Rightarrow> int \<times> string"
  plum_get_dummytls_certificate :: "pem_type \<Rightarrow> int \<times> string"
  plum_get_local_address :: "int \<times> string"
  plum_create_mapping :: "16 word \<Rightarrow> 16 word \<Rightarrow> int"
  WebSocketServer_new :: "16 word \<Rightarrow> CertificatePair option \<Rightarrow> exn + 16 word"

fun what :: "exn \<Rightarrow> string" where
  "what (Runtime_error s) = s"
| "what (Invalid_argument s) = s"
| "what (Logic_error s) = s"

definition value_or :: "'a option \<Rightarrow> 'a \<Rightarrow> 'a" where
  "value_or x d = (case x of Some a \<Rightarrow> a | None \<Rightarrow> d)"

section \<open>The address\<close>

text \<open>\<open>operator<<\<close> for an unsigned integer: decimal digits.\<close>

definition digit_char :: "nat \<Rightarrow> char" where
  "digit_char d = char_of (48 + d)"

fun decimal :: "nat \<Rightarrow> string" where
  "decimal n = (if n < 10 then [digit_char n] else decimal (n div 10) @ [digit_char (n mod 10)])"

declare decimal.simps [simp del]

definition Server_GetLocalAddress :: "plum \<Rightarrow> string" where
  "Server_GetLocalAddress p =
     (let (r, local) = plum_get_local_address p in if r < 0 then ''127.0.0.1'' else local)"

definition Server_generateUrl :: "plum \<Rightarrow> server \<Rightarrow> exn + string" where
  "Server_generateUrl p s =
     (case mWebSocketServer s of
        None \<Rightarrow> Inl (Runtime_error ''WebSocket server is not started'')
      | Some listening \<Rightarrow>
          (let port = value_or (mExternalPort s) listening;
               hostname = value_or (mExternalHost s) (Server_GetLocalAddress p);
               hostname = (if CHR '':'' \<in> set hostname then ''['' @ hostname @ '']'' else hostname)
           in Inr ((if mTlsEnabled s then ''wss'' else ''ws'') @ ''://'' @ hostname @ '':''
                   @ decimal (unat port) @ ''/'')))"

definition Server_url :: "plum \<Rightarrow> server \<Rightarrow> exn + string" where
  "Server_url p s = Server_generateUrl p s"

text \<open>\<open>updateExternal\<close> prints the new address, which throws when there is no server.\<close>

definition Server_updateExternal :: "plum \<Rightarrow> string option \<Rightarrow> 16 word option \<Rightarrow> (server, unit) prog" where
  "Server_updateExternal p host port s =
     (let s = s\<lparr>mExternalHost := host, mExternalPort := port\<rparr>
      in case Server_generateUrl p s of Inl e \<Rightarrow> (Throw e, s) | Inr url \<Rightarrow> (Return (), s))"

definition Server_createWebSocketServer ::
    "plum \<Rightarrow> 16 word \<Rightarrow> CertificatePair option \<Rightarrow> (server, unit) prog" where
  "Server_createWebSocketServer p port certPair s =
     (let s = s\<lparr>mWebSocketServer := None\<rparr>;
          s = s\<lparr>mTlsEnabled := certPair \<noteq> None\<rparr>
      in case WebSocketServer_new p port certPair of
           Inl e \<Rightarrow> (Throw (Runtime_error (''WebSocket server creation failed: '' @ what e)), s)
         | Inr listening \<Rightarrow> (Return (), s\<lparr>mWebSocketServer := Some listening\<rparr>))"

text \<open>The buffer holds 8192 bytes; an exception is reported and turned into \<open>nullopt\<close>.\<close>

definition pem_text :: "plum \<Rightarrow> pem_type \<Rightarrow> string \<Rightarrow> exn + string" where
  "pem_text p t failure =
     (let (len, buffer) = plum_get_dummytls_certificate p t
      in if len < 0 \<or> len \<ge> 8192 then Inl (Runtime_error failure) else Inr buffer)"

definition Server_GetPlumCertificatePair :: "plum \<Rightarrow> CertificatePair option" where
  "Server_GetPlumCertificatePair p =
     (case sbind (pem_text p PEM_FULLCHAIN ''Failed to retrieve DummyTLS certificate'') (\<lambda>c.
           sbind (pem_text p PEM_PRIVKEY ''Failed to retrieve DummyTLS key'') (\<lambda>k.
             Inr \<lparr>certificate = c, key = k\<rparr>)) of
        Inl e \<Rightarrow> None
      | Inr pair \<Rightarrow> Some pair)"

datatype plum_state = PLUM_STATE_SUCCESS | PLUM_STATE_FAILURE | PLUM_STATE_OTHER

record plum_mapping =
  internal_port :: "16 word"
  external_host :: string
  external_port :: "16 word"

definition Server_PlumMappingCallback ::
    "plum \<Rightarrow> int \<Rightarrow> plum_state \<Rightarrow> plum_mapping \<Rightarrow> (server, unit) prog" where
  "Server_PlumMappingCallback p i state mapping s =
     (if i \<noteq> mMappingId s then (Return (), s)
      else
        (case state of
           PLUM_STATE_SUCCESS \<Rightarrow>
             bindp (Server_createWebSocketServer p (internal_port mapping) (Server_GetPlumCertificatePair p))
               (\<lambda>_. Server_updateExternal p (Some (external_host mapping)) (Some (external_port mapping))) s
         | PLUM_STATE_FAILURE \<Rightarrow> Server_updateExternal p None None s
         | PLUM_STATE_OTHER \<Rightarrow> (Return (), s)))"

section \<open>The constructor\<close>

text \<open>The host name and the certificate to use when an external host is configured.\<close>

definition Server_identity :: "plum \<Rightarrow> Configuration \<Rightarrow> string \<Rightarrow> string \<times> CertificatePair option" where
  "Server_identity p config host =
     (case (cfg_tlsPemCertificate config, cfg_tlsPemKey config) of
        (Some c, Some k) \<Rightarrow> (host, Some \<lparr>certificate = c, key = k\<rparr>)
      | _ \<Rightarrow>
          (let (r, buffer) = plum_get_dummytls_host p host
           in ((if r > 0 then buffer else host), Server_GetPlumCertificatePair p)))"

definition Server_external :: "plum \<Rightarrow> Configuration \<Rightarrow> string \<Rightarrow> 16 word \<Rightarrow> (server, unit) prog" where
  "Server_external p config host portNumber s =
     (let externalPort = value_or (cfg_externalPort config) portNumber;
          (externalHost, certPair) = Server_identity p config host
      in bindp (Server_createWebSocketServer p portNumber certPair)
           (\<lambda>_. Server_updateExternal p (Some externalHost) (Some externalPort)) s)"

definition Server_mapped :: "plum \<Rightarrow> Configuration \<Rightarrow> 16 word \<Rightarrow> (server, unit) prog" where
  "Server_mapped p config portNumber s =
     bindp (Server_createWebSocketServer p portNumber None) (\<lambda>_ s.
       (let internal = (case mWebSocketServer s of Some listening \<Rightarrow> listening | None \<Rightarrow> 0);
            s = s\<lparr>mMappingId := plum_create_mapping p internal (value_or (cfg_externalPort config) portNumber)\<rparr>
        in if mMappingId s < 0 then (Throw (Runtime_error ''Mapping creation failed''), s)
           else (Return (), s))) s"

text \<open>\<open>mTlsEnabled\<close> is not initialised before the socket is created: \<open>indeterminate\<close>.\<close>

definition Server_new :: "plum \<Rightarrow> bool \<Rightarrow> Configuration \<Rightarrow> unit outcome \<times> server" where
  "Server_new p indeterminate config =
     catchp
       (\<lambda>s. if plum_init p (cfg_dummyTlsService config) < 0
            then (Throw (Runtime_error ''Initialization failed''), s)
            else
              (case cfg_externalHost config of
                 Some host \<Rightarrow> Server_external p config host (value_or (cfg_port config) 0) s
               | None \<Rightarrow> Server_mapped p config (value_or (cfg_port config) 0) s))
       (\<lambda>e s. (Throw (Runtime_error (''Port mapping failed: '' @ what e)), s))
       \<lparr>mMappingId = - 1, mWebSocketServer = None, mTlsEnabled = indeterminate,
        mExternalHost = None, mExternalPort = None\<rparr>"

section \<open>The destructor and the log\<close>

datatype plum_call = PlumDestroyMapping int | PlumCleanup

text \<open>The calls the destructor makes, in order.\<close>

definition Server_delete :: "server \<Rightarrow> plum_call list" where
  "Server_delete s =
     (if mMappingId s \<ge> 0 then [PlumDestroyMapping (mMappingId s)] else []) @ [PlumCleanup]"

datatype plum_log_level =
    PLUM_LOG_LEVEL_VERBOSE | PLUM_LOG_LEVEL_DEBUG | PLUM_LOG_LEVEL_INFO | PLUM_LOG_LEVEL_WARN
  | PLUM_LOG_LEVEL_ERROR | PLUM_LOG_LEVEL_FATAL | PLUM_LOG_LEVEL_NONE

fun level_str :: "plum_log_level \<Rightarrow> string" where
  "level_str PLUM_LOG_LEVEL_FATAL = ''Fatal''"
| "level_str PLUM_LOG_LEVEL_ERROR = ''Error''"
| "level_str PLUM_LOG_LEVEL_WARN = ''Warning''"
| "level_str PLUM_LOG_LEVEL_INFO = ''Info''"
| "level_str PLUM_LOG_LEVEL_DEBUG = ''Debug''"
| "level_str _ = ''Verbose''"

definition Server_PlumLogCallback :: "plum_log_level \<Rightarrow> string \<Rightarrow> string" where
  "Server_PlumLogCallback level message = ''plum '' @ level_str level @ '': '' @ message"

section \<open>Properties\<close>

text \<open>The decimal text of a port, read back.\<close>

definition decimal_value :: "string \<Rightarrow> nat" where
  "decimal_value s = foldl (\<lambda>v c. 10 * v + (of_char c - 48)) 0 s"

lemma digit_char_value: "d < 10 \<Longrightarrow> of_char (digit_char d) - 48 = d"
  by (simp add: digit_char_def)

lemma decimal_decimal_value: "decimal_value (decimal n) = n"
proof (induction n rule: decimal.induct)
  case (1 n)
  show ?case
  proof (cases "n < 10")
    case True
    then show ?thesis
      by (subst decimal.simps) (simp add: decimal_value_def digit_char_value)
  next
    case False
    have "decimal_value (decimal n) = 10 * decimal_value (decimal (n div 10)) + n mod 10"
      using False by (subst decimal.simps) (simp add: decimal_value_def digit_char_value)
    then show ?thesis
      using 1 False by simp
  qed
qed

lemma decimal_chars: "c \<in> set (decimal n) \<Longrightarrow> 48 \<le> (of_char c :: nat) \<and> of_char c < (58 :: nat)"
proof (induction n rule: decimal.induct)
  case (1 n)
  have digit: "48 \<le> (of_char (digit_char d) :: nat) \<and> of_char (digit_char d) < (58 :: nat)" if "d < 10" for d
    using that by (simp add: digit_char_def)
  show ?case
    using 1 digit [of n] digit [of "n mod 10"]
    by (cases "n < 10") (auto simp: decimal.simps [of n])
qed

lemma generateUrl_started: "mWebSocketServer s \<noteq> None \<longleftrightarrow> (\<exists>url. Server_generateUrl p s = Inr url)"
  by (auto simp: Server_generateUrl_def Let_def split: option.splits)

lemma createWebSocketServer_cases:
  "(\<exists>l. Server_createWebSocketServer p n c s =
      (Return (), s\<lparr>mTlsEnabled := c \<noteq> None, mWebSocketServer := Some l\<rparr>))
   \<or> (\<exists>e. Server_createWebSocketServer p n c s =
      (Throw (Runtime_error (''WebSocket server creation failed: '' @ what e)),
       s\<lparr>mWebSocketServer := None, mTlsEnabled := c \<noteq> None\<rparr>))"
proof (cases "WebSocketServer_new p n c")
  case (Inl e)
  then show ?thesis
    unfolding Server_createWebSocketServer_def by (intro disjI2 exI [of _ e]) simp
next
  case (Inr l)
  then show ?thesis
    unfolding Server_createWebSocketServer_def by (intro disjI1 exI [of _ l]) simp
qed

lemma updateExternal_started:
  "mWebSocketServer s \<noteq> None \<Longrightarrow>
   Server_updateExternal p h n s = (Return (), s\<lparr>mExternalHost := h, mExternalPort := n\<rparr>)"
  by (auto simp: Server_updateExternal_def Let_def Server_generateUrl_def split: option.splits)

lemma Server_external_Return:
  assumes "Server_external p config host n s = (Return (), s')"
  shows "mWebSocketServer s' \<noteq> None
    \<and> mExternalHost s' = Some (fst (Server_identity p config host))
    \<and> mExternalPort s' = Some (value_or (cfg_externalPort config) n)
    \<and> (mTlsEnabled s' \<longleftrightarrow> snd (Server_identity p config host) \<noteq> None)
    \<and> mMappingId s' = mMappingId s"
proof -
  obtain h c where hc: "Server_identity p config host = (h, c)"
    by fastforce
  have eq: "Server_external p config host n s =
      bindp (Server_createWebSocketServer p n c)
        (\<lambda>_. Server_updateExternal p (Some h) (Some (value_or (cfg_externalPort config) n))) s"
    by (simp add: Server_external_def hc)
  show ?thesis
    using createWebSocketServer_cases [of p n c s] assms unfolding eq hc
    by (auto simp: bindp_def updateExternal_started)
qed

lemma Server_mapped_Return:
  assumes "Server_mapped p config n s = (Return (), s')"
  shows "mWebSocketServer s' \<noteq> None \<and> 0 \<le> mMappingId s'"
  using createWebSocketServer_cases [of p n None s] assms
  by (auto simp: Server_mapped_def bindp_def Let_def split: if_splits)

text \<open>C40: the server's constructor either throws, always with the text "Port mapping failed: "
  and the reason, or leaves a server whose URL can be given. Without a configured external host
  a mapping has then been requested, and the destructor destroys it before it cleans up; with
  one, the server announces the host chosen for it, the configured external port or else the
  configured port, and TLS exactly when it has a certificate, and there is no mapping to destroy.\<close>

theorem constructed_server_has_url:
  "case Server_new p indeterminate config of
     (Return _, s) \<Rightarrow> (\<exists>url. Server_url p s = Inr url)
       \<and> (cfg_externalHost config = None \<longrightarrow>
            Server_delete s = [PlumDestroyMapping (mMappingId s), PlumCleanup])
       \<and> (\<forall>host. cfg_externalHost config = Some host \<longrightarrow>
            mExternalHost s = Some (fst (Server_identity p config host))
            \<and> mExternalPort s = Some (value_or (cfg_externalPort config) (value_or (cfg_port config) 0))
            \<and> (mTlsEnabled s \<longleftrightarrow> snd (Server_identity p config host) \<noteq> None)
            \<and> Server_delete s = [PlumCleanup])
   | (Throw e, s) \<Rightarrow> (\<exists>reason. e = Runtime_error (''Port mapping failed: '' @ reason))
   | (Overflow, s) \<Rightarrow> False"
proof -
  let ?s = "\<lparr>mMappingId = - 1, mWebSocketServer = None, mTlsEnabled = indeterminate,
        mExternalHost = None, mExternalPort = None\<rparr>"
  let ?n = "value_or (cfg_port config) 0"
  have over: "fst (Server_external p config h ?n ?s) \<noteq> Overflow" "fst (Server_mapped p config ?n ?s) \<noteq> Overflow" for h
    by (auto simp: Server_external_def Server_mapped_def Server_createWebSocketServer_def Server_updateExternal_def
        bindp_def Let_def split: sum.splits prod.splits outcome.splits)
  show ?thesis
  proof (cases "plum_init p (cfg_dummyTlsService config) < 0")
    case True
    then show ?thesis
      by (simp add: Server_new_def catchp_def)
  next
    case False
    show ?thesis
    proof (cases "cfg_externalHost config")
      case None
      then show ?thesis
        using False over(2) Server_mapped_Return [of p config ?n ?s]
        by (auto simp: Server_new_def catchp_def Server_url_def Server_delete_def generateUrl_started [symmetric] split: prod.splits outcome.splits)
    next
      case (Some h)
      then show ?thesis
        using False over(1) [of h] Server_external_Return [of p config h ?n ?s]
        by (auto simp: Server_new_def catchp_def Server_url_def Server_delete_def generateUrl_started [symmetric] split: prod.splits outcome.splits)
    qed
  qed
qed

text \<open>A report about another mapping changes nothing; a successful mapping makes the server
  reachable at the reported host and port, over TLS exactly when a certificate was obtained; a
  failed mapping falls back to the local address and the listening port.\<close>

lemma mapping_callback_sets_address:
  assumes "mWebSocketServer s \<noteq> None"
  shows "(i \<noteq> mMappingId s \<longrightarrow> Server_PlumMappingCallback p i state m s = (Return (), s))
    \<and> (i = mMappingId s \<longrightarrow>
       Server_PlumMappingCallback p i PLUM_STATE_FAILURE m s =
         (Return (), s\<lparr>mExternalHost := None, mExternalPort := None\<rparr>))
    \<and> (i = mMappingId s \<longrightarrow> WebSocketServer_new p (internal_port m) (Server_GetPlumCertificatePair p) = Inr l \<longrightarrow>
       CHR '':'' \<notin> set (external_host m) \<longrightarrow>
       (\<exists>s'. Server_PlumMappingCallback p i PLUM_STATE_SUCCESS m s = (Return (), s')
          \<and> Server_url p s' = Inr ((if Server_GetPlumCertificatePair p \<noteq> None then ''wss://'' else ''ws://'')
              @ external_host m @ '':'' @ decimal (unat (external_port m)) @ ''/'')
          \<and> decimal_value (decimal (unat (external_port m))) = unat (external_port m)))"
  using assms updateExternal_started [of s p None None]
  by (auto simp: Server_PlumMappingCallback_def Server_createWebSocketServer_def bindp_def
      updateExternal_started Server_url_def Server_generateUrl_def value_or_def decimal_decimal_value)

definition demo_plum :: plum where
  "demo_plum =
     \<lparr>plum_init = (\<lambda>_. 0), plum_get_dummytls_host = (\<lambda>h. (0, h)),
      plum_get_dummytls_certificate = (\<lambda>_. (- 1, [])), plum_get_local_address = (0, ''10.0.0.2''),
      plum_create_mapping = (\<lambda>_ _. 0), WebSocketServer_new = (\<lambda>n _. Inr n)\<rparr>"

definition demo_server :: server where
  "demo_server =
     \<lparr>mMappingId = 0, mWebSocketServer = Some 8080, mTlsEnabled = True, mExternalHost = None, mExternalPort = None\<rparr>"

theorem constructed_server_has_url_witness:
  "Server_delete (snd (Server_new demo_plum False Configuration_default)) = [PlumDestroyMapping 0, PlumCleanup]
   \<and> mExternalHost (snd (Server_new demo_plum False
        (Configuration_default\<lparr>cfg_externalHost := Some ''example.org''\<rparr>))) = Some ''example.org''"
  using constructed_server_has_url [where p = demo_plum and indeterminate = False and config = Configuration_default]
    constructed_server_has_url [where p = demo_plum and indeterminate = False and
        config = "Configuration_default\<lparr>cfg_externalHost := Some ''example.org''\<rparr>"]
  by (simp add: Server_new_def catchp_def Configuration_default_def demo_plum_def Server_mapped_def
      Server_external_def Server_identity_def Server_createWebSocketServer_def Server_updateExternal_def
      Server_generateUrl_def bindp_def value_or_def Let_def)

end
