(* ===== verification/Scheduler.thy ===== *)
theory Scheduler
  imports Prelude
begin

text \<open>
  The task scheduler (\<open>src/impl/scheduler.hpp\<close>, \<open>scheduler.cpp\<close>): tasks ordered by due time and
  by order of submission, run when due. What a task does is a function of the task identifier
  \<open>'f\<close> that may itself change the scheduler; the clock is a sequence of readings.
\<close>

section \<open>State\<close>

text \<open>\<open>TaskIdentifier\<close>, a \<open>std::pair\<close>: pairs compare by the first component, then by the second.\<close>

datatype task_id = TaskIdentifier (due_time: int) (task_number: int)

instantiation task_id :: linorder
begin

definition less_task_id :: "task_id \<Rightarrow> task_id \<Rightarrow> bool" where
  "a < b \<longleftrightarrow> due_time a < due_time b \<or> due_time a = due_time b \<and> task_number a < task_number b"

definition less_eq_task_id :: "task_id \<Rightarrow> task_id \<Rightarrow> bool" where
  "a \<le> b \<longleftrightarrow> a < b \<or> a = (b :: task_id)"

instance
  by intro_classes (auto simp: less_task_id_def less_eq_task_id_def intro: task_id.expand)

end

text \<open>\<open>sc_reads\<close> counts the calls of \<open>clock::now()\<close>, \<open>sc_cerr\<close> records what is reported on \<open>std::cerr\<close>.\<close>

record 'f scheduler =
  mTasks :: "(task_id \<times> 'f) list"
  mNextTaskNumber :: int
  sc_reads :: nat
  sc_cerr :: "exn list"

definition Scheduler_new :: "'f scheduler" where
  "Scheduler_new = \<lparr>mTasks = [], mNextTaskNumber = 0, sc_reads = 0, sc_cerr = []\<rparr>"

definition clock_now :: "(nat \<Rightarrow> int) \<Rightarrow> ('f, 'z) scheduler_scheme \<Rightarrow> int \<times> ('f, 'z) scheduler_scheme" where
  "clock_now clk s = (clk (sc_reads s), s\<lparr>sc_reads := sc_reads s + 1\<rparr>)"

section \<open>Submitting and cancelling\<close>

text \<open>\<open>std::map::emplace\<close>: entries in increasing order of key, an existing key is left alone.\<close>

fun map_emplace :: "task_id \<Rightarrow> 'f \<Rightarrow> (task_id \<times> 'f) list \<Rightarrow> (task_id \<times> 'f) list" where
  "map_emplace k f [] = [(k, f)]"
| "map_emplace k f (e # es) =
     (if k < fst e then (k, f) # e # es
      else if k = fst e then e # es
      else e # map_emplace k f es)"

definition Scheduler_schedule ::
    "int \<Rightarrow> 'f \<Rightarrow> ('f, 'z) scheduler_scheme \<Rightarrow> task_id \<times> ('f, 'z) scheduler_scheme" where
  "Scheduler_schedule time f s =
     (let number = mNextTaskNumber s;
          s = s\<lparr>mNextTaskNumber := number + 1\<rparr>;
          i = TaskIdentifier time number
      in (i, s\<lparr>mTasks := map_emplace i f (mTasks s)\<rparr>))"

definition Scheduler_enqueue ::
    "(nat \<Rightarrow> int) \<Rightarrow> 'f \<Rightarrow> ('f, 'z) scheduler_scheme \<Rightarrow> task_id \<times> ('f, 'z) scheduler_scheme" where
  "Scheduler_enqueue clk f s = (let (now, s) = clock_now clk s in Scheduler_schedule now f s)"

definition Scheduler_schedule_after ::
    "(nat \<Rightarrow> int) \<Rightarrow> int \<Rightarrow> 'f \<Rightarrow> ('f, 'z) scheduler_scheme \<Rightarrow> task_id \<times> ('f, 'z) scheduler_scheme" where
  "Scheduler_schedule_after clk delay f s =
     (let (now, s) = clock_now clk s in Scheduler_schedule (now + delay) f s)"

definition Scheduler_cancel ::
    "task_id \<Rightarrow> ('f, 'z) scheduler_scheme \<Rightarrow> bool \<times> ('f, 'z) scheduler_scheme" where
  "Scheduler_cancel i s =
     (i \<in> fst ` set (mTasks s), s\<lparr>mTasks := filter (\<lambda>e. fst e \<noteq> i) (mTasks s)\<rparr>)"

section \<open>Running\<close>

definition Scheduler_dequeue ::
    "(nat \<Rightarrow> int) \<Rightarrow> ('f, 'z) scheduler_scheme \<Rightarrow> 'f option \<times> ('f, 'z) scheduler_scheme" where
  "Scheduler_dequeue clk s =
     (case mTasks s of
        [] \<Rightarrow> (None, s)
      | (TaskIdentifier time number, f) # rest \<Rightarrow>
          (let (now, s) = clock_now clk s
           in if time > now then (None, s) else (Some f, s\<lparr>mTasks := rest\<rparr>)))"

definition Scheduler_report :: "exn \<Rightarrow> (('f, 'z) scheduler_scheme \<times> 'w, unit) prog" where
  "Scheduler_report e st = (Return (), ((fst st)\<lparr>sc_cerr := sc_cerr (fst st) @ [e]\<rparr>, snd st))"

definition Scheduler_runOne ::
    "('f \<Rightarrow> (('f, 'z) scheduler_scheme \<times> 'w, unit) prog) \<Rightarrow> (nat \<Rightarrow> int)
     \<Rightarrow> (('f, 'z) scheduler_scheme \<times> 'w, bool) prog" where
  "Scheduler_runOne task clk st =
     (let (next, s) = Scheduler_dequeue clk (fst st)
      in case next of
           None \<Rightarrow> (Return False, (s, snd st))
         | Some f \<Rightarrow> bindp (catchp (task f) Scheduler_report) (\<lambda>_ st. (Return True, st)) (s, snd st))"

text \<open>\<open>while (runOne()) {}\<close> may run for ever, when tasks keep submitting due tasks: then the value is \<open>None\<close>.\<close>

partial_function (option) Scheduler_run ::
    "('f \<Rightarrow> (('f, 'z) scheduler_scheme \<times> 'w, unit) prog) \<Rightarrow> (nat \<Rightarrow> int)
     \<Rightarrow> ('f, 'z) scheduler_scheme \<times> 'w \<Rightarrow> (unit outcome \<times> ('f, 'z) scheduler_scheme \<times> 'w) option" where
  "Scheduler_run task clk st =
     (case Scheduler_runOne task clk st of
        (Return again, st) \<Rightarrow> if again then Scheduler_run task clk st else Some (Return (), st)
      | (Throw e, st) \<Rightarrow> Some (Throw e, st)
      | (Overflow, st) \<Rightarrow> Some (Overflow, st))"

section \<open>The order of the tasks\<close>

definition in_order :: "(task_id \<times> 'f) list \<Rightarrow> bool" where
  "in_order es \<longleftrightarrow> sorted_wrt (<) (map fst es)"

definition sched_ok :: "('f, 'z) scheduler_scheme \<Rightarrow> bool" where
  "sched_ok s \<longleftrightarrow> in_order (mTasks s) \<and> (\<forall>e \<in> set (mTasks s). task_number (fst e) < mNextTaskNumber s)"

lemma map_emplace_set: "k \<notin> fst ` set es \<Longrightarrow> set (map_emplace k f es) = insert (k, f) (set es)"
  by (induction es) auto

lemma map_emplace_subset: "set (map_emplace k f es) \<subseteq> insert (k, f) (set es)"
  by (induction es) auto

lemma map_emplace_order: "in_order es \<Longrightarrow> in_order (map_emplace k f es)"
proof (induction es)
  case (Cons e es)
  then show ?case
    using map_emplace_subset [of k f es] by (fastforce simp: in_order_def)
qed (simp add: in_order_def)

datatype 'f sched_op =
    Submit int 'f
  | SubmitNow 'f
  | SubmitAfter int 'f
  | Cancel task_id
  | Dequeue

fun sched_step :: "(nat \<Rightarrow> int) \<Rightarrow> 'f sched_op \<Rightarrow> ('f, 'z) scheduler_scheme \<Rightarrow> ('f, 'z) scheduler_scheme" where
  "sched_step clk (Submit time f) s = snd (Scheduler_schedule time f s)"
| "sched_step clk (SubmitNow f) s = snd (Scheduler_enqueue clk f s)"
| "sched_step clk (SubmitAfter delay f) s = snd (Scheduler_schedule_after clk delay f s)"
| "sched_step clk (Cancel i) s = snd (Scheduler_cancel i s)"
| "sched_step clk Dequeue s = snd (Scheduler_dequeue clk s)"

lemma schedule_ok:
  assumes "sched_ok s"
  shows "sched_ok (snd (Scheduler_schedule time f s))"
proof -
  have "in_order (map_emplace (TaskIdentifier time (mNextTaskNumber s)) f (mTasks s))"
    using assms map_emplace_order by (auto simp: sched_ok_def)
  moreover have "\<forall>e \<in> set (map_emplace (TaskIdentifier time (mNextTaskNumber s)) f (mTasks s)). task_number (fst e) < mNextTaskNumber s + 1"
    using assms map_emplace_subset [of "TaskIdentifier time (mNextTaskNumber s)" f "mTasks s"] by (fastforce simp: sched_ok_def)
  ultimately show ?thesis
    by (simp add: Scheduler_schedule_def sched_ok_def Let_def)
qed

lemma sched_ok_reads [simp]: "sched_ok (s\<lparr>sc_reads := n\<rparr>) = sched_ok s"
  by (simp add: sched_ok_def)

lemma dequeue_tasks:
  "mTasks (snd (Scheduler_dequeue clk s)) = mTasks s \<or> mTasks (snd (Scheduler_dequeue clk s)) = tl (mTasks s)"
  "mNextTaskNumber (snd (Scheduler_dequeue clk s)) = mNextTaskNumber s"
  by (auto simp: Scheduler_dequeue_def clock_now_def split: list.split prod.split task_id.split)

lemma dequeue_ok: "sched_ok s \<Longrightarrow> sched_ok (snd (Scheduler_dequeue clk s))"
  using dequeue_tasks [of clk s] by (cases "mTasks s") (auto simp: sched_ok_def in_order_def)

lemma sched_step_ok: "sched_ok s \<Longrightarrow> sched_ok (sched_step clk op s)"
proof (cases op)
  case (Cancel i)
  then show "sched_ok s \<Longrightarrow> ?thesis"
    by (auto simp: Scheduler_cancel_def sched_ok_def in_order_def sorted_wrt_map sorted_wrt_filter)
qed (simp_all add: schedule_ok dequeue_ok Scheduler_enqueue_def Scheduler_schedule_after_def clock_now_def)

interpretation sched_run: preserved "sched_step clk" sched_ok for clk
  by unfold_locales (rule sched_step_ok)

lemma Scheduler_new_ok: "sched_ok Scheduler_new"
  by (simp add: Scheduler_new_def sched_ok_def in_order_def)

lemma next_number:
  "mNextTaskNumber (sched_step clk op s) = mNextTaskNumber s
   \<or> mNextTaskNumber (sched_step clk op s) = mNextTaskNumber s + 1"
  by (cases op) (simp_all add: Scheduler_schedule_def Scheduler_enqueue_def Scheduler_schedule_after_def
    Scheduler_cancel_def clock_now_def Let_def dequeue_tasks)

lemma next_number_bound:
  "mNextTaskNumber s \<le> mNextTaskNumber (fold (sched_step clk) ops s)
   \<and> mNextTaskNumber (fold (sched_step clk) ops s) \<le> mNextTaskNumber s + int (length ops)"
proof (induction ops arbitrary: s)
  case (Cons op ops)
  show ?case
    using Cons.IH [of "sched_step clk op s"] next_number [of clk op s]
    by (simp only: fold_simps list.size) linarith
qed simp

text \<open>After any sequence of submissions, cancellations and dequeuings the tasks are in order of
  due time, and of submission among equal times, without duplicates; a submitted task is always
  entered, under an identifier never used before, and cancelling an identifier removes exactly
  its task and says whether there was one. The next number, an \<open>int\<close> of the program, is at most
  the number of operations, so it does not overflow in the first \<open>2 ^ 31 - 1\<close> of them.\<close>

lemma tasks_stay_ordered:
  "let s = fold (sched_step clk) ops Scheduler_new;
       (i, s') = Scheduler_schedule time f s;
       (found, s'') = Scheduler_cancel j s
   in in_order (mTasks s) \<and> 0 \<le> mNextTaskNumber s \<and> mNextTaskNumber s \<le> int (length ops) \<and> distinct (map fst (mTasks s))
      \<and> i \<notin> fst ` set (mTasks s) \<and> set (mTasks s') = insert (i, f) (set (mTasks s))
      \<and> (found \<longleftrightarrow> j \<in> fst ` set (mTasks s)) \<and> set (mTasks s'') = {e \<in> set (mTasks s). fst e \<noteq> j}"
proof -
  let ?s = "fold (sched_step clk) ops Scheduler_new"
  have ok: "sched_ok ?s"
    by (rule sched_run.run_inv [OF Scheduler_new_ok])
  then have "TaskIdentifier time (mNextTaskNumber ?s) \<notin> fst ` set (mTasks ?s)"
    by (fastforce simp: sched_ok_def)
  moreover have "distinct (map fst (mTasks ?s))"
    using ok by (simp add: sched_ok_def in_order_def strict_sorted_iff)
  moreover note next_number_bound [of Scheduler_new clk ops]
  ultimately show ?thesis
    using ok by (auto simp: Scheduler_schedule_def Scheduler_cancel_def Let_def map_emplace_set sched_ok_def Scheduler_new_def)
qed

section \<open>Running the tasks that are due\<close>

text \<open>Tasks that leave the scheduler alone: what they do is a function of the rest of the state.\<close>

definition plain_tasks ::
    "('f \<Rightarrow> (('f, 'z) scheduler_scheme \<times> 'w, unit) prog) \<Rightarrow> ('f \<Rightarrow> 'w \<Rightarrow> exn option \<times> 'w) \<Rightarrow> bool" where
  "plain_tasks task effect \<longleftrightarrow>
     (\<forall>f s w. task f (s, w) =
        ((case fst (effect f w) of None \<Rightarrow> Return () | Some e \<Rightarrow> Throw e), (s, snd (effect f w))))"

text \<open>The exceptions that tasks run one after the other end with, in order.\<close>

primrec thrown :: "('f \<Rightarrow> 'w \<Rightarrow> exn option \<times> 'w) \<Rightarrow> (task_id \<times> 'f) list \<Rightarrow> 'w \<Rightarrow> exn list" where
  "thrown effect [] w = []"
| "thrown effect (e # es) w =
     (case fst (effect (snd e) w) of None \<Rightarrow> [] | Some x \<Rightarrow> [x]) @ thrown effect es (snd (effect (snd e) w))"

lemma run_plain:
  assumes "plain_tasks task effect" "\<forall>n. clk n = now"
  shows "in_order (mTasks s) \<Longrightarrow>
    \<exists>s'. Scheduler_run task clk (s, w) =
      Some (Return (), (s', fold (\<lambda>e. snd \<circ> effect (snd e)) (takeWhile (\<lambda>e. due_time (fst e) \<le> now) (mTasks s)) w))
    \<and> mTasks s' = dropWhile (\<lambda>e. due_time (fst e) \<le> now) (mTasks s)
    \<and> sc_cerr s' = sc_cerr s @ thrown effect (takeWhile (\<lambda>e. due_time (fst e) \<le> now) (mTasks s)) w"
proof (induction "mTasks s" arbitrary: s w)
  case Nil
  then have none: "mTasks s = []"
    by simp
  then have "Scheduler_runOne task clk (s, w) = (Return False, (s, w))"
    by (simp add: Scheduler_runOne_def Scheduler_dequeue_def)
  then show ?case
    using none by (subst Scheduler_run.simps) simp
next
  case (Cons e es)
  obtain time number f where e: "e = (TaskIdentifier time number, f)"
    by (metis prod.collapse task_id.collapse)
  have tasks: "mTasks s = (TaskIdentifier time number, f) # es"
    using Cons.hyps(2) e by simp
  show ?case
  proof (cases "time > now")
    case True
    then have "Scheduler_runOne task clk (s, w) = (Return False, (s\<lparr>sc_reads := sc_reads s + 1\<rparr>, w))"
      using assms(2) by (simp add: Scheduler_runOne_def Scheduler_dequeue_def tasks clock_now_def)
    then show ?thesis
      using True by (subst Scheduler_run.simps) (simp add: tasks)
  next
    case False
    let ?s = "s\<lparr>sc_reads := sc_reads s + 1, mTasks := es\<rparr>"
    let ?cerr = "sc_cerr s @ (case fst (effect f w) of None \<Rightarrow> [] | Some x \<Rightarrow> [x])"
    have one: "Scheduler_runOne task clk (s, w) = (Return True, (?s\<lparr>sc_cerr := ?cerr\<rparr>, snd (effect f w)))"
      using assms False
      by (cases "fst (effect f w)") (simp_all add: Scheduler_runOne_def Scheduler_dequeue_def tasks clock_now_def
          plain_tasks_def catchp_def bindp_def Scheduler_report_def)
    have "es = mTasks (?s\<lparr>sc_cerr := ?cerr\<rparr>)" "in_order (mTasks (?s\<lparr>sc_cerr := ?cerr\<rparr>))"
      using Cons.prems by (simp_all add: tasks in_order_def)
    from Cons.hyps(1) [OF this, of "snd (effect f w)"] show ?thesis
      using False by (subst Scheduler_run.simps) (simp add: one tasks)
  qed
qed

text \<open>C34: after any submissions, cancellations and dequeuings, \<open>run\<close> ends and executes exactly the
  tasks that are due, in order of due time and, among equal times, of the number they were
  submitted under, which is greater for every later submission (and, an \<open>int\<close> of the program, at
  most the number of these operations, so it does not overflow in \<open>2 ^ 31 - 1\<close> of them); the exception of a task that throws is
  reported on \<open>cerr\<close>, in that order, and does not keep the later tasks from running; the tasks not yet
  due stay. (For tasks that do not use the scheduler, during a run in which the clock stands
  still.)\<close>

theorem run_executes_due_tasks:
  assumes "plain_tasks task effect" "\<forall>n. clk n = now"
    and "s = fold (sched_step clk) ops Scheduler_new"
  shows "let due = filter (\<lambda>e. due_time (fst e) \<le> now) (mTasks s)
    in sorted_wrt (\<lambda>a b. due_time (fst a) < due_time (fst b)
           \<or> due_time (fst a) = due_time (fst b) \<and> task_number (fst a) < task_number (fst b)) due
      \<and> (\<forall>e \<in> set (mTasks s). task_number (fst e) < task_number (fst (Scheduler_schedule time f s)))
      \<and> mNextTaskNumber s \<le> int (length ops)
      \<and> (\<exists>s'. Scheduler_run task clk (s, w) = Some (Return (), (s', fold (\<lambda>e. snd \<circ> effect (snd e)) due w))
           \<and> mTasks s' = filter (\<lambda>e. due_time (fst e) > now) (mTasks s)
           \<and> sc_cerr s' = sc_cerr s @ thrown effect due w)"
proof -
  have ok: "sched_ok s"
    unfolding assms(3) by (rule sched_run.run_inv [OF Scheduler_new_ok])
  then have order: "in_order (mTasks s)"
    by (simp add: sched_ok_def)
  have "sorted_wrt (\<lambda>a b. due_time (fst a) < due_time (fst b)
      \<or> due_time (fst a) = due_time (fst b) \<and> task_number (fst a) < task_number (fst b)) (mTasks s)"
    using order by (simp add: in_order_def sorted_wrt_map less_task_id_def)
  then have sorted: "sorted_wrt (\<lambda>a b. due_time (fst a) < due_time (fst b)
      \<or> due_time (fst a) = due_time (fst b) \<and> task_number (fst a) < task_number (fst b))
      (filter (\<lambda>e. due_time (fst e) \<le> now) (mTasks s))"
    by (rule sorted_wrt_filter)
  have "takeWhile (\<lambda>e. due_time (fst e) \<le> now) es = filter (\<lambda>e. due_time (fst e) \<le> now) es
      \<and> dropWhile (\<lambda>e. due_time (fst e) \<le> now) es = filter (\<lambda>e. due_time (fst e) > now) es"
    if "in_order es" for es :: "(task_id \<times> 'a) list"
    using that
  proof (induction es)
    case (Cons e es)
    have later: "\<forall>x \<in> set es. due_time (fst x) > now" if "\<not> due_time (fst e) \<le> now"
      using Cons.prems that by (fastforce simp: in_order_def less_task_id_def)
    have es: "in_order es"
      using Cons.prems by (simp add: in_order_def)
    show ?case
    proof (cases "due_time (fst e) \<le> now")
      case True
      then show ?thesis
        using Cons.IH [OF es] by simp
    next
      case False
      have "filter (\<lambda>e. due_time (fst e) \<le> now) es = []" "filter (\<lambda>e. due_time (fst e) > now) es = es"
        using later [OF False] by (auto simp: filter_empty_conv filter_id_conv)
      with False show ?thesis
        by simp
    qed
  qed simp
  moreover have "mNextTaskNumber s \<le> int (length ops)"
    using next_number_bound [of Scheduler_new clk ops] by (simp add: assms(3) Scheduler_new_def)
  ultimately show ?thesis
    using run_plain [OF assms(1,2) order, of w] order sorted ok
    by (simp add: Let_def sched_ok_def Scheduler_schedule_def)
qed

definition demo_tasks :: "int \<Rightarrow> (int scheduler \<times> int list, unit) prog" where
  "demo_tasks f st =
     ((if f < 0 then Throw (Logic_error ''task'') else Return ()), (fst st, snd st @ [f]))"

theorem run_executes_due_tasks_witness:
  "\<exists>s'. Scheduler_run demo_tasks (\<lambda>_. 10)
       (fold (sched_step (\<lambda>_. 10)) [Submit 9 1, Submit 20 2, Submit 3 (- 5), Submit 9 4] Scheduler_new, []) =
     Some (Return (), (s', [- 5, 1, 4])) \<and> mTasks s' = [(TaskIdentifier 20 1, 2)] \<and> sc_cerr s' = [Logic_error ''task'']"
proof -
  have "plain_tasks demo_tasks (\<lambda>f w. ((if f < 0 then Some (Logic_error ''task'') else None), w @ [f]))"
    by (simp add: plain_tasks_def demo_tasks_def)
  note run = run_executes_due_tasks [OF this, of "\<lambda>_. 10" 10
      "fold (sched_step (\<lambda>_. 10)) [Submit 9 1, Submit 20 2, Submit 3 (- 5), Submit 9 4] Scheduler_new" _ 0 0 "[]"]
  have "mTasks (fold (sched_step (\<lambda>_. 10)) [Submit 9 1, Submit 20 2, Submit 3 (- 5), Submit 9 4] Scheduler_new) =
      [(TaskIdentifier 3 2, - 5), (TaskIdentifier 9 0, 1), (TaskIdentifier 9 3, 4 :: int), (TaskIdentifier 20 1, 2)]"
    "sc_cerr (fold (sched_step (\<lambda>_. 10)) [Submit 9 1, Submit 20 2, Submit 3 (- 5), Submit 9 (4 :: int)] Scheduler_new) = []"
    by (simp_all add: Scheduler_schedule_def Scheduler_new_def Let_def less_task_id_def)
  with run [OF _ refl] show ?thesis
    by (simp add: Let_def)
qed

end
