(* ===== verification/Hex_Codec.thy ===== *)
theory Hex_Codec
  imports Binary
begin

text \<open>
  \<open>to_hex\<close> and \<open>from_hex\<close> (\<open>src/binary.cpp\<close>). Both go through the stream library: the
  insertion of an \<open>unsigned\<close> with \<open>std::hex\<close>, \<open>std::uppercase\<close>, \<open>setfill('0')\<close> and
  \<open>setw(2)\<close>, and the extraction of an \<open>unsigned\<close> with \<open>std::hex\<close>, which are modelled on
  the text they format and parse.
\<close>

section \<open>Stream insertion and extraction in base 16\<close>

definition hex_digit :: "nat \<Rightarrow> char" where
  "hex_digit n = ''0123456789ABCDEF'' ! n"

fun hex_digits :: "nat \<Rightarrow> string" where
  "hex_digits n = (if n < 16 then [hex_digit n] else hex_digits (n div 16) @ [hex_digit (n mod 16)])"

declare hex_digits.simps [simp del]

definition set_width :: "nat \<Rightarrow> char \<Rightarrow> string \<Rightarrow> string" where
  "set_width w fill s = replicate (w - length s) fill @ s"

text \<open>The characters \<open>std::isspace\<close> accepts in the classic locale.\<close>

definition is_space :: "char \<Rightarrow> bool" where
  "is_space c \<longleftrightarrow> (let n = (of_char c :: nat) in n = 32 \<or> (9 \<le> n \<and> n \<le> 13))"

definition hex_value :: "char \<Rightarrow> nat option" where
  "hex_value c =
     (let n = (of_char c :: nat)
      in if 48 \<le> n \<and> n \<le> 57 then Some (n - 48)
         else if 65 \<le> n \<and> n \<le> 70 then Some (n - 55)
         else if 97 \<le> n \<and> n \<le> 102 then Some (n - 87)
         else None)"

definition skip_sign :: "string \<Rightarrow> bool \<times> string" where
  "skip_sign s =
     (case s of
        [] \<Rightarrow> (False, [])
      | c # r \<Rightarrow> if c = CHR ''-'' then (True, r) else if c = CHR ''+'' then (False, r) else (False, s))"

definition skip_0x :: "string \<Rightarrow> string" where
  "skip_0x s =
     (case s of
        a # b # r \<Rightarrow> if a = CHR ''0'' \<and> (b = CHR ''x'' \<or> b = CHR ''X'') then r else s
      | _ \<Rightarrow> s)"

fun hex_prefix :: "string \<Rightarrow> nat list" where
  "hex_prefix [] = []"
| "hex_prefix (c # s) = (case hex_value c of None \<Rightarrow> [] | Some d \<Rightarrow> d # hex_prefix s)"

text \<open>
  \<open>iss >> std::hex >> value\<close> for an \<open>unsigned\<close>: leading white space, an optional sign, an
  optional \<open>0x\<close>, then as many digits as there are. No digit, or a value that does not fit,
  fails; a minus sign negates modulo \<open>2 ^ 32\<close>; what follows the digits is not read.
\<close>

definition istream_hex :: "string \<Rightarrow> 32 word option" where
  "istream_hex s =
     (let (neg, s') = skip_sign (dropWhile is_space s);
          ds = hex_prefix (skip_0x s');
          v = foldl (\<lambda>a d. 16 * a + d) 0 ds
      in if ds = [] \<or> 2 ^ 32 \<le> v then None
         else Some (if neg then - of_nat v else of_nat v))"

section \<open>to\_hex and from\_hex\<close>

definition to_hex :: "binary \<Rightarrow> string" where
  "to_hex bin = concat (map (\<lambda>b. set_width 2 CHR ''0'' (hex_digits (unat b))) bin)"

text \<open>One turn of the loop of \<open>from_hex\<close>, on the one or two characters it reads.\<close>

definition from_hex_pair :: "string \<Rightarrow> exn + byte" where
  "from_hex_pair s =
     (case istream_hex s of
        None \<Rightarrow> Inl (Invalid_argument ''invalid hexadecimal representation'')
      | Some value \<Rightarrow> Inr (ucast (and value 0xFF)))"

fun from_hex :: "string \<Rightarrow> exn + binary" where
  "from_hex [] = Inr []"
| "from_hex [a] = sbind (from_hex_pair [a, CHR ''0'']) (\<lambda>b. Inr [b])"
| "from_hex (a # b # str) =
     sbind (from_hex_pair [a, b]) (\<lambda>v. sbind (from_hex str) (\<lambda>out. Inr (v # out)))"

section \<open>What the digits mean\<close>

lemma less16:
  assumes "n < (16::nat)"
  shows "n \<in> {0, 1, 2, 3, 4, 5, 6, 7, 8, 9, 10, 11, 12, 13, 14, 15}"
  using assms by (auto simp: numeral_eq_Suc less_Suc_eq)

lemma hex_digit_facts:
  assumes "n < 16"
  shows "hex_value (hex_digit n) = Some n" "\<not> is_space (hex_digit n)"
    "hex_digit n \<noteq> CHR ''-''" "hex_digit n \<noteq> CHR ''+''"
    "hex_digit n \<noteq> CHR ''x''" "hex_digit n \<noteq> CHR ''X''"
  using less16 [OF assms]
  by (auto simp add: hex_digit_def hex_value_def is_space_def)

lemma istream_hex_two:
  assumes "hex_value a = Some x" "hex_value b = Some y" "x < 16" "y < 16"
    "\<not> is_space a" "a \<noteq> CHR ''-''" "a \<noteq> CHR ''+''" "b \<noteq> CHR ''x''" "b \<noteq> CHR ''X''"
  shows "istream_hex [a, b] = Some (of_nat (16 * x + y))"
  using assms by (simp add: istream_hex_def skip_sign_def skip_0x_def)

lemma byte_hex:
  "set_width 2 CHR ''0'' (hex_digits (unat b)) =
     [hex_digit (unat b div 16), hex_digit (unat (b::byte) mod 16)]"
proof -
  have "unat b < 256"
    using unsigned_less [of b, where ?'a = nat] by simp
  then show ?thesis
    by (auto simp: hex_digits.simps [of "unat b"] hex_digits.simps [of "unat b div 16"]
        set_width_def hex_digit_def numeral_2_eq_2)
qed

lemma from_hex_pair_digits:
  "from_hex_pair [hex_digit (unat b div 16), hex_digit (unat (b::byte) mod 16)] = Inr b"
proof -
  have "unat b < 256"
    using unsigned_less [of b, where ?'a = nat] by simp
  then have "unat b div 16 < 16"
    by simp
  then have "istream_hex [hex_digit (unat b div 16), hex_digit (unat b mod 16)] =
      Some (of_nat (16 * (unat b div 16) + unat b mod 16))"
    by (intro istream_hex_two) (simp_all add: hex_digit_facts)
  moreover have "of_nat (16 * (unat b div 16) + unat b mod 16) = (ucast b :: 32 word)"
    by (simp add: unsigned_ucast_eq)
  moreover have "and (ucast b :: 32 word) 0xFF = take_bit 8 (ucast b)"
    by (simp add: take_bit_eq_mask mask_eq_exp_minus_1)
  moreover have "ucast (take_bit 8 (ucast b :: 32 word)) = b"
    by (rule bit_word_eqI) (auto simp: bit_simps)
  ultimately show ?thesis
    by (simp add: from_hex_pair_def)
qed

lemma to_hex_Cons:
  "to_hex (b # bin) = hex_digit (unat b div 16) # hex_digit (unat b mod 16) # to_hex bin"
  by (simp add: to_hex_def byte_hex)

lemma to_hex_Nil [simp]: "to_hex [] = []"
  by (simp add: to_hex_def)

lemma length_to_hex [simp]: "length (to_hex bin) = 2 * length bin"
  by (induction bin) (simp_all add: to_hex_Cons)

lemma from_to_hex: "from_hex (to_hex bin) = Inr bin"
  by (induction bin) (simp_all add: to_hex_Cons from_hex_pair_digits)

section \<open>What a pair of characters means\<close>

text \<open>
  Two digits mean their number; a digit before anything else means that digit, except \<open>0x\<close> and
  \<open>0X\<close>, which are the prefix of a number that does not follow; white space or a plus sign before
  a digit is ignored and a minus sign negates it modulo 256. Any other pair means nothing.
\<close>

definition hex_pair :: "char \<Rightarrow> char \<Rightarrow> byte option" where
  "hex_pair a b =
     (case hex_value a of
        Some x \<Rightarrow>
          (case hex_value b of
             Some y \<Rightarrow> Some (of_nat (16 * x + y))
           | None \<Rightarrow> if a = CHR ''0'' \<and> (b = CHR ''x'' \<or> b = CHR ''X'') then None else Some (of_nat x))
      | None \<Rightarrow>
          (case hex_value b of
             Some y \<Rightarrow>
               if is_space a \<or> a = CHR ''+'' then Some (of_nat y)
               else if a = CHR ''-'' then Some (- of_nat y) else None
           | None \<Rightarrow> None))"

text \<open>The pairs \<open>from_hex\<close> reads: an odd last character is completed by a zero.\<close>

fun hex_pairs :: "string \<Rightarrow> (char \<times> char) list" where
  "hex_pairs [] = []"
| "hex_pairs [a] = [(a, CHR ''0'')]"
| "hex_pairs (a # b # s) = (a, b) # hex_pairs s"

lemma hex_value_bound: "hex_value c = Some x \<Longrightarrow> x < 16"
  by (auto simp: hex_value_def Let_def split: if_splits)

lemma hex_value_plain:
  assumes "hex_value c = Some x"
  shows "\<not> is_space c" "c \<noteq> CHR ''-''" "c \<noteq> CHR ''+''" "c \<noteq> CHR ''x''" "c \<noteq> CHR ''X''"
  using assms by (auto simp: hex_value_def is_space_def Let_def split: if_splits)

lemma hex_byte:
  "ucast (and (word_of_nat x) 0xFF :: 32 word) = (word_of_nat x :: byte)"
  "ucast (and (- word_of_nat x) 0xFF :: 32 word) = (- word_of_nat x :: byte)"
proof -
  have low: "ucast (and v 0xFF :: 32 word) = (ucast v :: byte)" for v
  proof -
    have "and v 0xFF = take_bit 8 v"
      by (simp add: take_bit_eq_mask mask_eq_exp_minus_1)
    moreover have "ucast (take_bit 8 v) = (ucast v :: byte)"
      by (rule bit_word_eqI) (auto simp: bit_simps)
    ultimately show ?thesis
      by simp
  qed
  have int: "ucast (word_of_int k :: 32 word) = (word_of_int k :: byte)" for k
    by (rule bit_word_eqI) (simp add: bit_simps)
  show "ucast (and (word_of_nat x) 0xFF :: 32 word) = (word_of_nat x :: byte)"
    unfolding low using int [of "int x"] by simp
  show "ucast (and (- word_of_nat x) 0xFF :: 32 word) = (- word_of_nat x :: byte)"
    unfolding low using int [of "- int x"] by simp
qed

lemma istream_hex_cases:
  "istream_hex [a, b] =
     (case hex_value a of
        Some x \<Rightarrow>
          (case hex_value b of
             Some y \<Rightarrow> Some (of_nat (16 * x + y))
           | None \<Rightarrow> if a = CHR ''0'' \<and> (b = CHR ''x'' \<or> b = CHR ''X'') then None else Some (of_nat x))
      | None \<Rightarrow>
          (case hex_value b of
             Some y \<Rightarrow>
               if is_space a \<or> a = CHR ''+'' then Some (of_nat y)
               else if a = CHR ''-'' then Some (- of_nat y) else None
           | None \<Rightarrow> None))"
proof (cases "hex_value a")
  case a: (Some x)
  note pa = hex_value_plain [OF a] hex_value_bound [OF a]
  show ?thesis
  proof (cases "hex_value b")
    case None
    then show ?thesis
      using a pa by (simp add: istream_hex_def skip_sign_def skip_0x_def)
  next
    case (Some y)
    then show ?thesis
      using a pa hex_value_plain [OF Some] hex_value_bound [OF Some]
      by (simp add: istream_hex_def skip_sign_def skip_0x_def)
  qed
next
  case a: None
  then have zero: "a \<noteq> CHR ''0''"
    by (auto simp: hex_value_def)
  have sign: "\<not> is_space CHR ''+''" "\<not> is_space CHR ''-''"
    by (simp_all add: is_space_def)
  show ?thesis
  proof (cases "hex_value b")
    case None
    then show ?thesis
      using a zero by (auto simp: istream_hex_def skip_sign_def skip_0x_def Let_def)
  next
    case (Some y)
    then show ?thesis
      using a zero sign hex_value_plain [OF Some] hex_value_bound [OF Some]
      by (auto simp: istream_hex_def skip_sign_def skip_0x_def Let_def)
  qed
qed

lemma istream_hex_pair:
  "from_hex_pair [a, b] =
     (case hex_pair a b of None \<Rightarrow> Inl (Invalid_argument ''invalid hexadecimal representation'') | Some v \<Rightarrow> Inr v)"
  unfolding from_hex_pair_def istream_hex_cases hex_pair_def
  by (auto simp: hex_byte simp del: of_nat_add of_nat_mult of_nat_numeral split: option.split)

text \<open>The lengths of the two directions: an odd last character makes a byte of its own.\<close>

lemma length_from_hex: "from_hex s = Inr bin \<Longrightarrow> length bin = (length s + 1) div 2"
  by (induction s arbitrary: bin rule: from_hex.induct) (auto simp: sbind_Inr_iff)

section \<open>Properties\<close>

text \<open>C39: \<open>from_hex\<close> takes the output of \<open>to_hex\<close>, two characters per byte, back to the bytes; and
  on any text it reads pair after pair, an odd last character completed by a zero, and either
  refuses the text, when some pair means nothing, or gives the byte each pair means. Because the
  pairs go through number extraction it is lenient: a sign or white space before a digit and a
  character that is no digit after one are all accepted, and only pairs that begin with
  another character, in which no digit follows a sign or a space, or that are \<open>0x\<close> or \<open>0X\<close>, are
  refused.\<close>

theorem hex_roundtrip_and_leniency:
  "from_hex (to_hex bin) = Inr bin
   \<and> length (to_hex bin) = 2 * length bin
   \<and> from_hex s =
       (case those (map (\<lambda>(a, b). hex_pair a b) (hex_pairs s)) of
          None \<Rightarrow> Inl (Invalid_argument ''invalid hexadecimal representation'')
        | Some bin \<Rightarrow> Inr bin)
   \<and> (hex_pair a b = None \<longleftrightarrow>
        \<not> (hex_value a \<noteq> None \<or> (is_space a \<or> a = CHR ''+'' \<or> a = CHR ''-'') \<and> hex_value b \<noteq> None)
        \<or> a = CHR ''0'' \<and> (b = CHR ''x'' \<or> b = CHR ''X''))"
proof (intro conjI)
  show "from_hex s =
       (case those (map (\<lambda>(a, b). hex_pair a b) (hex_pairs s)) of
          None \<Rightarrow> Inl (Invalid_argument ''invalid hexadecimal representation'')
        | Some bin \<Rightarrow> Inr bin)"
    by (induction s rule: hex_pairs.induct) (simp_all add: istream_hex_pair split: option.split)
  show "hex_pair a b = None \<longleftrightarrow>
        \<not> (hex_value a \<noteq> None \<or> (is_space a \<or> a = CHR ''+'' \<or> a = CHR ''-'') \<and> hex_value b \<noteq> None)
        \<or> a = CHR ''0'' \<and> (b = CHR ''x'' \<or> b = CHR ''X'')"
    by (auto simp: hex_pair_def hex_value_def Let_def split: option.splits if_splits)
qed (simp_all add: from_to_hex)

theorem hex_roundtrip_and_leniency_witness:
  "from_hex (to_hex [0, 171, 255]) = Inr [0, 171, 255] \<and> length (to_hex [0, 171, 255]) = 6
   \<and> from_hex ''-17'' = Inr [255, 112]
   \<and> from_hex ''7xz1'' = Inl (Invalid_argument ''invalid hexadecimal representation'')
   \<and> hex_pair CHR ''0'' CHR ''x'' = None"
proof -
  note at = hex_roundtrip_and_leniency [where bin = "[0, 171, 255]"]
  have "hex_pair CHR ''-'' CHR ''1'' = Some 255" "hex_pair CHR ''7'' CHR ''0'' = Some 112"
    "hex_pair CHR ''7'' CHR ''x'' = Some 7" "hex_pair CHR ''z'' CHR ''1'' = None"
    by code_simp+
  then have "from_hex ''-17'' = Inr [255, 112]"
    "from_hex ''7xz1'' = Inl (Invalid_argument ''invalid hexadecimal representation'')"
    by (simp_all add: at [THEN conjunct2, THEN conjunct2, THEN conjunct1] del: from_hex.simps)
  moreover have "hex_pair CHR ''0'' CHR ''x'' = None"
    using at [where a = "CHR ''0''" and b = "CHR ''x''"] by simp
  ultimately show ?thesis
    using at [THEN conjunct1] at [THEN conjunct2, THEN conjunct1] by (simp del: from_hex.simps)
qed

end
