(* ===== verification/Base64.thy ===== *)
theory Base64
  imports Hex_Codec
begin

text \<open>
  Base64 in both alphabets (\<open>src/binary.cpp\<close>). The encoder is total. The decoder's inner
  loop skips white space with a \<open>continue\<close> that does not advance the index, so it is a
  loop that may never end: the decoder returns an \<open>option\<close>, \<open>None\<close> when it does not
  return.
\<close>

unbundle bit_operations_syntax

section \<open>Encoding\<close>

definition b64_tab :: string where
  "b64_tab = ''ABCDEFGHIJKLMNOPQRSTUVWXYZabcdefghijklmnopqrstuvwxyz0123456789+/''"

definition b64url_tab :: string where
  "b64url_tab = ''ABCDEFGHIJKLMNOPQRSTUVWXYZabcdefghijklmnopqrstuvwxyz0123456789-_''"

definition tab_at :: "string \<Rightarrow> byte \<Rightarrow> char" where
  "tab_at tab i = tab ! unat i"

fun to_base64_impl :: "binary \<Rightarrow> string \<Rightarrow> bool \<Rightarrow> string" where
  "to_base64_impl (d0 # d1 # d2 # rest) tab padding =
     tab_at tab (drop_bit 2 d0)
     # tab_at tab (push_bit 4 (d0 AND 3) OR drop_bit 4 d1)
     # tab_at tab (push_bit 2 (d1 AND 0x0F) OR drop_bit 6 d2)
     # tab_at tab (d2 AND 0x3F)
     # to_base64_impl rest tab padding"
| "to_base64_impl [] tab padding = []"
| "to_base64_impl [d0] tab padding =
     [tab_at tab (drop_bit 2 d0), tab_at tab (push_bit 4 (d0 AND 3))]
     @ (if padding then ''='' else []) @ (if padding then ''='' else [])"
| "to_base64_impl [d0, d1] tab padding =
     [tab_at tab (drop_bit 2 d0), tab_at tab (push_bit 4 (d0 AND 3) OR drop_bit 4 d1),
      tab_at tab (push_bit 2 (d1 AND 0x0F))]
     @ (if padding then ''='' else [])"

definition to_base64 :: "binary \<Rightarrow> bool \<Rightarrow> string" where
  "to_base64 bin padding = to_base64_impl bin b64_tab padding"

definition to_base64url :: "binary \<Rightarrow> bool \<Rightarrow> string" where
  "to_base64url bin padding = to_base64_impl bin b64url_tab padding"

section \<open>Decoding\<close>

definition b64_digit :: "char \<Rightarrow> exn + byte" where
  "b64_digit ch =
     (let c = byte_of_char ch
      in if byte_of_char CHR ''A'' \<le> c \<and> c \<le> byte_of_char CHR ''Z'' then Inr (c - byte_of_char CHR ''A'')
         else if byte_of_char CHR ''a'' \<le> c \<and> c \<le> byte_of_char CHR ''z'' then Inr (c + 26 - byte_of_char CHR ''a'')
         else if byte_of_char CHR ''0'' \<le> c \<and> c \<le> byte_of_char CHR ''9'' then Inr (c + 52 - byte_of_char CHR ''0'')
         else if ch = CHR ''+'' \<or> ch = CHR ''-'' then Inr 62
         else if ch = CHR ''/'' \<or> ch = CHR ''_'' then Inr 63
         else Inl (Invalid_argument ''Invalid character in base64''))"

text \<open>
  The inner loop: \<open>tab\<close> holds the digits read so far (so its length is \<open>j\<close>), the string is
  what is left from index \<open>i\<close> on. The white-space branch calls the loop again with nothing
  changed, as the code does.
\<close>

partial_function (option) b64_quad :: "string \<Rightarrow> byte list \<Rightarrow> (exn + byte list \<times> string) option" where
  "b64_quad str tab =
     (case str of
        [] \<Rightarrow> Some (Inr (tab, []))
      | c # rest \<Rightarrow>
          if length tab < 4 then
            if is_space c then b64_quad str tab
            else if c = CHR ''='' then Some (Inr (tab, str))
            else (case b64_digit c of
                    Inl e \<Rightarrow> Some (Inl e)
                  | Inr d \<Rightarrow> b64_quad rest (tab @ [d]))
          else Some (Inr (tab, str)))"

text \<open>The bytes a filled \<open>tab\<close> with \<open>j\<close> digits stands for; unset entries are zero.\<close>

definition b64_bytes :: "byte list \<Rightarrow> binary" where
  "b64_bytes tab =
     (let j = length tab; t = (\<lambda>k. if k < j then tab ! k else 0)
      in if j > 0 then
           [push_bit 2 (t 0) OR drop_bit 4 (t 1)]
           @ (if j > 1 then
                [push_bit 4 (t 1) OR drop_bit 2 (t 2)]
                @ (if j > 2 then [push_bit 6 (t 2) OR t 3] else [])
              else [])
         else [])"

partial_function (option) b64_decode :: "string \<Rightarrow> binary \<Rightarrow> (exn + binary) option" where
  "b64_decode str out =
     (if str \<noteq> [] \<and> hd str \<noteq> CHR ''='' then
        Option.bind (b64_quad str []) (\<lambda>res.
          (case res of
             Inl e \<Rightarrow> Some (Inl e)
           | Inr (tab, rest) \<Rightarrow> b64_decode rest (out @ b64_bytes tab)))
      else Some (Inr out))"

definition from_base64 :: "string \<Rightarrow> (exn + binary) option" where
  "from_base64 str = b64_decode str []"

definition from_base64url :: "string \<Rightarrow> (exn + binary) option" where
  "from_base64url str = b64_decode str []"

section \<open>The alphabet\<close>

definition b64_ok :: "char \<Rightarrow> bool" where
  "b64_ok c \<longleftrightarrow> \<not> isl (b64_digit c)"

definition b64_val :: "char \<Rightarrow> byte" where
  "b64_val c = projr (b64_digit c)"

lemma b64_digit_ok: "b64_ok c \<Longrightarrow> b64_digit c = Inr (b64_val c)"
  by (simp add: b64_ok_def b64_val_def)

lemma b64_ok_not_special: "b64_ok c \<Longrightarrow> \<not> is_space c \<and> c \<noteq> CHR ''=''"
  by (auto simp: b64_ok_def b64_digit_def is_space_def Let_def word_le_nat_alt split: if_splits)

lemma b64_digit_invalid:
  "\<not> b64_ok c \<Longrightarrow> b64_digit c = Inl (Invalid_argument ''Invalid character in base64'')"
  by (auto simp: b64_ok_def b64_digit_def Let_def split: if_splits)

text \<open>Both alphabets are inverted by the one digit decoder.\<close>

definition good_tab :: "string \<Rightarrow> bool" where
  "good_tab tab \<longleftrightarrow> (\<forall>i \<in> set [0..<64]. b64_digit (tab ! i) = Inr (of_nat i))"

lemma good_b64_tab: "good_tab b64_tab"
  unfolding good_tab_def b64_tab_def by code_simp

lemma good_b64url_tab: "good_tab b64url_tab"
  unfolding good_tab_def b64url_tab_def by code_simp

lemma tab_at_digit:
  assumes "good_tab tab" "i < 64"
  shows "b64_ok (tab_at tab i)" "b64_val (tab_at tab i) = i"
proof -
  have "unat i < 64"
    using assms(2) by (simp add: word_less_nat_alt)
  then have "b64_digit (tab ! unat i) = Inr (of_nat (unat i))"
    using assms(1) by (auto simp: good_tab_def)
  then show "b64_ok (tab_at tab i)" "b64_val (tab_at tab i) = i"
    by (simp_all add: b64_ok_def b64_val_def tab_at_def)
qed

section \<open>The inner loop\<close>

lemma b64_quad_digits:
  "list_all b64_ok ds \<Longrightarrow> length tab + length ds \<le> 4 \<Longrightarrow>
   b64_quad (ds @ rest) tab = b64_quad rest (tab @ map b64_val ds)"
proof (induction ds arbitrary: tab)
  case Nil
  then show ?case by simp
next
  case (Cons c ds)
  then have "\<not> is_space c" "c \<noteq> CHR ''=''"
    by (simp_all add: b64_ok_not_special)
  with Cons show ?case
    by (simp add: b64_quad.simps [of "c # ds @ rest"] b64_digit_ok)
qed

lemma b64_quad_full: "length tab = 4 \<Longrightarrow> b64_quad str tab = Some (Inr (tab, str))"
  by (subst b64_quad.simps) (simp split: list.splits)

lemma b64_quad_stop:
  "str = [] \<or> hd str = CHR ''='' \<Longrightarrow> b64_quad str tab = Some (Inr (tab, str))"
  by (subst b64_quad.simps) (auto simp: is_space_def split: list.splits)

lemma b64_quad_invalid:
  "\<not> b64_ok c \<Longrightarrow> \<not> is_space c \<Longrightarrow> c \<noteq> CHR ''='' \<Longrightarrow> length tab < 4 \<Longrightarrow>
   b64_quad (c # str) tab = Some (Inl (Invalid_argument ''Invalid character in base64''))"
  by (simp add: b64_quad.simps [of "c # str"] b64_digit_invalid)

text \<open>A white-space character leaves the loop where it is for ever.\<close>

lemma b64_quad_stuck:
  assumes "is_space c" "length tab < 4"
  shows "b64_quad (c # str) tab = None"
proof (cases "b64_quad (c # str) tab")
  case (Some r)
  have "\<not> (str' = c # str \<and> tab' = tab)" if "b64_quad str' tab' = Some r'" for str' tab' r'
  proof (rule b64_quad.raw_induct
      [where P = "\<lambda>str' tab' _. \<not> (str' = c # str \<and> tab' = tab)", OF _ that])
    fix f str' tab' r'
    assume IH: "\<And>s t x. f s t = Some x \<Longrightarrow> \<not> (s = c # str \<and> t = tab)"
      and eq: "(case str' of
              [] \<Rightarrow> Some (Inr (tab', []))
            | c # rest \<Rightarrow>
                if length tab' < 4 then
                  if is_space c then f str' tab'
                  else if c = CHR ''='' then Some (Inr (tab', str'))
                  else (case b64_digit c of
                          Inl e \<Rightarrow> Some (Inl e)
                        | Inr d \<Rightarrow> f rest (tab' @ [d]))
                else Some (Inr (tab', str'))) = Some r'"
    show "\<not> (str' = c # str \<and> tab' = tab)"
    proof
      assume here: "str' = c # str \<and> tab' = tab"
      with eq assms have "f str' tab' = Some r'"
        by simp
      from IH [OF this] here show False
        by contradiction
    qed
  qed
  with Some show ?thesis
    by blast
qed

section \<open>The whole decoder\<close>

text \<open>What a string of valid digits stands for, four digits at a time.\<close>

fun b64_regroup :: "byte list \<Rightarrow> binary" where
  "b64_regroup (a # b # c # d # rest) = b64_bytes [a, b, c, d] @ b64_regroup rest"
| "b64_regroup t = b64_bytes t"

definition b64_stops :: "string \<Rightarrow> bool" where
  "b64_stops str \<longleftrightarrow> str = [] \<or> hd str = CHR ''=''"

lemma b64_decode_stop: "b64_stops str \<Longrightarrow> b64_decode str out = Some (Inr out)"
  by (auto simp: b64_decode.simps [of str] b64_stops_def)

lemma b64_decode_quad:
  assumes "list_all b64_ok ds" "length ds = 4"
  shows "b64_decode (ds @ rest) out = b64_decode rest (out @ b64_bytes (map b64_val ds))"
proof -
  have "ds @ rest \<noteq> [] \<and> hd (ds @ rest) \<noteq> CHR ''=''"
    using assms by (cases ds) (auto simp: b64_ok_not_special)
  moreover have "b64_quad (ds @ rest) [] = Some (Inr (map b64_val ds, rest))"
    using assms by (simp add: b64_quad_digits b64_quad_full)
  ultimately show ?thesis
    by (subst b64_decode.simps) simp
qed

lemma b64_decode_last:
  assumes "list_all b64_ok ds" "length ds < 4" "ds \<noteq> []"
  shows "b64_stops rest \<Longrightarrow> b64_decode (ds @ rest) out = Some (Inr (out @ b64_bytes (map b64_val ds)))"
    and "is_space c \<Longrightarrow> b64_decode (ds @ c # str) out = None"
    and "\<not> b64_ok c \<Longrightarrow> \<not> is_space c \<Longrightarrow> c \<noteq> CHR ''='' \<Longrightarrow>
      b64_decode (ds @ c # str) out = Some (Inl (Invalid_argument ''Invalid character in base64''))"
proof -
  have ne: "ds @ r \<noteq> [] \<and> hd (ds @ r) \<noteq> CHR ''=''" for r
    using assms by (cases ds) (auto simp: b64_ok_not_special)
  have q: "b64_quad (ds @ r) [] = b64_quad r (map b64_val ds)" for r
    using assms by (simp add: b64_quad_digits)
  have d: "b64_decode (ds @ r) out = Option.bind (b64_quad r (map b64_val ds)) (\<lambda>res.
      (case res of
         Inl e \<Rightarrow> Some (Inl e)
       | Inr (tab, rest) \<Rightarrow> b64_decode rest (out @ b64_bytes tab)))" for r
    using ne [of r] q [of r] by (subst b64_decode.simps) simp
  show "b64_stops rest \<Longrightarrow> b64_decode (ds @ rest) out = Some (Inr (out @ b64_bytes (map b64_val ds)))"
    by (simp add: d b64_quad_stop b64_stops_def b64_decode_stop)
  show "is_space c \<Longrightarrow> b64_decode (ds @ c # str) out = None"
    using assms by (simp add: d b64_quad_stuck)
  show "\<not> b64_ok c \<Longrightarrow> \<not> is_space c \<Longrightarrow> c \<noteq> CHR ''='' \<Longrightarrow>
      b64_decode (ds @ c # str) out = Some (Inl (Invalid_argument ''Invalid character in base64''))"
    using assms by (simp add: d b64_quad_invalid)
qed

lemma b64_decode_first:
  "is_space c \<Longrightarrow> b64_decode (c # str) out = None"
  "\<not> b64_ok c \<Longrightarrow> \<not> is_space c \<Longrightarrow> c \<noteq> CHR ''='' \<Longrightarrow>
   b64_decode (c # str) out = Some (Inl (Invalid_argument ''Invalid character in base64''))"
  by (auto simp: b64_decode.simps [of "c # str"] b64_quad_stuck b64_quad_invalid is_space_def
      split: if_splits)

text \<open>
  The outcome of decoding is decided by the first character that is no digit: at the end of
  the string or at an equals sign the digits so far are returned, at white space the decoder
  does not return, at anything else it throws.
\<close>

definition b64_outcome :: "string \<Rightarrow> binary \<Rightarrow> (exn + binary) option" where
  "b64_outcome rest bytes =
     (if b64_stops rest then Some (Inr bytes)
      else if is_space (hd rest) then None
      else Some (Inl (Invalid_argument ''Invalid character in base64'')))"

lemma b64_decode_outcome:
  assumes "list_all b64_ok ds" "rest = [] \<or> \<not> b64_ok (hd rest)"
  shows "b64_decode (ds @ rest) out = b64_outcome rest (out @ b64_regroup (map b64_val ds))"
  using assms(1)
proof (induction "length ds" arbitrary: ds out rule: less_induct)
  case less
  show ?case
  proof (cases "length ds < 4")
    case True
    have short: "b64_regroup (map b64_val ds) = b64_bytes (map b64_val ds)"
      using True by (cases "map b64_val ds" rule: b64_regroup.cases)
        (auto dest!: arg_cong [where f = length])
    show ?thesis
    proof (cases "ds = []")
      case True
      then show ?thesis
        using assms(2) by (cases rest)
          (auto simp: b64_outcome_def b64_stops_def b64_decode_stop b64_decode_first b64_bytes_def)
    next
      case False
      then show ?thesis
        using assms(2) True less.prems short b64_decode_last [of ds]
          b64_decode_last(1) [of ds "[]" out]
        by (cases rest) (auto simp: b64_outcome_def b64_stops_def)
    qed
  next
    case False
    then obtain ds4 ds' where ds: "ds = ds4 @ ds'" "length ds4 = 4"
      by (metis append_take_drop_id length_take min.absorb2 not_less)
    then obtain a b c d where "ds4 = [a, b, c, d]"
      by (auto simp: length4)
    moreover have "b64_decode (ds' @ rest) (out @ b64_bytes (map b64_val ds4)) =
        b64_outcome rest ((out @ b64_bytes (map b64_val ds4)) @ b64_regroup (map b64_val ds'))"
      using less ds by (intro less.hyps) auto
    ultimately show ?thesis
      using less.prems ds b64_decode_quad [of ds4 "ds' @ rest" out] by simp
  qed
qed

section \<open>Decoding what was encoded\<close>

text \<open>The six-bit groups of a byte string, and the padding that follows them.\<close>

fun b64_sextets :: "binary \<Rightarrow> byte list" where
  "b64_sextets (d0 # d1 # d2 # rest) =
     [drop_bit 2 d0, push_bit 4 (d0 AND 3) OR drop_bit 4 d1, push_bit 2 (d1 AND 0x0F) OR drop_bit 6 d2,
      d2 AND 0x3F] @ b64_sextets rest"
| "b64_sextets [] = []"
| "b64_sextets [d0] = [drop_bit 2 d0, push_bit 4 (d0 AND 3)]"
| "b64_sextets [d0, d1] =
     [drop_bit 2 d0, push_bit 4 (d0 AND 3) OR drop_bit 4 d1, push_bit 2 (d1 AND 0x0F)]"

lemma to_base64_impl_sextets:
  "\<exists>n \<le> 2. to_base64_impl bin tab padding = map (tab_at tab) (b64_sextets bin) @ replicate n CHR ''=''"
proof (induction bin rule: b64_sextets.induct)
  case (1 d0 d1 d2 rest)
  then show ?case by auto
next
  case 2
  then show ?case by auto
next
  case (3 d0)
  then show ?case
    by (intro exI [of _ "if padding then 2 else 0"]) (simp add: numeral_2_eq_2)
next
  case (4 d0 d1)
  then show ?case
    by (intro exI [of _ "if padding then 1 else 0"]) simp
qed

lemma and_masks:
  "(x :: byte) AND 3 = take_bit 2 x"
  "(x :: byte) AND 0x0F = take_bit 4 x"
  "(x :: byte) AND 0x3F = take_bit 6 x"
  by (simp_all add: take_bit_eq_mask mask_eq_exp_minus_1)

text \<open>Equality of bytes, bit by bit.\<close>

lemma byte_high [simp]: "8 \<le> n \<Longrightarrow> \<not> bit (x :: byte) n"
  using bit_imp_le_length [of x n] by auto

lemma byte_eqI:
  assumes "bit (x :: byte) 0 = bit y 0" "bit x 1 = bit y 1" "bit x 2 = bit y 2" "bit x 3 = bit y 3"
    "bit x 4 = bit y 4" "bit x 5 = bit y 5" "bit x 6 = bit y 6" "bit x 7 = bit y 7"
  shows "x = y"
proof (rule bit_word_eqI)
  fix n
  assume "n < LENGTH(8)"
  then have "n = 0 \<or> n = 1 \<or> n = 2 \<or> n = 3 \<or> n = 4 \<or> n = 5 \<or> n = 6 \<or> n = 7"
    by simp arith
  with assms show "bit x n = bit y n"
    by auto
qed

lemma sextet_bound:
  "take_bit 6 (drop_bit 2 (d :: byte)) = drop_bit 2 d"
  "take_bit 6 (push_bit 4 (take_bit 2 a) OR drop_bit 4 (b :: byte)) = push_bit 4 (take_bit 2 a) OR drop_bit 4 b"
  "take_bit 6 (push_bit 2 (take_bit 4 a) OR drop_bit 6 (b :: byte)) = push_bit 2 (take_bit 4 a) OR drop_bit 6 b"
  "take_bit 6 (push_bit 4 (take_bit 2 (a :: byte))) = push_bit 4 (take_bit 2 a)"
  "take_bit 6 (push_bit 2 (take_bit 4 (a :: byte))) = push_bit 2 (take_bit 4 a)"
  "take_bit 6 (take_bit 6 (a :: byte)) = take_bit 6 a"
  by (rule byte_eqI; simp add: bit_simps)+

lemma b64_sextets_bound: "list_all (\<lambda>x. take_bit 6 x = x) (b64_sextets bin)"
  by (induction bin rule: b64_sextets.induct)
    (simp_all only: b64_sextets.simps and_masks append_Cons append_Nil list.pred_inject sextet_bound
      simp_thms)

lemma less64_take_bit:
  assumes "take_bit 6 (x :: byte) = x"
  shows "x < 64"
proof -
  have "unat (take_bit 6 x) = unat x mod 64"
    by (simp only: unsigned_take_bit_eq) (simp add: take_bit_eq_mod)
  then have "unat x < 64"
    using assms by (metis mod_less_divisor zero_less_numeral)
  then show ?thesis
    by (simp add: word_less_nat_alt)
qed

text \<open>
  Regrouping gives the encoded bytes back. When the last group is not full the decoder
  emits a byte for each digit after the first but the last pair, one more than was encoded:
  its bits are all shifted out, so a zero byte follows the data.
\<close>

definition b64_tail :: "binary \<Rightarrow> binary" where
  "b64_tail bin = (if length bin mod 3 = 0 then [] else [0])"

lemma sextet_join:
  "push_bit 2 (drop_bit 2 (a :: byte)) OR drop_bit 4 (push_bit 4 (take_bit 2 a) OR drop_bit 4 b) = a"
  "push_bit 4 (push_bit 4 (take_bit 2 a) OR drop_bit 4 (b :: byte))
     OR drop_bit 2 (push_bit 2 (take_bit 4 b) OR drop_bit 6 c) = b"
  "push_bit 6 (push_bit 2 (take_bit 4 b) OR drop_bit 6 (c :: byte)) OR take_bit 6 c = c"
  "push_bit 2 (drop_bit 2 (a :: byte)) OR drop_bit 4 (push_bit 4 (take_bit 2 a)) = a"
  "push_bit 4 (push_bit 4 (take_bit 2 a) OR drop_bit 4 (b :: byte)) OR drop_bit 2 (push_bit 2 (take_bit 4 b)) = b"
  "push_bit 4 (push_bit 4 (take_bit 2 (a :: byte))) = 0"
  "push_bit 6 (push_bit 2 (take_bit 4 (b :: byte))) = 0"
  by (rule byte_eqI; simp add: bit_simps)+

lemma b64_bytes_4: "b64_bytes [a, b, c, d] =
    [push_bit 2 a OR drop_bit 4 b, push_bit 4 b OR drop_bit 2 c, push_bit 6 c OR d]"
  by (simp add: b64_bytes_def Let_def)

lemma b64_bytes_2: "b64_bytes [a, b] = [push_bit 2 a OR drop_bit 4 b, push_bit 4 b]"
  by (simp add: b64_bytes_def Let_def)

lemma b64_bytes_3: "b64_bytes [a, b, c] =
    [push_bit 2 a OR drop_bit 4 b, push_bit 4 b OR drop_bit 2 c, push_bit 6 c]"
  by (simp add: b64_bytes_def Let_def)

lemma b64_regroup_sextets: "b64_regroup (b64_sextets bin) = bin @ b64_tail bin"
proof (induction bin rule: b64_sextets.induct)
  case (1 d0 d1 d2 rest)
  have "b64_tail (d0 # d1 # d2 # rest) = b64_tail rest"
    using mod_add_self2 [of "length rest" 3] by (simp add: b64_tail_def add.commute)
  with 1 show ?case
    by (simp only: b64_sextets.simps append_Cons append_Nil b64_regroup.simps and_masks
        b64_bytes_4 sextet_join)
qed (simp_all only: b64_sextets.simps b64_regroup.simps and_masks b64_bytes_2 b64_bytes_3
    sextet_join, simp_all add: b64_bytes_def b64_tail_def)

lemma b64_decode_encoded:
  assumes "good_tab tab"
  shows "b64_decode (to_base64_impl bin tab padding) [] = Some (Inr (bin @ b64_tail bin))"
proof -
  obtain n where n: "to_base64_impl bin tab padding =
      map (tab_at tab) (b64_sextets bin) @ replicate n CHR ''=''"
    using to_base64_impl_sextets by blast
  let ?ds = "map (tab_at tab) (b64_sextets bin)"
  have lt: "\<forall>x \<in> set (b64_sextets bin). x < 64"
    using b64_sextets_bound less64_take_bit by (auto simp: list_all_iff)
  then have "list_all b64_ok ?ds" "map b64_val ?ds = b64_sextets bin"
    using tab_at_digit [OF assms] by (simp_all add: list_all_iff map_idI)
  moreover have "replicate n CHR ''='' = [] \<or> \<not> b64_ok (hd (replicate n CHR ''=''))"
    using b64_ok_not_special by (cases n) auto
  ultimately show ?thesis
    using b64_decode_outcome [of ?ds "replicate n CHR ''=''" "[]"]
    by (cases n) (simp_all add: n b64_regroup_sextets b64_outcome_def b64_stops_def)
qed

section \<open>The encoding as a function of the bits\<close>

text \<open>
  Base64 as its standard describes it: the bits of all bytes in a row, cut into groups of six,
  the last one filled up with zero bits; each group is a character, and padding brings the
  number of characters to a multiple of four.
\<close>

definition byte_bits :: "byte \<Rightarrow> bool list" where
  "byte_bits d = map (bit d) (rev [0..<8])"

fun groups_of_six :: "bool list \<Rightarrow> bool list list" where
  "groups_of_six (a # b # c # d # e # f # rest) = [a, b, c, d, e, f] # groups_of_six rest"
| "groups_of_six [] = []"
| "groups_of_six bs = [take 6 (bs @ replicate 6 False)]"

definition bits_value :: "bool list \<Rightarrow> byte" where
  "bits_value bs = foldl (\<lambda>x b. push_bit 1 x OR of_bool b) 0 bs"

definition b64_standard :: "string \<Rightarrow> binary \<Rightarrow> bool \<Rightarrow> string" where
  "b64_standard alphabet bin padding =
     (let digits = map (tab_at alphabet \<circ> bits_value) (groups_of_six (concat (map byte_bits bin)))
      in digits @ (if padding then replicate ((4 - length digits mod 4) mod 4) CHR ''='' else []))"

lemma byte_bits_list: "byte_bits d = [bit d 7, bit d 6, bit d 5, bit d 4, bit d 3, bit d 2, bit d 1, bit d 0]"
  by (simp add: byte_bits_def upt_rec eval_nat_numeral)

lemma bits_value_sextets:
  "bits_value [bit d 7, bit d 6, bit d 5, bit d 4, bit d 3, bit d 2] = drop_bit 2 (d :: byte)"
  "bits_value [bit a 1, bit a 0, bit d 7, bit d 6, bit d 5, bit d 4] = push_bit 4 (take_bit 2 a) OR drop_bit 4 (d :: byte)"
  "bits_value [bit a 3, bit a 2, bit a 1, bit a 0, bit d 7, bit d 6] = push_bit 2 (take_bit 4 a) OR drop_bit 6 (d :: byte)"
  "bits_value [bit a 5, bit a 4, bit a 3, bit a 2, bit a 1, bit a 0] = take_bit 6 (a :: byte)"
  "bits_value [bit a 1, bit a 0, False, False, False, False] = push_bit 4 (take_bit 2 (a :: byte))"
  "bits_value [bit a 3, bit a 2, bit a 1, bit a 0, False, False] = push_bit 2 (take_bit 4 (a :: byte))"
  by (rule byte_eqI; simp add: bits_value_def bit_simps)+

lemma b64_standard_step:
  "b64_standard tab (d0 # d1 # d2 # rest) padding =
     map (tab_at tab) (b64_sextets [d0, d1, d2]) @ b64_standard tab rest padding"
  by (simp add: b64_standard_def byte_bits_list Let_def bits_value_sextets and_masks del: One_nat_def)

lemma replicate_few: "replicate 1 x = [x]" "replicate 2 x = [x, x]" "replicate 4 x = [x, x, x, x]"
  by (simp_all add: eval_nat_numeral)

lemma b64_standard_end:
  "b64_standard tab [] padding = []"
  "b64_standard tab [d0] padding =
     map (tab_at tab) (b64_sextets [d0]) @ (if padding then [CHR ''='', CHR ''=''] else [])"
  "b64_standard tab [d0, d1] padding =
     map (tab_at tab) (b64_sextets [d0, d1]) @ (if padding then [CHR ''=''] else [])"
  by (simp_all add: b64_standard_def byte_bits_list Let_def bits_value_sextets and_masks replicate_few
      del: One_nat_def)

lemma to_base64_impl_standard: "to_base64_impl bin tab padding = b64_standard tab bin padding"
  by (induction bin tab padding rule: to_base64_impl.induct)
    (simp_all only: b64_standard_step b64_standard_end to_base64_impl.simps b64_sextets.simps list.map append.simps,
     simp_all)

section \<open>Properties\<close>

text \<open>C36: the encoder, which works on three bytes at a time with shifts and masks, computes base64 as
  its standard defines it on the bits of the whole input, in both alphabets, with the right
  padding when it is asked for.\<close>

theorem base64_encodes_bits:
  "to_base64 bin padding = b64_standard b64_tab bin padding
   \<and> to_base64url bin padding = b64_standard b64url_tab bin padding"
  by (simp add: to_base64_def to_base64url_def to_base64_impl_standard)

text \<open>C37: decoding, in either alphabet and with or without padding, what was encoded returns
  the encoded bytes, followed by one extra zero byte whenever their number is not a multiple
  of three. So the round trip is exact for multiples of three (an identifier has 33 bytes) and
  for no other length.\<close>

theorem base64_roundtrip:
  "from_base64 (to_base64 bin padding) = Some (Inr (bin @ b64_tail bin))
   \<and> from_base64url (to_base64url bin padding) = Some (Inr (bin @ b64_tail bin))"
  by (simp add: from_base64_def to_base64_def from_base64url_def to_base64url_def
      b64_decode_encoded good_b64_tab good_b64url_tab)

text \<open>C38: the outcome of decoding any string is decided by its first character outside the
  alphabet. At the end or at an equals sign the decoder returns the bytes of the digits before
  it; at white space it never returns; at any other character it throws.\<close>

theorem base64_decoder_outcome:
  "from_base64 str =
     b64_outcome (dropWhile b64_ok str) (b64_regroup (map b64_val (takeWhile b64_ok str)))"
proof -
  have "list_all b64_ok (takeWhile b64_ok str)"
    by (auto simp: list_all_iff dest: set_takeWhileD)
  moreover have "dropWhile b64_ok str = [] \<or> \<not> b64_ok (hd (dropWhile b64_ok str))"
    using hd_dropWhile [of b64_ok str] by blast
  ultimately have "b64_decode (takeWhile b64_ok str @ dropWhile b64_ok str) [] =
      b64_outcome (dropWhile b64_ok str) ([] @ b64_regroup (map b64_val (takeWhile b64_ok str)))"
    by (rule b64_decode_outcome)
  then show ?thesis
    by (simp add: from_base64_def)
qed

end
