(* ===== verification/Graph_Invariant.thy ===== *)
theory Graph_Invariant
  imports Announcements
begin

text \<open>
  The invariant of the graph and of routing together, that every operation and event of the two
  components keeps, and what it says about the links and the routing table.
\<close>

section \<open>The invariant\<close>

definition node_inv :: "('p::linorder, 'k) env \<Rightarrow> 'p \<Rightarrow> ('p, 'z) graph_scheme \<Rightarrow> bool" where
  "node_inv env self w \<longleftrightarrow> graph_ready env self w \<and> routing_ok w"

lemma routing_ok_node_frame: "node_frame w w' \<Longrightarrow> routing_ok w' = routing_ok w"
  by (simp add: node_frame_def routing_ok_def)

lemma notify_message_inv:
  assumes "node_inv env (pair_public pair) w" "m_type m \<noteq> Hello"
    and "graph_notify (Suc (Suc (Suc n))) env pair (MessageEvent m ch) w = (out, w')"
    and "\<forall>s. State_FromMessage env (Some m) = Inr s \<longrightarrow>
        state_id s \<noteq> pair_public pair \<or> own_echo (pair_public pair) s w"
  shows "node_inv env (pair_public pair) w' \<and> graph.more w' = graph.more w
    \<and> (out = Return None \<or> (\<exists>e. out = Throw e \<and> w' = w))"
proof (cases "m_type m = StateType")
  case False
  then show ?thesis
    using assms by (auto simp: graph_notify_def)
next
  case True
  show ?thesis
  proof (cases "State_FromMessage env (Some m)")
    case (Inl e)
    then show ?thesis
      using assms True by (auto simp: graph_notify_def)
  next
    case (Inr s)
    have ready: "graph_ready env (pair_public pair) w" and ok: "routing_ok w"
      using assms(1) by (simp_all add: node_inv_def)
    show ?thesis
    proof (cases "newer s (graph_state w (state_id s))")
      case False
      then show ?thesis
        using insert_state_cases [OF ready, of s n] assms Inr by (auto simp: notify_state bindp_def)
    next
      case True
      then obtain w1 where "graph_insert (Suc (Suc (Suc n))) env pair s w = (Return True, w1)"
        "graph_ready env (pair_public pair) w1" "accepted_effect env pair s w w1"
        using insert_state_cases [OF ready, of s n] assms(4) Inr by auto
      moreover from this have "routing_ok w1" "graph.more w1 = graph.more w"
        using ok routing_ok_node_frame by (fastforce simp: accepted_effect_def Let_def node_frame_def)+
      ultimately show ?thesis
        using assms(3) Inr routing_ok_same [OF routing_broadcast_same] node_frame_broadcast [of w1 env m ch]
        by (auto simp: notify_state bindp_def node_inv_def node_frame_def)
    qed
  qed
qed

lemma notify_neighbor_cases:
  assumes "graph_ready env (pair_public pair) w"
    and "graph_notify (Suc (Suc n)) env pair (NeighborEvent i ch) w = (out, w')"
  shows "graph_ready env (pair_public pair) w' \<and> out = Return None \<and> node_frame w w'"
  using notify_neighbor_view [OF assms(1), of n i ch] assms by (auto split: if_splits)

lemma addNeighbor_event:
  "routing_addNeighbor i ch w = (Some e, u) \<Longrightarrow> e = NeighborEvent i (Some ch)"
  by (auto simp: routing_addNeighbor_def split: if_splits)

lemma hello_view:
  assumes "graph_broadcastHello env pair w = (out, w')"
  shows "g_heap w' = g_heap w" "mVertices w' = mVertices w" "mRoutingTable w' = mRoutingTable w"
    "mTable w' = mTable w" "mEcdh w' = mEcdh w" "mStateSequence w' = mStateSequence w"
    "mNeighbors w' = mNeighbors w" "mChannels w' = mChannels w" "rtc_handler w' = rtc_handler w"
proof -
  let ?u = "w\<lparr>mHelloSequence := mHelloSequence w + 1, entropy := entropy w + 1\<rparr>"
  have "\<exists>s e. w' = ?u\<lparr>rtc_sent := s, rtc_cerr := e\<rparr>"
  proof (cases "make_message env (entropy w) Hello (mHelloSequence w) [] (Some pair) None")
    case (Inl e)
    then have "w' = ?u\<lparr>rtc_sent := rtc_sent ?u, rtc_cerr := rtc_cerr ?u\<rparr>"
      using assms by (simp add: graph_broadcastHello_def Let_def)
    then show ?thesis
      by blast
  next
    case (Inr m)
    then have "w' = routing_broadcast env m None ?u"
      using assms by (simp add: graph_broadcastHello_def Let_def)
    then show ?thesis
      using routing_broadcast_frame [of env m None ?u] by blast
  qed
  then show "g_heap w' = g_heap w" "mVertices w' = mVertices w" "mRoutingTable w' = mRoutingTable w"
    "mTable w' = mTable w" "mEcdh w' = mEcdh w" "mStateSequence w' = mStateSequence w"
    "mNeighbors w' = mNeighbors w" "mChannels w' = mChannels w" "rtc_handler w' = rtc_handler w"
    by auto
qed

lemma hello_inv:
  assumes "node_inv env self w" "graph_broadcastHello env' pair w = (out, w')"
  shows "node_inv env self w'"
proof -
  note same = hello_view [OF assms(2)]
  have "announceable env self w'"
    using assms(1) same by (simp add: node_inv_def graph_ready_def announceable_neighbors routing_neighbors_def)
  then have "graph_ready env self w'"
    using assms(1) same graph_ready_routing [of env self w w'] by (simp add: node_inv_def)
  then show ?thesis
    using assms(1) same by (simp add: node_inv_def routing_ok_def)
qed

lemma network_inv:
  assumes "node_inv env self w"
  shows "node_inv env self (w\<lparr>rtc_open := opened, rtc_throws := throws\<rparr>)"
proof -
  have "announceable env self (w\<lparr>rtc_open := opened, rtc_throws := throws\<rparr>)"
    using assms by (simp add: node_inv_def graph_ready_def announceable_neighbors routing_neighbors_def)
  then have "graph_ready env self (w\<lparr>rtc_open := opened, rtc_throws := throws\<rparr>)"
    using assms graph_ready_routing [of env self w "w\<lparr>rtc_open := opened, rtc_throws := throws\<rparr>"]
    by (simp add: node_inv_def)
  then show ?thesis
    using assms by (simp add: node_inv_def routing_ok_def)
qed

lemma emitted_inv:
  assumes "node_inv env (pair_public pair) w" "routing_addNeighbor i ch w = (Some e, u)"
    "announceable env (pair_public pair) u" "graph_notify (Suc (Suc n)) env pair e u = (out, w')"
  shows "node_inv env (pair_public pair) w'"
proof -
  have ok: "routing_ok u"
    using assms(1,2) routing_ok_addNeighbor [of w i ch] by (simp add: node_inv_def)
  have "graph_ready env (pair_public pair) u"
    using assms(1-3) graph_ready_addNeighbor [of env "pair_public pair" w i ch] by (simp add: node_inv_def)
  then have "graph_ready env (pair_public pair) w' \<and> node_frame u w'"
    using notify_neighbor_cases assms(4) addNeighbor_event [OF assms(2)] by blast
  then show ?thesis
    using routing_ok_node_frame ok by (auto simp: node_inv_def)
qed

text \<open>What the invariant says of the results of the operations.\<close>

lemma get_state: "graph_get i w = Inr st \<longleftrightarrow> graph_state w i = Some st"
  by (auto simp: graph_get_def graph_state_def graph_findVertice_def split: option.splits)

lemma node_inv_links:
  assumes "node_inv env self w"
  shows "graph_links w i = (case graph_get i w of Inl _ \<Rightarrow> {} | Inr st \<Rightarrow> set (st_neighbors st))"
proof (cases "graph_state w i")
  case None
  then obtain e where "graph_get i w = Inl e"
    using get_state [of i w] by (cases "graph_get i w") auto
  with None show ?thesis
    using assms by (simp add: node_inv_def graph_ready_def)
next
  case (Some st)
  then show ?thesis
    using assms get_state [of i w st] by (simp add: node_inv_def graph_ready_def)
qed

lemma node_inv_table:
  assumes "node_inv env self w"
  shows "mTable w = Some (graph_routingTable w)
    \<and> (\<exists>st. graph_get self w = Inr st \<and> st_ecdhPublic st = Ecdh_publicKey (graph_localEcdhPair w)
         \<and> st_sequence st = mStateSequence w - 1
         \<and> (\<forall>x h. rt_findNextHop (graph_routingTable w) x = Some h \<longleftrightarrow>
              h = x \<and> x \<in> set (st_neighbors st) \<and> x \<noteq> self))"
proof -
  obtain st where st: "graph_state w self = Some st" "st_ecdhPublic st = dh_public (mEcdh w)"
    "st_sequence st = mStateSequence w - 1"
    using assms by (auto simp: node_inv_def graph_ready_def local_ok_def)
  have "graph_links w self = set (st_neighbors st)" "table_ok self w"
    using assms st(1) by (simp_all add: node_inv_def graph_ready_def)
  then have "\<forall>x h. rt_findNextHop (graph_routingTable w) x = Some h \<longleftrightarrow>
      h = x \<and> x \<in> set (st_neighbors st) \<and> x \<noteq> self" "mTable w = Some (graph_routingTable w)"
    by (auto simp: table_ok_def graph_routingTable_def)
  then show ?thesis
    using st by (auto simp: get_state Ecdh_publicKey_def graph_localEcdhPair_def)
qed

end
