(* ===== verification/Node.thy ===== *)
theory Node
  imports Networking Server Scheduler Base64 Graph_Invariant
begin

text \<open>
  The node (\<open>src/impl/node.hpp\<close>, \<open>node.cpp\<close>, \<open>component.cpp\<close>) and the public interface
  (\<open>include/legio/node.hpp\<close>, \<open>src/node.cpp\<close>): the components in the order they attach, the
  delivery of events to all of them, the handler of inbound data, and the operations of the API.
\<close>

section \<open>Components and events\<close>

datatype component = CRouting | CGraph | CServer | CNetworking | CSignaling | CUser

definition Node_attach :: "component \<Rightarrow> component list \<Rightarrow> component list" where
  "Node_attach c cs = cs @ [c]"

definition Node_detach :: "component \<Rightarrow> component list \<Rightarrow> component list" where
  "Node_detach c cs = remove1 c cs"

text \<open>
  The constructor makes the components in the order of the members; each attaches itself, the
  networking component before the signaling transport it creates.
\<close>

definition Node_components :: "Configuration \<Rightarrow> component list" where
  "Node_components config =
     (let cs = Node_attach CGraph (Node_attach CRouting []);
          cs = (if cfg_port config \<noteq> None then Node_attach CServer cs else cs)
      in Node_attach CUser (Node_attach CSignaling (Node_attach CNetworking cs)))"

text \<open>
  What every function of the node takes: the parameters of the components, the node's key pair,
  and the stack depth left for nested calls.
\<close>

record ('p, 'k, 'd) node_params =
  np_env :: "('p, 'k) env"
  np_webrtc :: "'d webrtc"
  np_pair :: "('p, 'k) EcdsaPair"
  np_stack :: nat

definition Node_id :: "('p, 'k, 'd) node_params \<Rightarrow> 'p" where
  "Node_id k = pair_public (np_pair k)"

text \<open>The application's callback is assumed to return: it is recorded, and nothing else happens.\<close>

definition Node_receive :: "'p \<Rightarrow> binary \<Rightarrow> ('p, 'd, 'z) world_scheme \<Rightarrow> ('p, 'd, 'z) world_scheme" where
  "Node_receive i payload w = (if callback_set w then w\<lparr>delivered := delivered w @ [(i, payload)]\<rparr> else w)"

definition component_notify ::
    "('p::linorder, 'k, 'd) node_params \<Rightarrow> 'p event \<Rightarrow> component
     \<Rightarrow> (('p, 'd, 'z) world_scheme, 'p event option) prog" where
  "component_notify k event c w =
     (case c of
        CRouting \<Rightarrow> (Return None, w)
      | CGraph \<Rightarrow> graph_notify (np_stack k) (np_env k) (np_pair k) event w
      | CServer \<Rightarrow> (Return None, w)
      | CNetworking \<Rightarrow> (Return None, w)
      | CSignaling \<Rightarrow>
          bindp (with_signaling (Transport_notify (np_env k) event))
            (\<lambda>received w. case received of
               None \<Rightarrow> (Return None, w)
             | Some (i, payload) \<Rightarrow>
                 bindp (Networking_receive (np_webrtc k) (Node_id k) i payload) (\<lambda>_ w. (Return None, w)) w) w
      | CUser \<Rightarrow>
          bindp (with_user (Transport_notify (np_env k) event))
            (\<lambda>received w. case received of
               None \<Rightarrow> (Return None, w)
             | Some (i, payload) \<Rightarrow> (Return None, Node_receive i payload w)) w)"

text \<open>
  \<open>Node::notify\<close>: every component in turn; an event a component emits meanwhile is delivered to
  all components before the next one is reached. \<open>depth\<close> bounds the nesting.
\<close>

function notify_from ::
    "('p::linorder, 'k, 'd) node_params \<Rightarrow> nat \<Rightarrow> component list \<Rightarrow> 'p event \<Rightarrow> component list
     \<Rightarrow> (('p, 'd, 'z) world_scheme, unit) prog" where
  "notify_from k depth cs event [] w = (Return (), w)"
| "notify_from k 0 cs event (c # rest) w = (Overflow, w)"
| "notify_from k (Suc depth) cs event (c # rest) w =
     bindp (component_notify k event c)
       (\<lambda>emitted. bindp (\<lambda>w. case emitted of None \<Rightarrow> (Return (), w) | Some e \<Rightarrow> notify_from k depth cs e cs w)
         (\<lambda>_ w. notify_from k (Suc depth) cs event rest w)) w"
  by pat_completeness auto
termination
  by (relation "measures [\<lambda>(k, d, cs, e, rest, w). d, \<lambda>(k, d, cs, e, rest, w). length rest]") auto

declare notify_from.simps [simp del]

definition Node_notify ::
    "('p::linorder, 'k, 'd) node_params \<Rightarrow> component list \<Rightarrow> 'p event
     \<Rightarrow> (('p, 'd, 'z) world_scheme, unit) prog" where
  "Node_notify k cs event w = notify_from k (np_stack k) cs event cs w"

definition deliver_event ::
    "('p::linorder, 'k, 'd) node_params \<Rightarrow> component list \<Rightarrow> 'p event option
     \<Rightarrow> (('p, 'd, 'z) world_scheme, unit) prog" where
  "deliver_event k cs emitted w =
     (case emitted of None \<Rightarrow> (Return (), w) | Some e \<Rightarrow> Node_notify k cs e w)"

section \<open>Inbound data\<close>

text \<open>The callback \<open>addChannel\<close> installs; \<open>removeChannel\<close> replaces it by one that ignores the data.\<close>

definition Routing_onMessage ::
    "('p::linorder, 'k, 'd) node_params \<Rightarrow> component list \<Rightarrow> channel \<Rightarrow> binary
     \<Rightarrow> (('p, 'd, 'z) world_scheme, unit) prog" where
  "Routing_onMessage k cs ch data w =
     (case rtc_handler w ch of
        NoHandler \<Rightarrow> (Return (), w)
      | RouteHandler \<Rightarrow>
          catchp
            (\<lambda>w. case message_of (np_env k) data of
               Inl e \<Rightarrow> (Throw e, w)
             | Inr message \<Rightarrow>
                 bindp (routing_route (np_env k) (Node_id k) message (Some ch)) (deliver_event k cs) w)
            rtc_report w)"

text \<open>A channel opens: the callback of its owner, and the event it may emit.\<close>

definition Node_channel_opened ::
    "('p::linorder, 'k, 'd) node_params \<Rightarrow> component list \<Rightarrow> channel
     \<Rightarrow> (('p, 'd, 'z) world_scheme, unit) prog" where
  "Node_channel_opened k cs c w = (let (emitted, w) = channel_opened c w in deliver_event k cs emitted w)"

section \<open>The interface\<close>

definition component_update ::
    "('p::linorder, 'k, 'd) node_params \<Rightarrow> (nat \<Rightarrow> 'p list \<Rightarrow> 'p list) \<Rightarrow> component
     \<Rightarrow> (('p, 'd, 'z) world_scheme, unit) prog" where
  "component_update k shuffle c w =
     (case c of
        CGraph \<Rightarrow> graph_update (np_env k) (np_pair k) w
      | CNetworking \<Rightarrow> Networking_update shuffle w
      | _ \<Rightarrow> (Return (), w))"

fun update_components ::
    "('p::linorder, 'k, 'd) node_params \<Rightarrow> (nat \<Rightarrow> 'p list \<Rightarrow> 'p list) \<Rightarrow> component list
     \<Rightarrow> (('p, 'd, 'z) world_scheme, unit) prog" where
  "update_components k shuffle [] w = (Return (), w)"
| "update_components k shuffle (c # cs) w =
     bindp (component_update k shuffle c) (\<lambda>_. update_components k shuffle cs) w"

text \<open>The scheduler runs after the components; \<open>None\<close> when its tasks never end.\<close>

definition Node_update ::
    "('p::linorder, 'k, 'd) node_params \<Rightarrow> (nat \<Rightarrow> 'p list \<Rightarrow> 'p list) \<Rightarrow> component list
     \<Rightarrow> ('f \<Rightarrow> ('f scheduler \<times> ('p, 'd) world, unit) prog) \<Rightarrow> (nat \<Rightarrow> int)
     \<Rightarrow> 'f scheduler \<times> ('p, 'd) world \<Rightarrow> (unit outcome \<times> 'f scheduler \<times> ('p, 'd) world) option" where
  "Node_update k shuffle cs task clk st =
     (case update_components k shuffle cs (snd st) of
        (Return _, w) \<Rightarrow> Scheduler_run task clk (fst st, w)
      | (Throw e, w) \<Rightarrow> Some (Throw e, (fst st, w))
      | (Overflow, w) \<Rightarrow> Some (Overflow, (fst st, w)))"

text \<open>\<open>server->url()\<close> without a server dereferences a null pointer: no result then.\<close>

definition Node_url :: "plum \<Rightarrow> server option \<Rightarrow> (exn + string) option" where
  "Node_url p s = (case s of None \<Rightarrow> None | Some server \<Rightarrow> Some (Server_url p server))"

definition Node_isConnected :: "('p, 'z) routing_scheme \<Rightarrow> bool" where
  "Node_isConnected w \<longleftrightarrow> (case routing_table w of Some t \<Rightarrow> rt_count t > 0 | None \<Rightarrow> False)"

definition match_prefix :: "string \<Rightarrow> string \<Rightarrow> bool" where
  "match_prefix str prefix \<longleftrightarrow> length str \<ge> length prefix \<and> take (length prefix) str = prefix"

definition Node_connect ::
    "('p, 'k, 'd) node_params \<Rightarrow> string \<Rightarrow> ('p, 'd, 'z) world_scheme
     \<Rightarrow> (unit outcome \<times> ('p, 'd, 'z) world_scheme) option" where
  "Node_connect k url w =
     (if match_prefix url ''ws:'' \<or> match_prefix url ''wss:'' then Some (Networking_connectWebSocket url w)
      else
        (case from_base64url url of
           None \<Rightarrow> None
         | Some (Inl e) \<Rightarrow> Some (Throw e, w)
         | Some (Inr bin) \<Rightarrow>
             (case Identifier_of (np_env k) bin of
                Inl e \<Rightarrow> Some (Throw e, w)
              | Inr i \<Rightarrow> Some (Networking_connectPeer i w))))"

definition Node_send ::
    "('p::linorder, 'k, 'd) node_params \<Rightarrow> component list \<Rightarrow> binary \<Rightarrow> binary
     \<Rightarrow> (('p, 'd, 'z) world_scheme, unit) prog" where
  "Node_send k cs i message w =
     (case Identifier_of (np_env k) i of
        Inl e \<Rightarrow> (Throw e, w)
      | Inr remoteId \<Rightarrow>
          bindp (with_user (Transport_send (np_env k) (np_pair k) remoteId message)) (deliver_event k cs) w)"

definition Node_broadcast ::
    "('p::linorder, 'k, 'd) node_params \<Rightarrow> binary \<Rightarrow> (('p, 'd, 'z) world_scheme, unit) prog" where
  "Node_broadcast k message = with_user (Transport_broadcast (np_env k) (np_pair k) message)"

text \<open>The callback is replaced; an empty \<open>std::function\<close> (\<open>callable\<close> false) is as good as none.\<close>

definition Node_onMessage :: "bool \<Rightarrow> ('p, 'd, 'z) world_scheme \<Rightarrow> ('p, 'd, 'z) world_scheme" where
  "Node_onMessage callable w = w\<lparr>callback_set := callable\<rparr>"

section \<open>Inbound errors\<close>

lemma catchp_report:
  "fst (catchp m rtc_report w) \<noteq> Throw e"
  "m w = (Throw e, w') \<Longrightarrow> catchp m rtc_report w = (Return (), w'\<lparr>rtc_cerr := rtc_cerr w' @ [e]\<rparr>)"
  by (auto simp: catchp_def rtc_report_def split: prod.split outcome.split)

text \<open>C24: nothing that arrives makes an exception leave the handler of a channel. Data that is not
  a message, a message whose signature does not verify and one without a source are reported and
  change nothing else, and data on a channel that was removed is ignored.\<close>

theorem inbound_errors_contained:
  "fst (Routing_onMessage k cs ch data w) \<noteq> Throw e
   \<and> (rtc_handler w ch = NoHandler \<longrightarrow> Routing_onMessage k cs ch data w = (Return (), w))
   \<and> (rtc_handler w ch = RouteHandler \<longrightarrow>
       (case message_of (np_env k) data of
          Inl e \<Rightarrow> Routing_onMessage k cs ch data w = (Return (), w\<lparr>rtc_cerr := rtc_cerr w @ [e]\<rparr>)
        | Inr m \<Rightarrow> m_source m = None \<longrightarrow>
            Routing_onMessage k cs ch data w =
              (Return (), w\<lparr>rtc_cerr := rtc_cerr w @ [Runtime_error ''Missing message source'']\<rparr>)))"
  by (auto simp: Routing_onMessage_def catchp_report(1) catchp_report(2) routing_route_def bindp_def
      split: handler.split sum.split)

section \<open>Connecting\<close>

lemma match_prefix_iff: "match_prefix str prefix \<longleftrightarrow> (\<exists>rest. str = prefix @ rest)"
  by (auto simp: match_prefix_def) (metis append_take_drop_id)

lemma to_base64_chars:
  assumes "good_tab tab" "c \<in> set (to_base64_impl bin tab padding)"
  shows "b64_ok c \<or> c = CHR ''=''"
proof -
  obtain n where n: "to_base64_impl bin tab padding =
      map (tab_at tab) (b64_sextets bin) @ replicate n CHR ''=''"
    using to_base64_impl_sextets by blast
  have "\<forall>x \<in> set (b64_sextets bin). x < 64"
    using b64_sextets_bound less64_take_bit by (auto simp: list_all_iff)
  then show ?thesis
    using assms tab_at_digit(1) [OF assms(1)] by (auto simp: n)
qed

lemma colon_not_b64: "\<not> b64_ok CHR '':''"
  unfolding b64_ok_def by code_simp

text \<open>An identifier printed as base64url, with or without padding, can be given to \<open>connect\<close>:
  it is not mistaken for a URL, decoding it ends and gives the identifier back, and the node
  starts a peering with that node.\<close>

lemma connect_by_printed_identifier:
  assumes "ecdsa_laws (np_env k)" "ValidatePublic (np_env k) i"
  shows "Node_connect k (to_base64url (Identifier_binary (np_env k) i) padding) w =
    Some (Networking_connectPeer i w)"
proof -
  let ?s = "to_base64url (Identifier_binary (np_env k) i) padding"
  have "CHR '':'' \<notin> set ?s"
    using to_base64_chars [OF good_b64url_tab] colon_not_b64 by (fastforce simp: to_base64url_def)
  then have "\<not> match_prefix ?s ''ws:''" "\<not> match_prefix ?s ''wss:''"
    by (auto simp: match_prefix_iff)
  moreover have "length (Identifier_binary (np_env k) i) = 33"
    using assms by (simp add: identifier_defs ecdsa_lawsD)
  then have "from_base64url ?s = Some (Inr (Identifier_binary (np_env k) i))"
    using b64_decode_encoded [OF good_b64url_tab, of "Identifier_binary (np_env k) i" padding]
    by (simp add: from_base64url_def to_base64url_def b64_tail_def)
  moreover have "Identifier_of (np_env k) (Identifier_binary (np_env k) i) = Inr i"
    using assms by (simp add: identifier_defs ecdsa_lawsD Let_def)
  ultimately show ?thesis
    by (simp add: Node_connect_def)
qed

definition demo_params :: "(nat, nat, string \<times> string) node_params" where
  "demo_params = \<lparr>np_env = demo_env, np_webrtc = demo_webrtc, np_pair = demo_pair, np_stack = 3\<rparr>"

lemma demo_params_fields [simp]:
  "np_env demo_params = demo_env" "np_pair demo_params = demo_pair" "np_stack demo_params = 3"
  by (simp_all add: demo_params_def)

theorem inbound_errors_contained_witness:
  "Routing_onMessage demo_params [CRouting] 1 [0, 1] (demo_world\<lparr>rtc_handler := \<lambda>_. RouteHandler\<rparr>) =
     (Return (), demo_world\<lparr>rtc_handler := \<lambda>_. RouteHandler,
        rtc_cerr := rtc_cerr demo_world @ [Runtime_error ''read out of bounds'']\<rparr>)"
proof -
  have "message_of demo_env [0, 1] = Inl (Runtime_error ''read out of bounds'')"
    by (simp add: message_of_def rd_read_def reader_of_def)
  then show ?thesis
    using inbound_errors_contained [where k = demo_params and cs = "[CRouting]" and ch = 1 and
        data = "[0, 1]" and w = "demo_world\<lparr>rtc_handler := \<lambda>_. RouteHandler\<rparr>"]
    by simp
qed

text \<open>The URL a server gives for itself is always taken by \<open>connect\<close> as the URL of a
  WebSocket, never as an identifier.\<close>

lemma server_url_connects:
  assumes "Server_url p s = Inr url"
  shows "Node_connect k url w = Some (Networking_connectWebSocket url w)"
  using assms
  by (auto simp: Server_url_def Server_generateUrl_def Let_def Node_connect_def match_prefix_iff
      split: option.splits)

section \<open>Connectedness\<close>

lemma removeChannels_view:
  "graph_ready env self w \<Longrightarrow> graph_ready env self (fold routing_removeChannel cs w)"
  "routing_ok w \<Longrightarrow> routing_ok (fold routing_removeChannel cs w)"
  "mTable (fold routing_removeChannel cs w) = mTable w"
  "set (mChannels (fold routing_removeChannel cs w)) = set (mChannels w) - set cs"
proof -
  show "graph_ready env self w \<Longrightarrow> graph_ready env self (fold routing_removeChannel cs w)"
    by (induction cs arbitrary: w) (simp_all add: graph_ready_removeChannel)
  show "routing_ok w \<Longrightarrow> routing_ok (fold routing_removeChannel cs w)"
    by (induction cs arbitrary: w) (simp_all add: routing_ok_removeChannel)
  have one: "mTable (routing_removeChannel c w) = mTable w"
    "set (mChannels (routing_removeChannel c w)) = set (mChannels w) - {c}" for c and w :: "('p, 'z) routing_scheme"
    by (auto simp: routing_removeChannel_def Let_def)
  show "mTable (fold routing_removeChannel cs w) = mTable w"
    by (induction cs arbitrary: w) (simp_all add: one)
  show "set (mChannels (fold routing_removeChannel cs w)) = set (mChannels w) - set cs"
    by (induction cs arbitrary: w) (auto simp: one)
qed

lemma isConnected_links:
  assumes "table_ok self w"
  shows "Node_isConnected w \<longleftrightarrow> \<not> graph_links w self \<subseteq> {self}"
proof -
  let ?t = "mRoutingTable w"
  have t: "mTable w = Some ?t" and find: "\<And>x. rt_findNextHop ?t x = (if x \<in> graph_links w self - {self} then Some x else None)"
    using assms by (simp_all add: table_ok_def)
  have "Node_isConnected w \<longleftrightarrow> rt_nodes ?t \<noteq> []"
    by (simp add: Node_isConnected_def routing_table_def t rt_count_def rt_nodes_def um_keys_def)
  also have "\<dots> \<longleftrightarrow> (\<exists>x. rt_findNextHop ?t x \<noteq> None)"
    using rt_nodes_iff [of _ ?t] by (metis list.set_intros(1) list.set_cases neq_Nil_conv)
  finally show ?thesis
    by (auto simp: find)
qed

text \<open>C33: \<open>isConnected\<close> says whether the last neighbours announced include another node. Removing
  a channel emits no event, so when every channel is gone, and with them every neighbour, it
  still gives the answer it gave before.\<close>

theorem isConnected_outlives_channels:
  assumes "graph_ready env self w" "routing_ok w"
  shows "let w' = fold routing_removeChannel (mChannels w) w
    in (Node_isConnected w \<longleftrightarrow> (\<exists>st x. graph_get self w = Inr st \<and> x \<in> set (st_neighbors st) \<and> x \<noteq> self))
      \<and> mChannels w' = [] \<and> mNeighbors w' = [] \<and> (\<forall>d. routing_findRoute d w' = None)
      \<and> Node_isConnected w' = Node_isConnected w"
proof -
  let ?w = "fold routing_removeChannel (mChannels w) w"
  have ok: "routing_ok ?w"
    using assms(2) by (rule removeChannels_view)
  have "set (mChannels ?w) = {}"
    by (simp add: removeChannels_view(4))
  then have none: "mChannels ?w = []" "mNeighbors ?w = []"
    using ok by (auto simp: routing_ok_def)
  have "routing_findRoute d ?w = None" for d
    by (auto simp: routing_findRoute_def none split: option.split)
  moreover have "Node_isConnected ?w = Node_isConnected w"
    by (simp add: Node_isConnected_def routing_table_def removeChannels_view(3))
  moreover obtain st where st: "graph_state w self = Some st"
    using assms(1) by (auto simp: graph_ready_def local_ok_def)
  then have "graph_get self w = Inr st"
    by (auto simp: graph_get_def graph_state_def graph_findVertice_def bind_eq_Some_conv)
  moreover have "graph_links w self = set (st_neighbors st)"
    using assms(1) st by (simp add: graph_ready_def)
  moreover have "table_ok self w"
    using assms(1) by (simp add: graph_ready_def)
  ultimately show ?thesis
    using none isConnected_links [of self w] by (auto simp: Let_def)
qed

theorem isConnected_outlives_channels_witness:
  "\<exists>w :: nat graph. mChannels w = [1] \<and> um_find (mNeighbors w) 8 = Some 1 \<and> Node_isConnected w
     \<and> (let w' = fold routing_removeChannel (mChannels w) w
        in mChannels w' = [] \<and> mNeighbors w' = [] \<and> Node_isConnected w')"
proof -
  have chans: "mChannels demo_linked = [1]"
    by (simp add: demo_linked_def routing_addNeighbor_def routing_addChannel_def Let_def demo_start_ready us_emplace_def)
  have "routing_ok demo_start"
    by (simp add: routing_ok_def demo_start_ready um_ok_def um_keys_def)
  then have rok: "routing_ok demo_linked"
    by (simp add: demo_linked_def routing_ok_addNeighbor routing_ok_addChannel)
  have ns: "{j. routing_hasNeighbor j demo_linked} = {8}"
    by (auto simp: routing_hasNeighbor_def demo_linked_neighbors)
  obtain w where w: "node_frame demo_linked w" "graph_ready demo_env (pair_public demo_pair) w"
    "graph_links w (pair_public demo_pair) = {8}"
  proof (cases "graph_links demo_linked (pair_public demo_pair) = {8}")
    case True
    then show ?thesis
      using that [of demo_linked] demo_linked_ready by simp
  next
    case False
    then show ?thesis
      using that notify_neighbor_view [OF demo_linked_ready, of 0 8 "Some 1"] ns by auto
  qed
  have fields: "mChannels w = [1]" "mNeighbors w = [(8, 1)]" "routing_ok w"
    using w(1) chans demo_linked_neighbors(1) rok routing_ok_node_frame [OF w(1)] by (simp_all add: node_frame_def)
  have "table_ok (pair_public demo_pair) w"
    using w(2) by (simp add: graph_ready_def)
  then have "Node_isConnected w"
    using isConnected_links w(3) by (fastforce simp: demo_pair_def)
  then show ?thesis
    using isConnected_outlives_channels [OF w(2) fields(3)] fields(1,2)
    by (intro exI [of _ w]) (simp add: Let_def)
qed

section \<open>A broadcast passing through the node\<close>

text \<open>What the functions of the other components need to know of the node's components.\<close>

definition transports_ok :: "('p, 'd, 'z) world_scheme \<Rightarrow> bool" where
  "transports_ok w \<longleftrightarrow>
     mType (w_signaling w) = Signaling \<and> \<not> t_broadcastable (w_signaling w)
     \<and> mType (w_user w) = User \<and> t_broadcastable (w_user w)"

lemma graph_notify_ignores:
  "m_type m \<noteq> Hello \<Longrightarrow> m_type m \<noteq> StateType \<Longrightarrow>
   graph_notify stack env pair (MessageEvent m ch) w = (Return None, w)"
  by (simp add: graph_notify_def)

lemma with_signaling_ignores:
  assumes "m_type m \<noteq> mType (w_signaling w)"
  shows "with_signaling (Transport_notify env (MessageEvent m ch)) w = (Return None, w)"
  using assms by (simp add: with_signaling_def Transport_notify_def)

lemma user_message_components:
  assumes "transports_ok w" "m_type m = User"
  shows "component_notify k (MessageEvent m ch) CGraph w = (Return None, w)"
    "component_notify k (MessageEvent m ch) CSignaling w = (Return None, w)"
  using assms
  by (simp_all add: component_notify_def graph_notify_ignores message_types transports_ok_def
      with_signaling_ignores bindp_def)

lemma notify_quiet:
  assumes "component_notify k e c w = (Return None, w')"
  shows "notify_from k (Suc d) cs e (c # rest) w = notify_from k (Suc d) cs e rest w'"
  using assms by (simp add: notify_from.simps bindp_def)

lemma notify_user_message:
  assumes "transports_ok w" "m_type m = User" "np_stack k = Suc d"
  shows "Node_notify k (Node_components config) (MessageEvent m ch) w =
    notify_from k (Suc d) (Node_components config) (MessageEvent m ch) [CUser] w"
proof -
  have quiet: "component_notify k (MessageEvent m ch) c w = (Return None, w)" if "c \<noteq> CUser" for c
    using that user_message_components [OF assms(1,2), of k ch]
    by (cases c) (simp_all add: component_notify_def)
  have skip: "notify_from k (Suc d) cs (MessageEvent m ch) (xs @ ys) w = notify_from k (Suc d) cs (MessageEvent m ch) ys w"
    if "CUser \<notin> set xs" for cs xs ys
    using that by (induction xs) (auto simp: notify_quiet [OF quiet])
  obtain xs where "Node_components config = xs @ [CUser]" "CUser \<notin> set xs"
    by (cases "cfg_port config") (simp_all add: Node_components_def Node_attach_def)
  then show ?thesis
    using skip by (simp add: Node_notify_def assms(3))
qed

text \<open>C25: a user broadcast arriving on a channel is handed to the user's callback, with its sender
  and its body, and passed on to every other open channel, exactly once: this happens when its
  number is newer than the last one let through from that sender, and a copy that arrives later
  on any channel changes nothing. No other component is affected.\<close>

theorem user_broadcast_handled_once:
  assumes "transports_ok w" "callback_set w" "np_stack k = Suc d"
    and "rtc_handler w ch = RouteHandler" "message_of (np_env k) data = Inr m"
    and "m_type m = User" "m_source m = Some i" "m_destination m = None"
    and "Transport_checkSequence i (m_sequence m) (w_user w) = (True, t)"
  shows "let w' = (routing_broadcast (np_env k) m (Some ch) w)
           \<lparr>w_user := t, delivered := delivered w @ [(i, m_body m)]\<rparr>
    in Routing_onMessage k (Node_components config) ch data w = (Return (), w')
       \<and> (\<forall>ch'. Routing_onMessage k (Node_components config) ch' data w' = (Return (), w'))"
proof -
  let ?cs = "Node_components config"
  let ?b = "routing_broadcast (np_env k) m (Some ch) w"
  let ?w = "?b\<lparr>w_user := t, delivered := delivered w @ [(i, m_body m)]\<rparr>"
  have tt: "t_broadcastable t = t_broadcastable (w_user w)" "mType t = mType (w_user w)"
    using assms(9) by (auto simp: Transport_checkSequence_def split: option.splits if_splits)
  obtain s e where b: "?b = w\<lparr>rtc_sent := s, rtc_cerr := e\<rparr>"
    using routing_broadcast_frame [of "np_env k" m "Some ch" w] by blast
  have again: "Transport_checkSequence i (m_sequence m) t = (False, t)"
    using checkSequence_again [of i "m_sequence m" "w_user w"] assms(9) by simp
  have first: "component_notify k (MessageEvent m (Some ch)) CUser w = (Return None, ?w)"
    using assms(1,2,6-9)
    by (simp add: component_notify_def with_user_def Transport_notify_def Transport_incoming_def
        BroadcastableTransport_incoming_def transports_ok_def Node_receive_def bindp_def b)
  have second: "component_notify k (MessageEvent m from) CUser ?w = (Return None, ?w)" for "from"
    using assms(1,6-8) tt again
    by (simp add: component_notify_def with_user_def Transport_notify_def Transport_incoming_def
        BroadcastableTransport_incoming_def transports_ok_def bindp_def)
  have ok: "transports_ok ?w"
    using assms(1) tt by (simp add: transports_ok_def b)
  have "Node_notify k ?cs (MessageEvent m (Some ch)) w = (Return (), ?w)"
    by (simp add: notify_user_message [OF assms(1,6,3)] notify_quiet [OF first]) (simp add: notify_from.simps)
  moreover have "Node_notify k ?cs (MessageEvent m from) ?w = (Return (), ?w)" for "from"
    by (simp add: notify_user_message [OF ok assms(6,3)] notify_quiet [OF second]) (simp add: notify_from.simps)
  ultimately show ?thesis
    using assms(4,5,7,8)
    by (auto simp: Let_def Routing_onMessage_def routing_route_def catchp_def bindp_def deliver_event_def split: handler.split)
qed

theorem user_broadcast_handled_once_witness:
  "\<exists>data (w :: (nat, string \<times> string) world) w'. rtc_handler w 1 = RouteHandler \<and> delivered w = []
     \<and> Routing_onMessage demo_params (Node_components Configuration_default) 1 data w = (Return (), w')
     \<and> delivered w' = [(7, [1, 2, 3])]
     \<and> Routing_onMessage demo_params (Node_components Configuration_default) 2 data w' = (Return (), w')"
proof -
  let ?w = "demo_world\<lparr>rtc_handler := (\<lambda>_. RouteHandler)\<rparr>"
  obtain m where m: "m_source m = Some 7" "m_type m = User" "m_sequence m = 4" "m_body m = [1, 2, 3]"
    "m_destination m = None" "sbind (message_binary demo_env m) (message_of demo_env) = Inr m"
    using created_message [OF demo_ecdsa_laws demo_pair_ok, of "[1, 2, 3]" None 0 User 4]
    by (auto simp: demo_pair_def)
  then obtain data where data: "message_of demo_env data = Inr m"
    by (auto simp: sbind_Inr_iff)
  have fields: "w_signaling ?w = Transport_new False Signaling 0" "w_user ?w = Transport_new True User 0"
    "callback_set ?w" "delivered ?w = []"
    by (simp_all add: demo_world_def graph.defs)
  have ok: "transports_ok ?w"
    by (simp add: transports_ok_def fields Transport_new_def)
  have check: "Transport_checkSequence 7 (m_sequence m) (w_user ?w) =
      (True, (Transport_new True User 0)\<lparr>mSequences := [(7, 4)]\<rparr>)"
    by (simp add: Transport_checkSequence_def fields Transport_new_def m um_emplace_def)
  have stack: "np_stack demo_params = Suc 2"
    by simp
  have handler: "rtc_handler ?w 1 = RouteHandler"
    by simp
  let ?w' = "(routing_broadcast demo_env m (Some 1) ?w)
      \<lparr>w_user := (Transport_new True User 0)\<lparr>mSequences := [(7, 4)]\<rparr>, delivered := delivered ?w @ [(7, m_body m)]\<rparr>"
  have parse: "message_of (np_env demo_params) data = Inr m"
    using data by simp
  have run: "Routing_onMessage demo_params (Node_components Configuration_default) 1 data ?w = (Return (), ?w')"
    "Routing_onMessage demo_params (Node_components Configuration_default) 2 data ?w' = (Return (), ?w')"
    using user_broadcast_handled_once [OF ok fields(3) stack handler parse m(2,1,5) check, of Configuration_default]
    unfolding Let_def demo_params_fields by blast+
  have "delivered ?w' = [(7, [1, 2, 3])]"
    using fields(4) m(4) by simp
  then show ?thesis
    using run fields(4) handler by blast
qed

section \<open>A neighbour introducing itself\<close>

text \<open>Operations of the graph leave the parts of the node beyond it alone.\<close>

lemma more_world:
  assumes "graph.more w' = graph.more (w :: ('p, 'd, 'z) world_scheme)"
  shows "w_signaling w' = w_signaling w" "w_user w' = w_user w" "mPeerings w' = mPeerings w"
    "delivered w' = delivered w" "callback_set w' = callback_set w" "pc_gathered w' = pc_gathered w"
    "pc_refuses w' = pc_refuses w" "pc_fails w' = pc_fails w" "dc_refuses w' = dc_refuses w" "rng_fails w' = rng_fails w"
  using assms by (cases w, cases w', simp)+

lemma transports_ok_more:
  "graph.more w' = graph.more w \<Longrightarrow> transports_ok (w' :: ('p, 'd, 'z) world_scheme) = transports_ok w"
  using more_world(1,2) [of w' w] by (simp add: transports_ok_def)

lemma with_signaling_same:
  "f (w_signaling w, w) = (out, (w_signaling w, w)) \<Longrightarrow> with_signaling f w = (out, w)"
  by (simp add: with_signaling_def)

lemma with_user_same: "f (w_user w, w) = (out, (w_user w, w)) \<Longrightarrow> with_user f w = (out, w)"
  by (simp add: with_user_def)

lemma quiet_neighbor:
  "c \<noteq> CGraph \<Longrightarrow> component_notify k (NeighborEvent i ch) c w = (Return None, w)"
  by (cases c) (simp_all add: component_notify_def with_signaling_same with_user_same Transport_notify_def bindp_def)

lemma quiet_graph_message:
  assumes "transports_ok w" "m_type m = Hello \<or> m_type m = StateType" "c \<noteq> CGraph"
  shows "component_notify k (MessageEvent m ch) c w = (Return None, w)"
  using assms
  by (cases c) (auto simp: component_notify_def with_signaling_same with_user_same Transport_notify_def
      bindp_def transports_ok_def message_types)

lemma notify_skip:
  assumes "\<forall>c \<in> set xs. component_notify k e c w = (Return None, w)"
  shows "notify_from k (Suc d) cs e (xs @ ys) w = notify_from k (Suc d) cs e ys w"
  using assms by (induction xs) (simp_all add: notify_quiet)

lemma Node_components_graph:
  obtains ys where "Node_components config = [CRouting] @ CGraph # ys" "CGraph \<notin> set ys"
  by (cases "cfg_port config") (simp_all add: Node_components_def Node_attach_def)

text \<open>A neighbour event reaches the graph and nobody else.\<close>

lemma notify_neighbor_event:
  assumes "graph_notify (np_stack k) (np_env k) (np_pair k) (NeighborEvent i ch) w = (Return None, w')"
  shows "notify_from k (Suc d) (Node_components config) (NeighborEvent i ch) (Node_components config) w = (Return (), w')"
proof -
  obtain ys where cs: "Node_components config = [CRouting] @ CGraph # ys" "CGraph \<notin> set ys"
    by (rule Node_components_graph)
  have "\<forall>c \<in> set ys. component_notify k (NeighborEvent i ch) c w' = (Return None, w')"
    using cs(2) by (intro ballI quiet_neighbor) auto
  from notify_skip [OF this, of d "Node_components config" "[]"]
  have rest: "notify_from k (Suc d) (Node_components config) (NeighborEvent i ch) ys w' = (Return (), w')"
    by (simp add: notify_from.simps)
  have "component_notify k (NeighborEvent i ch) CGraph w = (Return None, w')"
    using assms by (simp add: component_notify_def)
  then show ?thesis
    using rest notify_quiet [of k "NeighborEvent i ch" CRouting w w] quiet_neighbor [of CRouting k i ch w]
      notify_quiet [of k "NeighborEvent i ch" CGraph w w'] cs(1)
    by simp
qed

text \<open>What the handler does with a State message that says something new of another node.\<close>

lemma state_handled:
  assumes "graph_ready (np_env k) (Node_id k) w" "transports_ok w" "np_stack k = Suc (Suc (Suc n))"
    and "rtc_handler w ch = RouteHandler" "message_of (np_env k) data = Inr m" "m_destination m = None"
    and s: "State_FromMessage (np_env k) (Some m) = Inr s" "state_id s \<noteq> Node_id k"
      "newer s (graph_state w (state_id s))"
  shows "\<exists>u w'. Routing_onMessage k (Node_components config) ch data w = (Return (), w')
    \<and> accepted_effect (np_env k) (np_pair k) s w u \<and> w' = routing_broadcast (np_env k) m (Some ch) u
    \<and> graph_ready (np_env k) (Node_id k) w'"
proof -
  let ?cs = "Node_components config" and ?e = "MessageEvent m (Some ch)"
  have type: "m_type m = StateType" and source: "m_source m = Some (state_id s)"
    using FromMessage_wf(1) [OF s(1)] s(1) by (auto simp: State_FromMessage_def split: option.splits if_splits)
  obtain u where u: "graph_insert (Suc (Suc (Suc n))) (np_env k) (np_pair k) s w = (Return True, u)"
    "graph_ready (np_env k) (pair_public (np_pair k)) u" "accepted_effect (np_env k) (np_pair k) s w u"
    using insert_state_cases [of "np_env k" "np_pair k" w s n] assms(1) s(2,3) by (auto simp: Node_id_def)
  let ?w = "routing_broadcast (np_env k) m (Some ch) u"
  have "graph.more ?w = graph.more w"
    using u(3) node_frame_broadcast [of u "np_env k" m "Some ch"]
    by (simp add: accepted_effect_def Let_def node_frame_def)
  then have tok: "transports_ok ?w"
    using assms(2) transports_ok_more by blast
  have "component_notify k ?e CGraph w = (Return None, ?w)"
    using notify_state [OF s(1), of "np_stack k" "np_pair k" "Some ch" w] u(1) assms(3)
    by (simp add: component_notify_def bindp_def)
  moreover obtain ys where cs: "?cs = [CRouting] @ CGraph # ys" "CGraph \<notin> set ys"
    by (rule Node_components_graph)
  have "\<forall>c \<in> set ys. component_notify k ?e c ?w = (Return None, ?w)"
    using cs(2) by (intro ballI quiet_graph_message [OF tok]) (auto simp: type)
  from notify_skip [OF this, of "Suc (Suc n)" ?cs "[]"]
  have "notify_from k (Suc (Suc (Suc n))) ?cs ?e ys ?w = (Return (), ?w)"
    by (simp add: notify_from.simps)
  ultimately have "Node_notify k ?cs ?e w = (Return (), ?w)"
    using notify_quiet [of k ?e CRouting w w] notify_quiet [of k ?e CGraph w ?w] quiet_graph_message [OF assms(2), of m CRouting k "Some ch"]
      cs(1) by (simp add: Node_notify_def assms(3) type)
  then have "Routing_onMessage k ?cs ch data w = (Return (), ?w)"
    using assms(4-6) source s(2)
    by (simp add: Routing_onMessage_def routing_route_def catchp_def bindp_def deliver_event_def)
  then show ?thesis
    using u(2,3) by (auto simp: Node_id_def)
qed

text \<open>What the handler does with the Hello of a node that is not a neighbour yet.\<close>

lemma hello_handled:
  assumes "graph_ready (np_env k) (Node_id k) w" "transports_ok w" "np_stack k = Suc (Suc n)"
    and "rtc_handler w ch = RouteHandler" "ch \<in> set (mChannels w)" "message_of (np_env k) data = Inr m"
    and "m_type m = Hello" "m_source m = Some i" "m_destination m = None"
    and "\<not> routing_hasNeighbor i w" "i \<noteq> Node_id k"
    and "announceable (np_env k) (Node_id k) (w\<lparr>mNeighbors := um_emplace i ch (mNeighbors w)\<rparr>)"
  shows "\<exists>w'. Routing_onMessage k (Node_components config) ch data w = (Return (), w')
    \<and> (let u = w\<lparr>mNeighbors := um_emplace i ch (mNeighbors w)\<rparr>
       in graph_ready (np_env k) (Node_id k) w' \<and> node_frame u w'
          \<and> graph_links w' (Node_id k) = {j. routing_hasNeighbor j w} \<union> {i}
          \<and> (if graph_links w (Node_id k) = {j. routing_hasNeighbor j w} \<union> {i}
             then rtc_sent w' = rtc_sent w
             else mStateSequence w' = mStateSequence w + 1
               \<and> graph_state w' = (graph_state w)(Node_id k \<mapsto> local_announcement (Node_id k) u)
               \<and> (\<exists>a. State_toMessage (np_env k) (entropy w) (local_announcement (Node_id k) u) (np_pair k) = Inr a
                  \<and> rtc_sent w' = rtc_sent (routing_broadcast (np_env k) a None u))))"
proof -
  let ?cs = "Node_components config" and ?u = "w\<lparr>mNeighbors := um_emplace i ch (mNeighbors w)\<rparr>"
  have new: "um_find (mNeighbors w) i = None"
    using assms(10) by (simp add: routing_hasNeighbor_def)
  have add: "routing_addNeighbor i ch w = (Some (NeighborEvent i (Some ch)), ?u)"
    using assms(5) new by (simp add: routing_addNeighbor_def)
  have "graph_ready (np_env k) (Node_id k) ?u"
    using assms(1,12) graph_ready_addNeighbor [of "np_env k" "Node_id k" w i ch] by (simp add: add)
  then have ready: "graph_ready (np_env k) (pair_public (np_pair k)) ?u"
    by (simp add: Node_id_def)
  have has: "routing_hasNeighbor j ?u \<longleftrightarrow> routing_hasNeighbor j w \<or> j = i" for j
    using new by (simp add: routing_hasNeighbor_def um_find_emplace)
  obtain w' where w': "graph_notify (np_stack k) (np_env k) (np_pair k) (NeighborEvent i (Some ch)) ?u = (Return None, w')"
    "graph_ready (np_env k) (pair_public (np_pair k)) w'" "node_frame ?u w'"
    "graph_links w' (pair_public (np_pair k)) = {j. routing_hasNeighbor j ?u}"
    "if graph_links ?u (pair_public (np_pair k)) = {j. routing_hasNeighbor j ?u} then rtc_sent w' = rtc_sent ?u
     else mStateSequence w' = mStateSequence ?u + 1
       \<and> graph_state w' = (graph_state ?u)(pair_public (np_pair k) \<mapsto> local_announcement (pair_public (np_pair k)) ?u)
       \<and> (\<exists>a. State_toMessage (np_env k) (entropy ?u) (local_announcement (pair_public (np_pair k)) ?u) (np_pair k) = Inr a
         \<and> rtc_sent w' = rtc_sent (routing_broadcast (np_env k) a None ?u))"
    using notify_neighbor_view [OF ready, of n i "Some ch"] assms(3) ready
    by (cases "graph_links ?u (pair_public (np_pair k)) = {j. routing_hasNeighbor j ?u}") (auto simp: has)
  have "graph.more w' = graph.more w"
    using w'(3) by (simp add: node_frame_def)
  then have tok: "transports_ok w'"
    using assms(2) transports_ok_more by blast
  have nested: "notify_from k (Suc n) ?cs (NeighborEvent i (Some ch)) ?cs ?u = (Return (), w')"
    by (rule notify_neighbor_event [OF w'(1)])
  obtain ys where cs: "?cs = [CRouting] @ CGraph # ys" "CGraph \<notin> set ys"
    by (rule Node_components_graph)
  have "\<forall>c \<in> set ys. component_notify k (MessageEvent m (Some ch)) c w' = (Return None, w')"
    using cs(2) by (intro ballI quiet_graph_message [OF tok]) (auto simp: assms(7))
  from notify_skip [OF this, of "Suc n" ?cs "[]"]
  have rest: "notify_from k (Suc (Suc n)) ?cs (MessageEvent m (Some ch)) ys w' = (Return (), w')"
    by (simp add: notify_from.simps)
  have "component_notify k (MessageEvent m (Some ch)) CGraph w = (Return (Some (NeighborEvent i (Some ch))), ?u)"
    using assms(7,8,10) add by (simp add: component_notify_def graph_notify_def)
  then have "notify_from k (Suc (Suc n)) ?cs (MessageEvent m (Some ch)) (CGraph # ys) w = (Return (), w')"
    using nested rest by (simp add: notify_from.simps(3) [of k "Suc n" ?cs] bindp_def)
  then have "Node_notify k ?cs (MessageEvent m (Some ch)) w = (Return (), w')"
    using notify_quiet [OF quiet_graph_message [OF assms(2), of m CRouting k "Some ch"], of "Suc n" ?cs "CGraph # ys"] cs(1)
    by (simp add: Node_notify_def assms(3,7))
  then have run: "Routing_onMessage k ?cs ch data w = (Return (), w')"
    using assms(4,6,8,9) by (simp add: Routing_onMessage_def routing_route_def catchp_def bindp_def deliver_event_def)
  have "graph_links ?u j = graph_links w j" "graph_state ?u j = graph_state w j" for j
    by (simp_all add: graph_links_def graph_state_def graph_findVertice_def cong: option.case_cong)
  moreover from this have "graph_state ?u = graph_state w"
    by (simp add: fun_eq_iff)
  moreover have "{j. routing_hasNeighbor j ?u} = {j. routing_hasNeighbor j w} \<union> {i}"
    using has by auto
  ultimately show ?thesis
    using run w' by (cases "graph_links w (Node_id k) = {j. routing_hasNeighbor j w} \<union> {i}") (auto simp: Node_id_def Let_def)
qed

lemma State_toMessage_bytes:
  assumes "State_toMessage env seed s pair = Inr m"
  obtains data where "message_binary env m = Inr data"
  using assms by (auto simp: State_toMessage_simp message_sign_def sbind_Inr_iff message_binary_layout Let_def split: if_splits)

text \<open>C26: the Hello of a node that is not a neighbour yet makes it one, reached through the channel
  the Hello came from, as long as the new neighbour list fits in a message. When the handler
  returns, the routing table sends messages for the new neighbour to the new neighbour, routing
  finds the channel for them, and the node has announced its neighbours with the new one among
  them: it has put the serialised announcement on every open channel that takes it, unless
  its last announcement already listed exactly these neighbours (one that lost its channel and
  says hello again), when nothing is sent.\<close>

theorem hello_makes_neighbour:
  assumes "graph_ready (np_env k) (Node_id k) w" "transports_ok w" "np_stack k = Suc (Suc n)"
    and "rtc_handler w ch = RouteHandler" "ch \<in> set (mChannels w)" "message_of (np_env k) data = Inr m"
    and "m_type m = Hello" "m_source m = Some i" "m_destination m = None"
    and "\<not> routing_hasNeighbor i w" "i \<noteq> Node_id k"
    and "announceable (np_env k) (Node_id k) (w\<lparr>mNeighbors := um_emplace i ch (mNeighbors w)\<rparr>)"
  shows "\<exists>w'. Routing_onMessage k (Node_components config) ch data w = (Return (), w')
    \<and> graph_ready (np_env k) (Node_id k) w'
    \<and> um_find (mNeighbors w') i = Some ch \<and> graph_links w' (Node_id k) = {j. routing_hasNeighbor j w} \<union> {i}
    \<and> rt_findNextHop (graph_routingTable w') i = Some i \<and> routing_findRoute i w' = Some ch
    \<and> (if graph_links w (Node_id k) = {j. routing_hasNeighbor j w} \<union> {i} then rtc_sent w' = rtc_sent w
       else \<exists>s a bytes. graph_state w' (Node_id k) = Some s
         \<and> set (st_neighbors s) = {j. routing_hasNeighbor j w} \<union> {i} \<and> st_sequence s = mStateSequence w
         \<and> State_toMessage (np_env k) (entropy w) s (np_pair k) = Inr a \<and> message_binary (np_env k) a = Inr bytes
         \<and> rtc_sent w' = rtc_sent w @ map (\<lambda>c. (c, bytes))
             (filter (\<lambda>c. rtc_throws w c bytes = None) (filter (rtc_open w) (mChannels w))))"
proof -
  let ?u = "w\<lparr>mNeighbors := um_emplace i ch (mNeighbors w)\<rparr>" and ?self = "Node_id k"
  have new: "um_find (mNeighbors w) i = None"
    using assms(10) by (simp add: routing_hasNeighbor_def)
  obtain w' where w': "Routing_onMessage k (Node_components config) ch data w = (Return (), w')"
    "graph_ready (np_env k) (Node_id k) w'" "node_frame (w\<lparr>mNeighbors := um_emplace i ch (mNeighbors w)\<rparr>) w'"
    "graph_links w' (Node_id k) = {j. routing_hasNeighbor j w} \<union> {i}"
    "if graph_links w (Node_id k) = {j. routing_hasNeighbor j w} \<union> {i} then rtc_sent w' = rtc_sent w
     else graph_state w' = (graph_state w)(?self \<mapsto> local_announcement ?self ?u)
       \<and> (\<exists>a. State_toMessage (np_env k) (entropy w) (local_announcement ?self ?u) (np_pair k) = Inr a
          \<and> rtc_sent w' = rtc_sent (routing_broadcast (np_env k) a None ?u))"
    using hello_handled [OF assms, of config] by (fastforce simp: Let_def split: if_splits)
  have find: "um_find (mNeighbors w') i = Some ch"
    using w'(3) new by (simp add: node_frame_def um_find_emplace)
  have "table_ok (Node_id k) w'"
    using w'(2) by (simp add: graph_ready_def)
  then have hop: "rt_findNextHop (graph_routingTable w') i = Some i" "mTable w' = Some (graph_routingTable w')"
    using w'(4) assms(11) by (simp_all add: table_ok_def graph_routingTable_def)
  then have "routing_findRoute i w' = Some ch"
    using find by (simp add: routing_findRoute_def)
  moreover have "if graph_links w (Node_id k) = {j. routing_hasNeighbor j w} \<union> {i} then rtc_sent w' = rtc_sent w
       else \<exists>s a bytes. graph_state w' (Node_id k) = Some s
         \<and> set (st_neighbors s) = {j. routing_hasNeighbor j w} \<union> {i} \<and> st_sequence s = mStateSequence w
         \<and> State_toMessage (np_env k) (entropy w) s (np_pair k) = Inr a \<and> message_binary (np_env k) a = Inr bytes
         \<and> rtc_sent w' = rtc_sent w @ map (\<lambda>c. (c, bytes))
             (filter (\<lambda>c. rtc_throws w c bytes = None) (filter (rtc_open w) (mChannels w)))"
  proof (cases "graph_links w (Node_id k) = {j. routing_hasNeighbor j w} \<union> {i}")
    case False
    then obtain a where a: "graph_state w' ?self = Some (local_announcement ?self ?u)"
        "State_toMessage (np_env k) (entropy w) (local_announcement ?self ?u) (np_pair k) = Inr a"
        "rtc_sent w' = rtc_sent (routing_broadcast (np_env k) a None ?u)"
      using w'(5) by auto
    obtain bytes where bytes: "message_binary (np_env k) a = Inr bytes"
      by (rule State_toMessage_bytes [OF a(2)])
    have "set (st_neighbors (local_announcement ?self ?u)) = {j. routing_hasNeighbor j w} \<union> {i}"
      using new routing_neighbors_set [of ?u]
      by (auto simp: local_announcement_def routing_hasNeighbor_def um_find_emplace split: if_splits)
    then show ?thesis
      using False a bytes rtc_sent_broadcast(1) [OF bytes, of None ?u]
      by (intro if_not_P [THEN iffD2] exI [of _ "local_announcement ?self ?u"]) (auto simp: local_announcement_def State_new_def)
  qed (use w'(5) in simp)
  ultimately show ?thesis
    using w'(1,2,4) find hop by blast
qed

text \<open>A node that just started and has one channel.\<close>

definition demo_joined :: "(nat, string \<times> string) world" where
  "demo_joined = routing_addChannel 1 (graph.extend demo_start (graph.more demo_world))"

lemma demo_joined_fields:
  "g_heap demo_joined = g_heap demo_start" "mVertices demo_joined = mVertices demo_start"
  "mRoutingTable demo_joined = mRoutingTable demo_start" "mTable demo_joined = mTable demo_start"
  "mEcdh demo_joined = mEcdh demo_start" "mStateSequence demo_joined = mStateSequence demo_start"
  "mNeighbors demo_joined = []" "mChannels demo_joined = [1]" "rtc_handler demo_joined 1 = RouteHandler"
  "graph.more demo_joined = graph.more demo_world"
  using demo_start_ready(3,4)
  by (simp_all add: demo_joined_def routing_addChannel_def Let_def graph.defs us_emplace_def)

lemma demo_joined_announceable:
  assumes "mNeighbors w = [] \<or> mNeighbors w = [(8, ch)]" "mEcdh w = Ecdh_new demo_env 5"
  shows "announceable demo_env (pair_public demo_pair) w"
proof -
  have "routing_neighbors w = [] \<or> routing_neighbors w = [8]"
    using assms(1) by (auto simp: routing_neighbors_def um_keys_def oset_of_def oset_insert_def insort_insert_key_def)
  then show ?thesis
    unfolding announceable_neighbors assms(2)
    by (auto simp: Ecdh_new_def demo_env_def identifier_defs)
qed

theorem hello_makes_neighbour_witness:
  "\<exists>data w'. Routing_onMessage demo_params (Node_components Configuration_default) 1 data demo_joined = (Return (), w')
     \<and> um_find (mNeighbors w') 8 = Some 1 \<and> routing_findRoute 8 w' = Some 1"
proof -
  have id: "Node_id demo_params = pair_public demo_pair"
    by (simp add: Node_id_def)
  have ready: "graph_ready (np_env demo_params) (Node_id demo_params) demo_joined"
    unfolding id demo_params_fields
    by (rule graph_ready_routing [OF demo_start_ready(1)])
      (simp_all add: demo_joined_fields demo_joined_announceable demo_start_ready)
  have ok: "transports_ok demo_joined"
    using transports_ok_more [OF demo_joined_fields(10)]
    by (simp add: transports_ok_def demo_world_def graph.defs Transport_new_def)
  obtain m where m: "m_source m = Some 8" "m_type m = Hello" "m_destination m = None"
    "sbind (message_binary demo_env m) (message_of demo_env) = Inr m"
    using created_message [OF demo_ecdsa_laws, of "\<lparr>pair_private = 8, pair_public = 8\<rparr>" "[]" None 0 Hello 0]
    by (auto simp: pair_ok_def demo_env_def)
  then obtain data where "message_of demo_env data = Inr m"
    by (auto simp: sbind_Inr_iff)
  then have parse: "message_of (np_env demo_params) data = Inr m"
    by simp
  have stack: "np_stack demo_params = Suc (Suc 1)"
    by simp
  have new: "\<not> routing_hasNeighbor 8 demo_joined" "(8 :: nat) \<noteq> Node_id demo_params" "1 \<in> set (mChannels demo_joined)"
    by (simp_all add: routing_hasNeighbor_def demo_joined_fields id demo_pair_def)
  have "announceable demo_env (pair_public demo_pair) (demo_joined\<lparr>mNeighbors := um_emplace 8 1 (mNeighbors demo_joined)\<rparr>)"
    by (rule demo_joined_announceable [of _ 1]) (simp_all add: demo_joined_fields um_emplace_def demo_start_ready)
  then have ann: "announceable (np_env demo_params) (Node_id demo_params)
      (demo_joined\<lparr>mNeighbors := um_emplace 8 1 (mNeighbors demo_joined)\<rparr>)"
    by (simp add: id)
  show ?thesis
    using hello_makes_neighbour [OF ready ok stack demo_joined_fields(9) new(3) parse m(2,1,3) new(1,2) ann,
        of Configuration_default] by blast
qed

end
