(* ===== verification/Node_Start.thy ===== *)
theory Node_Start
  imports Node
begin

text \<open>
  The construction of a node (\<open>impl::Node::Node\<close> in \<open>src/impl/node.cpp\<close>, with the members in the
  order of \<open>node.hpp\<close>) and the invariant that holds between the node's operations.
\<close>

section \<open>The constructor\<close>

record ('p, 'k, 'd, 'f) node =
  nd_config :: Configuration
  nd_pair :: "('p, 'k) EcdsaPair"
  nd_scheduler :: "'f scheduler"
  nd_server :: "server option"
  nd_world :: "('p, 'd) world"
  nd_components :: "component list"

text \<open>
  Networking with its signaling transport, then the user transport, on a graph: the state of
  the node. What libdatachannel answers is taken from \<open>net\<close>; \<open>q\<close> and \<open>q'\<close> are the
  indeterminate first numbers of the two transports.
\<close>

definition Networking_new ::
    "32 word \<Rightarrow> 32 word \<Rightarrow> ('p, 'd) world \<Rightarrow> 'p graph \<Rightarrow> ('p, 'd) world" where
  "Networking_new q q' net g =
     (graph.extend g (graph.more net))
       \<lparr>w_signaling := Transport_new False Signaling q, w_user := Transport_new True User q',
        mPeerings := [], pc_remote := [], ws_opened := [], ch_role := (\<lambda>_. NoRole), rtc_closed := [],
        callback_set := False, delivered := []\<rparr>"

text \<open>\<open>config.port ? std::make_shared<Server>(config, this) : nullptr\<close>\<close>

definition Node_server :: "plum \<Rightarrow> bool \<Rightarrow> Configuration \<Rightarrow> server option outcome" where
  "Node_server p indeterminate config =
     (if cfg_port config \<noteq> None then
        (case Server_new p indeterminate config of
           (Return _, s) \<Rightarrow> Return (Some s)
         | (Throw e, s) \<Rightarrow> Throw e
         | (Overflow, s) \<Rightarrow> Overflow)
      else Return None)"

text \<open>
  The members in order: the key pair, the scheduler, routing, the graph, the server,
  networking, the user transport. When one of them throws, those before it are destroyed and
  no node is left.
\<close>

definition Node_new ::
    "nat \<Rightarrow> ('p::linorder, 'k) env \<Rightarrow> plum \<Rightarrow> bool \<Rightarrow> 32 word \<Rightarrow> 32 word \<Rightarrow> ('p, 'd) world
     \<Rightarrow> Configuration \<Rightarrow> ('p, 'k, 'd, 'f) node outcome" where
  "Node_new stack env p indeterminate q q' net config =
     (case EcdsaPair_new env (entropy net) of
        Inl e \<Rightarrow> Throw e
      | Inr pair \<Rightarrow>
          (case Graph_new stack env pair (g_ptr net) (entropy net + 1) (Routing_new (rtc_open net) (rtc_throws net)) of
             (Throw e, g) \<Rightarrow> Throw e
           | (Overflow, g) \<Rightarrow> Overflow
           | (Return _, g) \<Rightarrow>
               (case Node_server p indeterminate config of
                  Throw e \<Rightarrow> Throw e
                | Overflow \<Rightarrow> Overflow
                | Return s \<Rightarrow>
                    Return \<lparr>nd_config = config, nd_pair = pair, nd_scheduler = Scheduler_new, nd_server = s,
                      nd_world = Networking_new q q' net g, nd_components = Node_components config\<rparr>)))"

section \<open>The invariant\<close>

definition world_ok :: "('p::linorder, 'k) env \<Rightarrow> 'p \<Rightarrow> ('p, 'd, 'z) world_scheme \<Rightarrow> bool" where
  "world_ok env self w \<longleftrightarrow> node_inv env self w \<and> peerings_ok w \<and> transports_ok w"

lemma world_okD:
  assumes "world_ok env self w"
  shows "graph_ready env self w" "routing_ok w" "node_inv env self w" "peerings_ok w" "transports_ok w"
  using assms by (simp_all add: world_ok_def node_inv_def)

text \<open>The parts of the state the invariant of graph and routing reads.\<close>

definition node_core :: "('p, 'z) graph_scheme \<Rightarrow> _" where
  "node_core w = (g_heap w, mVertices w, mRoutingTable w, mTable w, mEcdh w, mStateSequence w,
     mNeighbors w, mChannels w, rtc_handler w)"

lemma node_inv_core:
  assumes "node_core w' = node_core w" "node_inv env self w"
  shows "node_inv env self w'"
proof -
  have "announceable env self w'"
    using assms by (simp add: node_inv_def graph_ready_def announceable_neighbors routing_neighbors_def node_core_def)
  then have "graph_ready env self w'"
    using assms graph_ready_routing [of env self w w'] by (simp add: node_inv_def node_core_def)
  then show ?thesis
    using assms by (simp add: node_inv_def routing_ok_def node_core_def)
qed

lemma Networking_new_fields:
  "node_core (Networking_new q q' net g) = node_core g"
  "transports_ok (Networking_new q q' net g)" "peerings_ok (Networking_new q q' net g)"
  "delivered (Networking_new q q' net g) = []" "mPeerings (Networking_new q q' net g) = []"
  by (simp_all add: Networking_new_def node_core_def graph.defs transports_ok_def Transport_new_def
      peerings_ok_def um_ok_def um_keys_def)

lemma Node_server_cases:
  "(cfg_port config = None \<and> Node_server p i config = Return None)
   \<or> (cfg_port config \<noteq> None \<and> (\<exists>s. Node_server p i config = Return (Some s)))
   \<or> (\<exists>reason. Node_server p i config = Throw (Runtime_error reason))"
  by (auto simp: Node_server_def Server_new_def catchp_def Server_external_def Server_mapped_def
      Server_createWebSocketServer_def Server_updateExternal_def bindp_def Let_def
      split: sum.splits prod.splits outcome.splits option.splits)

lemma Networking_new_started:
  assumes "ecdh_laws env"
    and "Graph_new (Suc (Suc (Suc n))) env pair (g_ptr net) seed (Routing_new opened throws) = (out, g)"
  shows "\<exists>st. out = Return True \<and> world_ok env (pair_public pair) (Networking_new q q' net g)
    \<and> graph_get (pair_public pair) (Networking_new q q' net g) = Inr st
    \<and> st_sequence st = 0 \<and> st_neighbors st = [] \<and> \<not> Node_isConnected (Networking_new q q' net g)"
proof -
  let ?w = "Networking_new q q' net g" and ?self = "pair_public pair"
  let ?st = "local_announcement ?self (Graph_fields (g_ptr net) (Ecdh_new env seed) (seed + 1) (Routing_new opened throws))"
  have "length (dh_public (Ecdh_new env seed)) \<le> 65535"
    using assms(1) by (simp add: ecdh_laws_def)
  from Graph_new_ready [OF this refl refl, of n pair "g_ptr net" opened throws]
  have g: "out = Return True" "graph_ready env ?self g" "graph_state g = Map.empty(?self \<mapsto> ?st)"
      "mChannels g = []" "mNeighbors g = []" "rtc_handler g = (\<lambda>_. NoHandler)"
    using assms(2) by auto
  have inv: "node_inv env ?self ?w"
    by (rule node_inv_core [OF Networking_new_fields(1)]) (simp add: node_inv_def routing_ok_def g)
  have "graph_state ?w i = graph_state g i" for i
    using Networking_new_fields(1) [of q q' net g]
    by (simp add: graph_state_def graph_findVertice_def node_core_def)
  then have get: "graph_get ?self ?w = Inr ?st"
    by (simp add: get_state g)
  have nb: "st_neighbors ?st = []"
    by (simp add: local_announcement_def routing_neighbors_def Routing_new_def um_keys_def oset_of_def)
  have "graph_links ?w ?self = {}"
    using inv get nb by (simp add: node_inv_def graph_ready_def get_state)
  then have "\<not> Node_isConnected ?w"
    using inv isConnected_links [of ?self ?w] by (simp add: node_inv_def graph_ready_def)
  moreover have "st_sequence ?st = 0"
    by (simp add: local_announcement_def State_new_def)
  moreover have "world_ok env ?self ?w"
    using inv Networking_new_fields(2,3) [of q q' net g] by (simp add: world_ok_def)
  ultimately show ?thesis
    using g(1) get nb by blast
qed

lemma Node_new_ok:
  assumes "ecdh_laws env"
    and "Node_new (Suc (Suc (Suc n))) env p indeterminate q q' net config = Return nd"
  shows "world_ok env (pair_public (nd_pair nd)) (nd_world nd)"
proof -
  obtain pair where pair: "EcdsaPair_new env (entropy net) = Inr pair"
    using assms(2) by (cases "EcdsaPair_new env (entropy net)") (auto simp: Node_new_def)
  obtain out g where g: "Graph_new (Suc (Suc (Suc n))) env pair (g_ptr net) (entropy net + 1)
      (Routing_new (rtc_open net) (rtc_throws net)) = (out, g)"
    by fastforce
  show ?thesis
    using assms(2) Networking_new_started [OF assms(1) g, of q q']
    by (auto simp: Node_new_def pair g [simplified] split: outcome.splits)
qed

text \<open>A new node knows of nobody else and has sent nothing.\<close>

lemma Node_new_silent:
  assumes "ecdh_laws env"
    and "Node_new (Suc (Suc (Suc n))) env p indeterminate q q' net config = Return nd"
  shows "rtc_sent (nd_world nd) = []" "mEcdh (nd_world nd) = Ecdh_new env (entropy net + 1)"
    "mNeighbors (nd_world nd) = []" "mChannels (nd_world nd) = []" "mStateSequence (nd_world nd) = 1"
    "graph_state (nd_world nd) i \<noteq> None \<longleftrightarrow> i = pair_public (nd_pair nd)" "graph_links (nd_world nd) i = {}"
    "w_user (nd_world nd) = Transport_new True User q'" "mPeerings (nd_world nd) = []"
    "w_signaling (nd_world nd) = Transport_new False Signaling q"
proof -
  have short: "length (dh_public (Ecdh_new env (entropy net + 1))) \<le> 65535"
    using assms(1) by (simp add: ecdh_laws_def)
  obtain pair where pair: "EcdsaPair_new env (entropy net) = Inr pair"
    using assms(2) by (cases "EcdsaPair_new env (entropy net)") (auto simp: Node_new_def)
  from Graph_new_ready [OF short refl refl, of n pair "g_ptr net" "rtc_open net" "rtc_throws net"]
  obtain g where new: "Graph_new (Suc (Suc (Suc n))) env pair (g_ptr net) (entropy net + 1)
      (Routing_new (rtc_open net) (rtc_throws net)) = (Return True, g)"
    and ready: "graph_ready env (pair_public pair) g"
    and g: "graph_state g = Map.empty(pair_public pair \<mapsto> local_announcement (pair_public pair)
        (Graph_fields (g_ptr net) (Ecdh_new env (entropy net + 1)) (entropy net + 1 + 1) (Routing_new (rtc_open net) (rtc_throws net))))"
      "mChannels g = []" "mNeighbors g = []" "mStateSequence g = 1" "mEcdh g = Ecdh_new env (entropy net + 1)" "rtc_sent g = []"
    by blast
  have nd: "nd_world nd = Networking_new q q' net g" "nd_pair nd = pair"
    using assms(2) by (auto simp: Node_new_def pair new [simplified] split: outcome.splits)
  let ?w = "Networking_new q q' net g"
  have core: "node_core ?w = node_core g"
    by (rule Networking_new_fields(1))
  then have "graph_state ?w i = graph_state g i" and links: "graph_links ?w i = graph_links g i"
    by (simp_all add: graph_state_def graph_links_def graph_findVertice_def node_core_def cong: option.case_cong)
  then show "graph_state (nd_world nd) i \<noteq> None \<longleftrightarrow> i = pair_public (nd_pair nd)"
    using g(1) nd by (auto split: if_splits)
  show "rtc_sent (nd_world nd) = []"
    by (simp add: nd Networking_new_def graph.defs g)
  show "graph_links (nd_world nd) i = {}"
    using ready g(1) links
    by (simp add: nd graph_ready_def local_announcement_def routing_neighbors_def Routing_new_def um_keys_def oset_of_def)
  show "w_user (nd_world nd) = Transport_new True User q'" "mPeerings (nd_world nd) = []"
      "w_signaling (nd_world nd) = Transport_new False Signaling q"
    by (simp_all add: nd Networking_new_def graph.defs)
  show "mEcdh (nd_world nd) = Ecdh_new env (entropy net + 1)" "mNeighbors (nd_world nd) = []"
    "mChannels (nd_world nd) = []" "mStateSequence (nd_world nd) = 1"
    using g core by (simp_all add: nd node_core_def)
qed

text \<open>C19: constructing a node either throws a runtime error or leaves a node that satisfies the
  invariant of all its components: its key pair is a valid one, it is in its own graph with the
  announcement numbered 0 and no neighbours, it is not connected, no message has been delivered,
  and it has a server exactly when a port is configured. Three stack frames are enough.\<close>

theorem node_constructed:
  fixes net :: "('p::linorder, 'd) world"
  assumes "ecdh_laws env"
  shows "case (Node_new (Suc (Suc (Suc n))) env p indeterminate q q' net config :: ('p, 'k, 'd, 'f) node outcome) of
     Return nd \<Rightarrow>
       (let self = pair_public (nd_pair nd); w = nd_world nd
        in pair_ok env (nd_pair nd) \<and> world_ok env self w
           \<and> (\<exists>st. graph_get self w = Inr st \<and> st_sequence st = 0 \<and> st_neighbors st = [])
           \<and> \<not> Node_isConnected w \<and> delivered w = [] \<and> mPeerings w = []
           \<and> (nd_server nd = None \<longleftrightarrow> cfg_port config = None))
   | Throw e \<Rightarrow> \<exists>reason. e = Runtime_error reason
   | Overflow \<Rightarrow> False"
proof (cases "EcdsaPair_new env (entropy net)")
  case (Inl e)
  then show ?thesis
    by (auto simp: Node_new_def EcdsaPair_new_def Let_def split: if_splits)
next
  case (Inr pair)
  obtain out g where g: "Graph_new (Suc (Suc (Suc n))) env pair (g_ptr net) (entropy net + 1)
      (Routing_new (rtc_open net) (rtc_throws net)) = (out, g)"
    by fastforce
  note start = Networking_new_started [OF assms g, of q q']
  show ?thesis
    using Node_server_cases [of config p indeterminate] start EcdsaPair_new_ok [OF Inr]
      Networking_new_fields(4,5) [of q q' net g]
    by (auto simp: Node_new_def Inr g [simplified] Let_def)
qed

lemma demo_server_started: "\<exists>s. Node_server demo_plum False Configuration_default = Return (Some s)"
  by (simp add: Node_server_def Server_new_def catchp_def Configuration_default_def demo_plum_def Server_mapped_def
      Server_createWebSocketServer_def bindp_def value_or_def Let_def)

theorem node_constructed_witness:
  "\<exists>nd :: (nat, nat, string \<times> string, int) node.
     Node_new (Suc (Suc (Suc 0))) demo_env demo_plum False 0 0 demo_world Configuration_default = Return nd
     \<and> world_ok demo_env (pair_public (nd_pair nd)) (nd_world nd) \<and> nd_server nd \<noteq> None"
proof -
  obtain pair where pair: "EcdsaPair_new demo_env (entropy demo_world) = Inr pair"
    by (simp add: EcdsaPair_new_def demo_env_def Let_def demo_world_def demo_line_def graph.defs routing.defs)
  obtain out g where g: "Graph_new (Suc (Suc (Suc 0))) demo_env pair (g_ptr demo_world) (Suc (entropy demo_world))
      (Routing_new (rtc_open demo_world) (rtc_throws demo_world)) = (out, g)"
    by fastforce
  have "out = Return True"
    using Networking_new_started [OF demo_ecdh_laws g] by blast
  then obtain nd :: "(nat, nat, string \<times> string, int) node" where
    "Node_new (Suc (Suc (Suc 0))) demo_env demo_plum False 0 0 demo_world Configuration_default = Return nd"
    using demo_server_started by (auto simp: Node_new_def pair g)
  then show ?thesis
    using node_constructed [OF demo_ecdh_laws, where 'f = int and n = 0 and p = demo_plum and indeterminate = False and
        q = 0 and q' = 0 and net = demo_world and config = Configuration_default]
    by (auto simp: Let_def Configuration_default_def)
qed

end
