(* ===== verification/Node_Invariant.thy ===== *)
theory Node_Invariant
  imports Node_Start
begin

text \<open>
  Every operation of a whole node keeps the invariant of all its components and ends without
  running out of stack: the callbacks of libdatachannel, the delivery of events, the calls of
  the interface and the periodic updates.
\<close>

section \<open>Callbacks that deliver events\<close>

definition Node_localDescription ::
    "('p::linorder, 'k, 'd) node_params \<Rightarrow> component list \<Rightarrow> 'p \<Rightarrow> 'd
     \<Rightarrow> (('p, 'd, 'z) world_scheme, unit) prog" where
  "Node_localDescription k cs i d w =
     (case um_find (mPeerings w) i of
        None \<Rightarrow> (Return (), w)
      | Some p \<Rightarrow>
          bindp (Peering_onLocalDescription (np_env k) (np_webrtc k) (np_pair k) p d) (deliver_event k cs) w)"

definition Node_gatheringStateChange ::
    "('p::linorder, 'k, 'd) node_params \<Rightarrow> component list \<Rightarrow> 'p \<Rightarrow> bool
     \<Rightarrow> (('p, 'd, 'z) world_scheme, unit) prog" where
  "Node_gatheringStateChange k cs i complete w =
     (case um_find (mPeerings w) i of
        None \<Rightarrow> (Return (), w)
      | Some p \<Rightarrow>
          bindp (Peering_onGatheringStateChange (np_env k) (np_webrtc k) (np_pair k) p complete)
            (deliver_event k cs) w)"

section \<open>What the operations keep\<close>

text \<open>Same graph, routing, peerings and kinds of transports: nothing the invariant reads.\<close>

definition quiet :: "('p, 'd, 'z) world_scheme \<Rightarrow> ('p, 'd, 'z) world_scheme \<Rightarrow> bool" where
  "quiet w w' \<longleftrightarrow> node_core w' = node_core w \<and> mPeerings w' = mPeerings w
     \<and> t_broadcastable (w_signaling w') = t_broadcastable (w_signaling w)
     \<and> mType (w_signaling w') = mType (w_signaling w)
     \<and> t_broadcastable (w_user w') = t_broadcastable (w_user w) \<and> mType (w_user w') = mType (w_user w)"

lemma quiet_refl [simp]: "quiet w w"
  by (simp add: quiet_def)

lemma quiet_trans: "quiet u v \<Longrightarrow> quiet v w \<Longrightarrow> quiet u w"
  by (simp add: quiet_def)

lemma quiet_ok: "quiet w w' \<Longrightarrow> world_ok env self w \<Longrightarrow> world_ok env self w'"
  using node_inv_core [of w' w env self]
  by (simp add: quiet_def world_ok_def peerings_ok_def transports_ok_def)

lemma core_sends [simp]:
  "node_core (w\<lparr>rtc_sent := s, rtc_cerr := c\<rparr>) = node_core w"
  "node_core (w\<lparr>rtc_cerr := c\<rparr>) = node_core w" "node_core (w\<lparr>rtc_sent := s\<rparr>) = node_core w"
  by (simp_all add: node_core_def)

text \<open>Computations that throw or return without overflowing and keep a relation.\<close>

definition keeps :: "('w \<Rightarrow> 'w \<Rightarrow> bool) \<Rightarrow> ('w, 'a) prog \<Rightarrow> 'w \<Rightarrow> bool" where
  "keeps R f w \<longleftrightarrow> fst (f w) \<noteq> Overflow \<and> R w (snd (f w))"

lemma keeps_cong: "f x = g x \<Longrightarrow> keeps R g x \<Longrightarrow> keeps R f x"
  by (simp add: keeps_def)

lemma keeps_bind:
  assumes "keeps R f w" "\<And>a w'. f w = (Return a, w') \<Longrightarrow> keeps R (g a) w'"
    and "\<And>u v w. R u v \<Longrightarrow> R v w \<Longrightarrow> R u w"
  shows "keeps R (bindp f g) w"
  using assms(1,2) assms(3) [of w "snd (f w)"]
  by (cases "f w"; cases "fst (f w)") (auto simp: keeps_def bindp_def)

definition send_frame :: "('p, 'z) graph_scheme \<Rightarrow> ('p, 'z) graph_scheme \<Rightarrow> bool" where
  "send_frame w w' \<longleftrightarrow> node_core w' = node_core w \<and> graph.more w' = graph.more w"

lemma broadcast_send_frame: "send_frame w (routing_broadcast env m from w)"
  using routing_broadcast_frame [of env m "from" w] by (auto simp: send_frame_def)

lemma send_send_frame: "send_frame w (snd (routing_send env self m w))"
proof (cases "m_destination m = None")
  case True
  then show ?thesis
    by (simp add: routing_send_def broadcast_send_frame)
next
  case False
  then show ?thesis
    using routing_route_frame [of env self m None w] by (auto simp: routing_send_def send_frame_def)
qed

text \<open>What an operation of a transport may change.\<close>

definition transport_frame ::
    "'p transport \<times> ('p, 'z) graph_scheme \<Rightarrow> 'p transport \<times> ('p, 'z) graph_scheme \<Rightarrow> bool" where
  "transport_frame st st' \<longleftrightarrow> t_broadcastable (fst st') = t_broadcastable (fst st)
     \<and> mType (fst st') = mType (fst st) \<and> send_frame (snd st) (snd st')"

lemma transport_frame_refl [simp]: "transport_frame st st"
  by (simp add: transport_frame_def send_frame_def)

lemma transport_frame_trans: "transport_frame u v \<Longrightarrow> transport_frame v w \<Longrightarrow> transport_frame u w"
  by (simp add: transport_frame_def send_frame_def)

lemma checkSequence_class [simp]:
  "t_broadcastable (snd (Transport_checkSequence i s t)) = t_broadcastable t"
  "mType (snd (Transport_checkSequence i s t)) = mType t"
  by (simp_all add: Transport_checkSequence_def split: option.split)

lemma incoming_unicast_view:
  assumes "m_source m = Some i" "Transport_checkSequence i (m_sequence m) t = (fresh, t')"
  shows "snd (Transport_incoming_unicast env m (t, w)) = (t', w)
    \<and> fst (Transport_incoming_unicast env m (t, w)) \<noteq> Overflow"
  using assms by (simp add: Transport_incoming_unicast_def Let_def split: sum.split)

lemma checkSequence_frame:
  "Transport_checkSequence i s t = (fresh, t') \<Longrightarrow> t_broadcastable t' = t_broadcastable t \<and> mType t' = mType t"
  using checkSequence_class [of i s t] by simp

lemma incoming_unicast_keeps: "keeps transport_frame (Transport_incoming_unicast env m) (t, w)"
proof (cases "m_source m")
  case None
  then show ?thesis
    by (simp add: keeps_def Transport_incoming_unicast_def)
next
  case (Some i)
  obtain fresh t' where c: "Transport_checkSequence i (m_sequence m) t = (fresh, t')"
    by fastforce
  show ?thesis
    using incoming_unicast_view [OF Some c, of env w] checkSequence_frame [OF c]
    by (simp add: keeps_def transport_frame_def send_frame_def)
qed

lemma incoming_broadcastable_keeps: "keeps transport_frame (BroadcastableTransport_incoming env m ch) (t, w)"
proof (cases "m_source m")
  case None
  then show ?thesis
    using incoming_unicast_keeps [of env m t w] by (simp add: keeps_def BroadcastableTransport_incoming_def)
next
  case (Some i)
  obtain fresh t' where c: "Transport_checkSequence i (m_sequence m) t = (fresh, t')"
    by fastforce
  show ?thesis
    using incoming_unicast_keeps [of env m t w] checkSequence_frame [OF c] broadcast_send_frame [of w env m ch] Some
    by (auto simp: keeps_def BroadcastableTransport_incoming_def c transport_frame_def send_frame_def)
qed

lemma Transport_notify_keeps: "keeps transport_frame (Transport_notify env e) (t, w)"
  using incoming_unicast_keeps [of env _ t w] incoming_broadcastable_keeps [of env _ _ t w]
  by (cases e) (auto simp: keeps_def Transport_notify_def Transport_incoming_def)

lemma keeps_try [simp]: "keeps transport_frame (try_value r) st"
  by (simp add: keeps_def try_value_def split: sum.split)

lemma keeps_counters [simp]:
  "keeps transport_frame next_seed st" "keeps transport_frame next_sequence st"
  by (simp_all add: keeps_def next_seed_def next_sequence_def transport_frame_def send_frame_def node_core_def)

lemma routing_send_returns: "fst (routing_send env self m w) \<noteq> Overflow"
  by (simp add: routing_send_def routing_route_def bindp_def send_message_def rtc_send_def
      split: option.split sum.split)

lemma keeps_routing_send [simp]: "keeps transport_frame (on_node (routing_send env self m)) st"
  using send_send_frame [of "snd st" env self m] routing_send_returns [of env self m "snd st"]
  by (cases "routing_send env self m (snd st)") (simp add: keeps_def on_node_def transport_frame_def)

lemma Transport_send_keeps: "keeps transport_frame (Transport_send env pair i payload) (t, w)"
proof -
  have "keeps transport_frame
      (bindp (try_value (graph_get i w)) (\<lambda>remoteState.
       bindp next_seed (\<lambda>seed.
       bindp (\<lambda>st. try_value (CipherBody_Encrypt env seed payload (graph_localEcdhPair (snd st))
                (st_ecdhPublic remoteState)) st) (\<lambda>cipherBody.
       bindp next_sequence (\<lambda>sequence.
       bindp next_seed (\<lambda>seed.
       bindp (try_value (make_message env seed (mType t) sequence (CipherBody_binary cipherBody)
                (Some pair) (Some i))) (\<lambda>message.
       on_node (routing_send env (pair_public pair) message))))))))
      (t, w)" (is "keeps _ ?prog _")
    by (intro keeps_bind keeps_try keeps_counters keeps_routing_send)
      (assumption | erule (1) transport_frame_trans | simp add: keeps_def try_value_def split: sum.split)+
  moreover have "Transport_send env pair i payload (t, w) = ?prog (t, w)"
    by (simp add: Transport_send_def)
  ultimately show ?thesis
    by (rule keeps_cong [rotated])
qed

lemma Transport_broadcast_keeps: "keeps transport_frame (Transport_broadcast env pair payload) (t, w)"
proof (cases "t_broadcastable t")
  case False
  then show ?thesis
    by (simp add: keeps_def Transport_broadcast_def)
next
  case True
  have last: "keeps transport_frame (on_node (\<lambda>w. (Return (), routing_broadcast env m None w))) st" for m st
    using broadcast_send_frame [of "snd st" env m None] by (simp add: keeps_def on_node_def transport_frame_def)
  have "keeps transport_frame
      (bindp next_sequence (\<lambda>sequence.
       bindp next_seed (\<lambda>seed.
       bindp (try_value (make_message env seed (mType t) sequence payload (Some pair) None)) (\<lambda>message.
       on_node (\<lambda>w. (Return (), routing_broadcast env message None w))))))
      (t, w)" (is "keeps _ ?prog _")
    by (intro keeps_bind keeps_try keeps_counters last) (assumption | erule (1) transport_frame_trans)+
  moreover have "Transport_broadcast env pair payload (t, w) = ?prog (t, w)"
    using True by (simp add: Transport_broadcast_def)
  ultimately show ?thesis
    by (rule keeps_cong [rotated])
qed

lemma with_signaling_keeps:
  assumes "keeps transport_frame f (w_signaling w, w)"
  shows "keeps quiet (with_signaling f) w"
proof -
  obtain out t w' where f: "f (w_signaling w, w) = (out, (t, w'))"
    by (metis prod.exhaust)
  then have "graph.more w' = graph.more w" "node_core w' = node_core w"
    using assms by (simp_all add: keeps_def transport_frame_def send_frame_def)
  moreover have "node_core (w'\<lparr>w_signaling := t\<rparr>) = node_core w'"
    by (simp add: node_core_def)
  ultimately show ?thesis
    using assms f more_world [of w' w]
    by (simp add: keeps_def with_signaling_def quiet_def transport_frame_def)
qed

lemma with_user_keeps:
  assumes "keeps transport_frame f (w_user w, w)"
  shows "keeps quiet (with_user f) w"
proof -
  obtain out t w' where f: "f (w_user w, w) = (out, (t, w'))"
    by (metis prod.exhaust)
  then have "graph.more w' = graph.more w" "node_core w' = node_core w"
    using assms by (simp_all add: keeps_def transport_frame_def send_frame_def)
  moreover have "node_core (w'\<lparr>w_user := t\<rparr>) = node_core w'"
    by (simp add: node_core_def)
  ultimately show ?thesis
    using assms f more_world [of w' w]
    by (simp add: keeps_def with_user_def quiet_def transport_frame_def)
qed

section \<open>Operations that keep the invariant\<close>

definition ok_step ::
    "('p::linorder, 'k) env \<Rightarrow> 'p \<Rightarrow> ('p, 'd, 'z) world_scheme \<Rightarrow> ('p, 'd, 'z) world_scheme \<Rightarrow> bool" where
  "ok_step env self w w' \<longleftrightarrow> (world_ok env self w \<longrightarrow> world_ok env self w')"

lemma ok_step_trans: "ok_step env self u v \<Longrightarrow> ok_step env self v w \<Longrightarrow> ok_step env self u w"
  by (simp add: ok_step_def)

lemma quiet_step: "quiet w w' \<Longrightarrow> ok_step env self w w'"
  using quiet_ok by (auto simp: ok_step_def)

lemma keeps_quiet_step: "keeps quiet f w \<Longrightarrow> keeps (ok_step env self) f w"
  using quiet_step by (auto simp: keeps_def)

text \<open>A change of the peerings alone.\<close>

lemma peerings_step:
  assumes "node_inv env self w \<Longrightarrow> node_inv env self w'" "peerings_ok w \<Longrightarrow> peerings_ok w'"
    and "w_signaling w' = w_signaling w" "w_user w' = w_user w"
  shows "ok_step env self w w'"
  using assms by (simp add: ok_step_def world_ok_def transports_ok_def)

lemma createPeering_keeps: "keeps (ok_step env self) (Networking_createPeering i) w"
proof -
  obtain out u where c: "Networking_createPeering i w = (out, u)"
    by fastforce
  have same: "node_core u = node_core w" "w_signaling u = w_signaling w" "w_user u = w_user w" "out \<noteq> Overflow"
    using c by (auto simp: Networking_createPeering_def Peering_new_def Peering_disconnect_def Let_def node_core_def bindp_def
        split: option.splits)
  have "ok_step env self w u"
    by (rule peerings_step) (use same(2,3) node_inv_core [OF same(1)] createPeering_cases(1) [OF _ c] in auto)
  then show ?thesis
    using same(4) by (simp add: keeps_def c)
qed

lemma Networking_receive_keeps: "keeps (ok_step env self) (Networking_receive lib l i payload) w"
  unfolding Networking_receive_def
proof (rule keeps_bind [OF createPeering_keeps])
  fix p u
  show "keeps (ok_step env self) (Peering_receive lib l p payload) u"
    by (rule keeps_quiet_step) (simp add: keeps_def Peering_receive_def pc_setRemoteDescription_def Let_def quiet_def node_core_def
        split: sum.split option.split)
qed (rule ok_step_trans)

lemma disconnect_step:
  "node_inv env self w \<Longrightarrow> node_inv env self (snd (Peering_disconnect p w))"
  "w_signaling (snd (Peering_disconnect p w)) = w_signaling w" "w_user (snd (Peering_disconnect p w)) = w_user w"
proof -
  have "node_inv env self (rtc_close c (routing_removeChannel c w))" if "node_inv env self w" for c
    by (rule node_inv_core [of _ "routing_removeChannel c w"])
      (use that in \<open>simp_all add: rtc_close_def node_core_def node_inv_def graph_ready_removeChannel routing_ok_removeChannel\<close>)
  then show "node_inv env self w \<Longrightarrow> node_inv env self (snd (Peering_disconnect p w))"
    by (simp add: Peering_disconnect_def Let_def split: option.split)
qed (simp_all add: Peering_disconnect_def Let_def rtc_close_def routing_removeChannel_def split: option.split)

lemma connect_step:
  assumes "Peering_connect (p, w) = (out, (q, u))"
  shows "node_inv env self w \<Longrightarrow> node_inv env self u" "w_signaling u = w_signaling w" "w_user u = w_user w"
proof -
  obtain r v where d: "Peering_disconnect p w = (r, v)"
    by fastforce
  have "node_core u = node_core v \<and> w_signaling u = w_signaling v \<and> w_user u = w_user v"
    using assms by (auto simp: Peering_connect_def d pc_createDataChannel_def Peering_setDataChannel_def Let_def node_core_def
        split: option.splits)
  then show "node_inv env self w \<Longrightarrow> node_inv env self u" "w_signaling u = w_signaling w" "w_user u = w_user w"
    using disconnect_step(1) [of env self w p] disconnect_step(2,3) [of p w] node_inv_core [of u v] by (simp_all add: d)
qed

lemma store_peering_core [simp]: "node_core (store_peering p w) = node_core w"
  by (simp add: store_peering_def node_core_def)

lemma store_peering_step:
  assumes "node_inv env self w \<Longrightarrow> node_inv env self u" "peerings_ok w \<Longrightarrow> peerings_ok u"
    and "w_signaling u = w_signaling w" "w_user u = w_user w"
  shows "ok_step env self w (store_peering p u)"
proof (rule peerings_step)
  show "node_inv env self (store_peering p u)" if "node_inv env self w"
    by (rule node_inv_core [OF store_peering_core]) (rule assms(1) [OF that])
  show "peerings_ok (store_peering p u)" if "peerings_ok w"
    by (rule store_peering_ok(1)) (rule assms(2) [OF that])
qed (simp_all add: assms store_peering_def)

lemma peerings_ok_cong: "mPeerings w' = mPeerings w \<Longrightarrow> peerings_ok w' = peerings_ok w"
  by (simp add: peerings_ok_def)

lemma connectPeer_keeps:
  fixes w :: "('p::linorder, 'd, 'z) world_scheme"
  shows "keeps (ok_step env self) (Networking_connectPeer i) w"
  unfolding Networking_connectPeer_def
proof (rule keeps_bind [OF createPeering_keeps])
  fix p and v :: "('p, 'd, 'z) world_scheme"
  obtain out q u where d: "Peering_connect (p, v) = (out, (q, u))"
    by (metis prod.collapse)
  have "ok_step env self v (store_peering q u)"
    by (rule store_peering_step)
      (use connect_step [OF d] peerings_ok_cong [OF connect_frame(1) [OF d]] in auto)
  then show "keeps (ok_step env self) (\<lambda>w. let (out, p, w) = Peering_connect (p, w) in (out, store_peering p w)) v"
    using connect_frame(4) [OF d] by (simp add: keeps_def d)
qed (rule ok_step_trans)

lemma quietI:
  "node_core w' = node_core w \<Longrightarrow> mPeerings w' = mPeerings w \<Longrightarrow> w_signaling w' = w_signaling w \<Longrightarrow>
   w_user w' = w_user w \<Longrightarrow> quiet w w'"
  by (simp add: quiet_def)

lemma update_keeps: "keeps (ok_step env self) (Networking_update shuffle) w"
proof -
  let ?u = "w\<lparr>entropy := entropy w + 1\<rparr>"
  have u: "ok_step env self w ?u"
    by (rule quiet_step) (rule quietI; simp add: node_core_def)
  moreover have "fst (Networking_connectPeer i ?u) \<noteq> Overflow \<and> ok_step env self w (snd (Networking_connectPeer i ?u))" for i
    using connectPeer_keeps [of env self i ?u] ok_step_trans [OF u] by (simp add: keeps_def)
  ultimately show ?thesis
    by (simp add: keeps_def Networking_update_def Let_def quiet_step split: option.split)
qed

lemma connectWebSocket_keeps: "keeps quiet (Networking_connectWebSocket url) w"
  by (simp add: keeps_def Networking_connectWebSocket_def Let_def quietI node_core_def split: option.split)

lemma onClient_quiet: "quiet w (snd (Server_onClient w))"
  by (rule quietI) (simp_all add: Server_onClient_def Let_def node_core_def)

lemma addChannel_ok: "world_ok env self w \<Longrightarrow> world_ok env self (routing_addChannel c w)"
proof -
  assume ok: "world_ok env self w"
  have "node_inv env self (routing_addChannel c w)"
    using world_okD(1,2) [OF ok] by (simp add: node_inv_def graph_ready_addChannel routing_ok_addChannel)
  then show ?thesis
    using ok by (simp add: world_ok_def peerings_ok_def transports_ok_def routing_addChannel_def Let_def)
qed

lemma removeChannel_step: "ok_step env self w (routing_removeChannel c w)"
proof (rule peerings_step)
  show "node_inv env self w \<Longrightarrow> node_inv env self (routing_removeChannel c w)"
    by (simp add: node_inv_def graph_ready_removeChannel routing_ok_removeChannel)
qed (simp_all add: routing_removeChannel_def Let_def peerings_ok_def)

lemma ok_step_refl [simp]: "ok_step env self w w"
  by (simp add: ok_step_def)

lemma channel_closed_step: "ok_step env self w (channel_closed c w)"
  by (simp add: channel_closed_def Peering_onClosed_def removeChannel_step split: role.split option.split)

lemma data_channel_received_step: "ok_step env self w (data_channel_received i c w)"
proof (cases "um_find (mPeerings w) i")
  case None
  then show ?thesis
    by (simp add: data_channel_received_def)
next
  case (Some p)
  obtain q u where d: "Peering_onDataChannel c p w = (q, u)"
    by fastforce
  have u: "node_core u = node_core w" "mPeerings u = mPeerings w" "w_signaling u = w_signaling w"
      "w_user u = w_user w"
    using d by (auto simp: Peering_onDataChannel_def Peering_setDataChannel_def node_core_def split: if_splits)
  have "ok_step env self w (store_peering q u)"
    by (rule store_peering_step) (simp_all add: u node_inv_core [OF u(1)] peerings_ok_cong [OF u(2)])
  then show ?thesis
    by (simp add: data_channel_received_def Some d)
qed

section \<open>Events\<close>

text \<open>The neighbour list still fits in a State message after any one neighbour is added.\<close>

definition room :: "('p::linorder, 'k) env \<Rightarrow> 'p \<Rightarrow> ('p, 'z) graph_scheme \<Rightarrow> bool" where
  "room env self w \<longleftrightarrow> (\<forall>i ch. announceable env self (w\<lparr>mNeighbors := um_emplace i ch (mNeighbors w)\<rparr>))"

text \<open>A State message with the node's own identifier is an echo of one of its announcements.\<close>

definition echo_only :: "('p::linorder, 'k, 'd) node_params \<Rightarrow> 'p message \<Rightarrow> ('p, 'z) graph_scheme \<Rightarrow> bool" where
  "echo_only k m w \<longleftrightarrow>
     (\<forall>s. State_FromMessage (np_env k) (Some m) = Inr s \<longrightarrow>
        state_id s \<noteq> Node_id k \<or> own_echo (Node_id k) s w)"

lemma addNeighbor_ok:
  assumes "world_ok env self w" "room env self w" "routing_addNeighbor i ch w = (Some e, u)"
  shows "world_ok env self u \<and> e = NeighborEvent i (Some ch)"
proof -
  have u: "u = w\<lparr>mNeighbors := um_emplace i ch (mNeighbors w)\<rparr>"
    using assms(3) by (auto simp: routing_addNeighbor_def split: if_splits)
  then have "announceable env self u"
    using assms(2) by (simp add: room_def)
  then have "node_inv env self u"
    using assms(3) graph_ready_addNeighbor [of env self w i ch] routing_ok_addNeighbor [of w i ch]
      world_okD(1,2) [OF assms(1)]
    by (simp add: node_inv_def)
  then show ?thesis
    using assms(1) addNeighbor_event [OF assms(3)] by (simp add: world_ok_def peerings_ok_def transports_ok_def u)
qed

lemma more_ok:
  assumes "graph.more w' = graph.more w" "world_ok env self w" "node_inv env self w'"
  shows "world_ok env self (w' :: ('p::linorder, 'd, 'z) world_scheme)"
  using assms more_world(3) [of w' w] transports_ok_more [of w' w] peerings_ok_cong [of w' w]
  by (simp add: world_ok_def)

lemma neighbor_event_ok:
  assumes "world_ok (np_env k) (Node_id k) w" "np_stack k = Suc (Suc n)"
  shows "\<exists>w'. notify_from k (Suc d) (Node_components config) (NeighborEvent i ch) (Node_components config) w = (Return (), w')
    \<and> world_ok (np_env k) (Node_id k) w'"
proof -
  have ready: "graph_ready (np_env k) (pair_public (np_pair k)) w"
    using world_okD(1) [OF assms(1)] by (simp add: Node_id_def)
  obtain out w' where g: "graph_notify (np_stack k) (np_env k) (np_pair k) (NeighborEvent i ch) w = (out, w')"
    by fastforce
  then have n: "graph_ready (np_env k) (pair_public (np_pair k)) w'" "out = Return None" "node_frame w w'"
    using notify_neighbor_cases [OF ready, of n i ch out w'] by (simp_all add: assms(2))
  then have "node_inv (np_env k) (Node_id k) w'"
    using routing_ok_node_frame [OF n(3)] world_okD(2) [OF assms(1)] by (simp add: node_inv_def Node_id_def)
  then have "world_ok (np_env k) (Node_id k) w'"
    using more_ok [OF _ assms(1)] n(3) by (simp add: node_frame_def)
  then show ?thesis
    using notify_neighbor_event g n(2) by blast
qed

lemma Node_receive_quiet: "quiet w (Node_receive i payload w)"
  by (simp add: Node_receive_def quietI node_core_def)

text \<open>What the components other than the graph do with a message.\<close>

lemma component_message_keeps:
  assumes "c \<noteq> CGraph"
  shows "keeps (ok_step env self) (component_notify k (MessageEvent m ch) c) w
    \<and> (\<forall>e w'. component_notify k (MessageEvent m ch) c w \<noteq> (Return (Some e), w'))"
proof (cases c)
  case CSignaling
  let ?f = "with_signaling (Transport_notify (np_env k) (MessageEvent m ch))"
  let ?g = "\<lambda>received. \<lambda>w. case received of
      None \<Rightarrow> (Return None, w)
    | Some (i, payload) \<Rightarrow>
        bindp (Networking_receive (np_webrtc k) (Node_id k) i payload) (\<lambda>_ w. (Return None, w)) w"
  have "keeps (ok_step env self) ?f w"
    by (intro keeps_quiet_step with_signaling_keeps Transport_notify_keeps)
  moreover have "keeps (ok_step env self) (\<lambda>w. bindp (Networking_receive (np_webrtc k) (Node_id k) i payload)
      (\<lambda>_ w. (Return None, w)) w) u" for i payload u
    by (intro keeps_bind Networking_receive_keeps) (auto simp: keeps_def intro: ok_step_trans)
  then have "keeps (ok_step env self) (?g received) u" for received u
    by (auto simp: keeps_def split: option.split)
  ultimately have "keeps (ok_step env self) (bindp ?f ?g) w"
    by (intro keeps_bind) (auto intro: ok_step_trans)
  then show ?thesis
    using CSignaling
    by (auto simp: component_notify_def keeps_def bindp_def split: option.splits prod.splits outcome.splits)
next
  case CUser
  let ?f = "with_user (Transport_notify (np_env k) (MessageEvent m ch))"
  let ?g = "\<lambda>received. \<lambda>w. case received of
      None \<Rightarrow> (Return None, w) | Some (i, payload) \<Rightarrow> (Return None, Node_receive i payload w)"
  have "keeps (ok_step env self) ?f w"
    by (intro keeps_quiet_step with_user_keeps Transport_notify_keeps)
  moreover have "keeps (ok_step env self) (?g received) u" for received u
    using quiet_step [OF Node_receive_quiet] by (auto simp: keeps_def split: option.split)
  ultimately have "keeps (ok_step env self) (bindp ?f ?g) w"
    by (intro keeps_bind) (auto intro: ok_step_trans)
  then show ?thesis
    using CUser
    by (auto simp: component_notify_def keeps_def bindp_def split: option.splits prod.splits outcome.splits)
qed (use assms in \<open>simp_all add: component_notify_def keeps_def\<close>)

lemma rest_keeps:
  assumes "CGraph \<notin> set ys"
  shows "keeps (ok_step env self) (notify_from k (Suc d) cs (MessageEvent m ch) ys) w"
  using assms
proof (induction ys arbitrary: w)
  case Nil
  then show ?case
    by (simp add: keeps_def notify_from.simps)
next
  case (Cons c ys w)
  then have c: "keeps (ok_step env self) (component_notify k (MessageEvent m ch) c) w"
      "\<forall>e w'. component_notify k (MessageEvent m ch) c w \<noteq> (Return (Some e), w')"
    using component_message_keeps [of c env self k m ch w] by auto
  obtain out u where eq: "component_notify k (MessageEvent m ch) c w = (out, u)"
    by fastforce
  show ?case
  proof (cases out)
    case (Return emitted)
    then have "component_notify k (MessageEvent m ch) c w = (Return None, u)"
      using c(2) eq by (cases emitted) auto
    from notify_quiet [OF this] show ?thesis
      using Cons.IH [of u] Cons.prems c(1) eq by (auto simp: keeps_def intro: ok_step_trans)
  qed (use c(1) eq in \<open>simp_all add: keeps_def notify_from.simps bindp_def\<close>)
qed

lemma graph_message_ok:
  assumes "world_ok (np_env k) (Node_id k) w" "np_stack k = Suc (Suc (Suc n))"
    and "m_type m = Hello \<longrightarrow> room (np_env k) (Node_id k) w" "echo_only k m w"
    and g: "component_notify k (MessageEvent m ch) CGraph w = (out, u)"
  shows "world_ok (np_env k) (Node_id k) u
    \<and> (out = Return None \<or> (\<exists>e. out = Throw e) \<or> (\<exists>i c. out = Return (Some (NeighborEvent i c))))"
proof (cases "m_type m = Hello")
  case True
  show ?thesis
  proof (cases "out = Return None \<and> u = w")
    case True
    then show ?thesis
      using assms(1) by simp
  next
    case False
    then obtain i c emitted where "routing_addNeighbor i c w = (emitted, u)" "out = Return emitted"
      using g True by (auto simp: component_notify_def graph_notify_def split: option.splits if_splits prod.splits)
    then show ?thesis
      using addNeighbor_ok [OF assms(1) mp [OF assms(3) True], of i c _ u] assms(1) False
      by (cases emitted) (auto simp: routing_addNeighbor_def split: if_splits)
  qed
next
  case False
  have "graph_notify (Suc (Suc (Suc n))) (np_env k) (np_pair k) (MessageEvent m ch) w = (out, u)"
    using g by (simp add: component_notify_def assms(2))
  moreover have "node_inv (np_env k) (pair_public (np_pair k)) w"
    using world_okD(3) [OF assms(1)] by (simp add: Node_id_def)
  ultimately have "node_inv (np_env k) (Node_id k) u" "graph.more u = graph.more w"
      "out = Return None \<or> (\<exists>e. out = Throw e)"
    using notify_message_inv [of "np_env k" "np_pair k" w m n ch out u] False assms(4)
    by (auto simp: Node_id_def echo_only_def)
  then show ?thesis
    using more_ok assms(1) by blast
qed

lemma message_event_ok:
  assumes "world_ok (np_env k) (Node_id k) w" "np_stack k = Suc (Suc (Suc n))"
    and "m_type m = Hello \<longrightarrow> room (np_env k) (Node_id k) w" "echo_only k m w"
  shows "keeps (ok_step (np_env k) (Node_id k)) (Node_notify k (Node_components config) (MessageEvent m ch)) w"
proof -
  let ?cs = "Node_components config" and ?R = "ok_step (np_env k) (Node_id k)" and ?d = "Suc (Suc n)"
  obtain ys where cs: "?cs = [CRouting] @ CGraph # ys" "CGraph \<notin> set ys"
    by (rule Node_components_graph)
  obtain out u where g: "component_notify k (MessageEvent m ch) CGraph w = (out, u)"
    by fastforce
  note ok = graph_message_ok [OF assms g]
  have "component_notify k (MessageEvent m ch) CRouting w = (Return None, w)"
    by (simp add: component_notify_def)
  from notify_quiet [OF this] have start: "Node_notify k ?cs (MessageEvent m ch) w =
      notify_from k (Suc ?d) ?cs (MessageEvent m ch) (CGraph # ys) w"
    by (simp add: Node_notify_def cs(1) assms(2))
  consider "out = Return None" | e where "out = Throw e" | i c where "out = Return (Some (NeighborEvent i c))"
    using ok by blast
  then have "keeps ?R (notify_from k (Suc ?d) ?cs (MessageEvent m ch) (CGraph # ys)) w"
  proof cases
    case 1
    then show ?thesis
      using notify_quiet [of k "MessageEvent m ch" CGraph w u ?d ?cs ys] g ok
        rest_keeps [OF cs(2), of "np_env k" "Node_id k" k ?d ?cs m ch u]
      by (simp add: keeps_def ok_step_def)
  next
    case 2
    then show ?thesis
      using g ok by (simp add: keeps_def ok_step_def notify_from.simps bindp_def)
  next
    case 3
    obtain v where v: "notify_from k ?d ?cs (NeighborEvent i c) ?cs u = (Return (), v)"
        "world_ok (np_env k) (Node_id k) v"
      using neighbor_event_ok [of k u "Suc n" "Suc n" config i c] ok assms(2) by blast
    have "notify_from k (Suc ?d) ?cs (MessageEvent m ch) (CGraph # ys) w =
        notify_from k (Suc ?d) ?cs (MessageEvent m ch) ys v"
      using g 3 v(1) by (simp add: notify_from.simps(3) [of k ?d ?cs _ CGraph] bindp_def)
    then show ?thesis
      using v(2) rest_keeps [OF cs(2), of "np_env k" "Node_id k" k ?d ?cs m ch v]
      by (simp add: keeps_def ok_step_def)
  qed
  then show ?thesis
    by (rule keeps_cong [rotated]) (rule start)
qed

section \<open>The operations of the node\<close>

lemma deliver_keeps:
  assumes "world_ok (np_env k) (Node_id k) w" "np_stack k = Suc (Suc (Suc n))"
    and "\<And>m ch. emitted = Some (MessageEvent m ch) \<Longrightarrow>
      echo_only k m w \<and> (m_type m = Hello \<longrightarrow> room (np_env k) (Node_id k) w)"
  shows "keeps (ok_step (np_env k) (Node_id k)) (deliver_event k (Node_components config) emitted) w"
proof (cases emitted)
  case None
  then show ?thesis
    by (simp add: keeps_def deliver_event_def)
next
  case (Some e)
  have deliver: "deliver_event k (Node_components config) emitted w = Node_notify k (Node_components config) e w"
    by (simp add: deliver_event_def Some)
  show ?thesis
  proof (cases e)
    case (MessageEvent m ch)
    then have "keeps (ok_step (np_env k) (Node_id k)) (Node_notify k (Node_components config) e) w"
      using message_event_ok [OF assms(1,2), of m config ch] assms(3) [of m ch] Some by simp
    then show ?thesis
      by (simp add: keeps_def deliver)
  next
    case (NeighborEvent i ch)
    obtain w' where "notify_from k (Suc (Suc (Suc n))) (Node_components config) e (Node_components config) w = (Return (), w')"
        "world_ok (np_env k) (Node_id k) w'"
      using neighbor_event_ok [OF assms(1), of "Suc n" "Suc (Suc n)" config i ch] assms(2) NeighborEvent by blast
    then show ?thesis
      by (simp add: keeps_def deliver ok_step_def Node_notify_def assms(2))
  qed
qed

lemma not_state_echo: "m_type m \<noteq> StateType \<Longrightarrow> echo_only k m w"
  by (auto simp: echo_only_def State_FromMessage_def split: option.splits)

lemma bindp_Return_iff:
  "bindp f g w = (Return b, w') \<longleftrightarrow> (\<exists>a u. f w = (Return a, u) \<and> g a u = (Return b, w'))"
  by (cases "f w"; cases "fst (f w)") (auto simp: bindp_def)

lemma try_value_Return: "try_value r w = (Return a, w') \<longleftrightarrow> r = Inr a \<and> w' = w"
  by (auto simp: try_value_def split: sum.split)

lemma make_message_type: "make_message env seed ty q body src dst = Inr m \<Longrightarrow> m_type m = ty"
  by (auto simp: make_message_def Message_Create_def message_sign_def Let_def sbind_Inr_iff split: option.splits)

lemma routing_send_emits:
  "routing_send env self m w = (Return (Some e), w') \<Longrightarrow> e = MessageEvent m None"
  by (auto simp: routing_send_def routing_route_def bindp_Return_iff split: if_splits option.splits)

lemma on_node_Return: "on_node f st = (Return a, st') \<longleftrightarrow> f (snd st) = (Return a, snd st') \<and> fst st' = fst st"
  by (cases st') (auto simp: on_node_def split: prod.splits)

lemma Transport_send_emits:
  assumes "Transport_send env pair i payload (t, w) = (Return (Some e), st')"
  shows "\<exists>m. e = MessageEvent m None \<and> m_type m = mType t"
proof -
  from assms obtain seed q body m self v where
    "make_message env seed (mType t) q body (Some pair) (Some i) = Inr m"
    "routing_send env self m v = (Return (Some e), snd st')"
    unfolding Transport_send_def bindp_Return_iff try_value_Return on_node_Return by (elim exE conjE) simp
  then show ?thesis
    by (intro exI [of _ m] conjI make_message_type routing_send_emits)
qed

lemma send_frame_quiet: "send_frame w w' \<Longrightarrow> quiet w (w' :: ('p, 'd, 'z) world_scheme)"
  using more_world [of w' w] by (simp add: send_frame_def quiet_def)

lemma graph_update_keeps: "keeps send_frame (graph_update env pair) w"
proof (cases "make_message env (entropy w) Hello (mHelloSequence w) [] (Some pair) None")
  case (Inl e)
  then show ?thesis
    by (simp add: keeps_def graph_update_def graph_broadcastHello_def Let_def send_frame_def node_core_def)
next
  case (Inr m)
  let ?u = "w\<lparr>mHelloSequence := mHelloSequence w + 1, entropy := entropy w + 1\<rparr>"
  have "send_frame w ?u"
    by (simp add: send_frame_def node_core_def)
  with broadcast_send_frame [of ?u env m None] Inr show ?thesis
    by (simp add: keeps_def graph_update_def graph_broadcastHello_def Let_def send_frame_def)
qed

lemma component_update_keeps: "keeps (ok_step env self) (component_update k shuffle c) w"
proof (cases c)
  case CGraph
  have "keeps (ok_step env self) (graph_update (np_env k) (np_pair k)) w"
    using graph_update_keeps [of "np_env k" "np_pair k" w] by (simp add: keeps_def quiet_step send_frame_quiet)
  then show ?thesis
    by (simp add: keeps_def component_update_def CGraph)
next
  case CNetworking
  then show ?thesis
    using update_keeps [of env self shuffle w] by (simp add: keeps_def component_update_def)
qed (simp_all add: keeps_def component_update_def)

lemma update_components_keeps: "keeps (ok_step env self) (update_components k shuffle cs) w"
proof (induction cs arbitrary: w)
  case (Cons c cs)
  have "keeps (ok_step env self) (bindp (component_update k shuffle c) (\<lambda>_. update_components k shuffle cs)) w"
    by (intro keeps_bind component_update_keeps Cons) (auto intro: ok_step_trans)
  then show ?case
    by (simp add: keeps_def)
qed (simp add: keeps_def)

lemma connect_keeps: "Node_connect k url w = Some (out, w') \<Longrightarrow> out \<noteq> Overflow \<and> ok_step env self w w'"
proof -
  have "Networking_connectPeer i w = (out, w') \<Longrightarrow> out \<noteq> Overflow \<and> ok_step env self w w'" for i
    using connectPeer_keeps [of env self i w] by (simp add: keeps_def)
  then show "Node_connect k url w = Some (out, w') \<Longrightarrow> out \<noteq> Overflow \<and> ok_step env self w w'"
    using keeps_quiet_step [OF connectWebSocket_keeps, of env self url w]
    by (auto simp: Node_connect_def keeps_def split: if_splits option.splits sum.splits)
qed

lemma broadcast_keeps: "keeps (ok_step env self) (Node_broadcast k message) w"
  unfolding Node_broadcast_def by (intro keeps_quiet_step with_user_keeps Transport_broadcast_keeps)

lemma routing_route_keeps:
  "fst (routing_route env self m ch w) \<noteq> Overflow \<and> send_frame w (snd (routing_route env self m ch w))"
  using routing_route_frame [of env self m ch w]
  by (auto simp: send_frame_def routing_route_def bindp_def send_message_def rtc_send_def
      split: option.splits sum.splits)

lemma routing_route_emits:
  "routing_route env self m ch w = (Return (Some e), w') \<Longrightarrow> e = MessageEvent m ch \<and> w' = w"
  by (auto simp: routing_route_def bindp_Return_iff split: if_splits option.splits)

text \<open>An operation whose last action is an event, delivered to the components.\<close>

lemma bind_deliver_keeps:
  assumes "world_ok (np_env k) (Node_id k) w" "np_stack k = Suc (Suc (Suc n))"
    and "keeps (ok_step (np_env k) (Node_id k)) f w"
    and "\<And>m ch u. f w = (Return (Some (MessageEvent m ch)), u) \<Longrightarrow>
      echo_only k m u \<and> (m_type m = Hello \<longrightarrow> room (np_env k) (Node_id k) u)"
  shows "keeps (ok_step (np_env k) (Node_id k)) (bindp f (deliver_event k (Node_components config))) w"
proof (rule keeps_bind [OF assms(3)])
  fix emitted u
  assume f: "f w = (Return emitted, u)"
  then have "world_ok (np_env k) (Node_id k) u"
    using assms(1,3) by (simp add: keeps_def ok_step_def)
  then show "keeps (ok_step (np_env k) (Node_id k)) (deliver_event k (Node_components config) emitted) u"
    using assms(2,4) f by (intro deliver_keeps) auto
qed (rule ok_step_trans)

lemma cerr_step: "ok_step env self w (w\<lparr>rtc_cerr := c\<rparr>)"
  by (rule quiet_step, rule quietI) simp_all

lemma catch_report_keeps:
  assumes "keeps (ok_step env self) f w"
  shows "keeps (ok_step env self) (catchp f rtc_report) w"
proof (cases "f w")
  case (Pair out u)
  then show ?thesis
    using assms cerr_step [of env self u] ok_step_trans [of env self w u]
    by (cases out) (simp_all add: keeps_def catchp_def rtc_report_def)
qed

lemma onMessage_keeps:
  assumes "world_ok (np_env k) (Node_id k) w" "np_stack k = Suc (Suc (Suc n))"
    and "\<And>m. message_of (np_env k) data = Inr m \<Longrightarrow> echo_only k m w" "room (np_env k) (Node_id k) w"
  shows "keeps (ok_step (np_env k) (Node_id k)) (Routing_onMessage k (Node_components config) ch data) w"
proof (cases "message_of (np_env k) data")
  case (Inl e)
  then show ?thesis
    by (simp add: cerr_step keeps_def Routing_onMessage_def catchp_def rtc_report_def split: handler.split)
next
  case (Inr m)
  let ?route = "routing_route (np_env k) (Node_id k) m (Some ch)"
  have "keeps (ok_step (np_env k) (Node_id k)) ?route w"
    using routing_route_keeps [of "np_env k" "Node_id k" m "Some ch" w]
    by (simp add: keeps_def quiet_step send_frame_quiet)
  moreover have "echo_only k m' u \<and> (m_type m' = Hello \<longrightarrow> room (np_env k) (Node_id k) u)"
    if "?route w = (Return (Some (MessageEvent m' c)), u)" for m' c u
    using routing_route_emits [OF that] assms(3) [OF Inr] assms(4) by simp
  ultimately have "keeps (ok_step (np_env k) (Node_id k))
      (bindp ?route (deliver_event k (Node_components config))) w"
    by (rule bind_deliver_keeps [OF assms(1,2)])
  from catch_report_keeps [OF this] show ?thesis
    by (auto simp: keeps_def Routing_onMessage_def Inr split: handler.split)
qed

lemma channel_opened_ok:
  assumes "world_ok env self w" "room env self w" and o: "channel_opened c w = (emitted, u)"
  shows "world_ok env self u \<and> (\<forall>m ch. emitted \<noteq> Some (MessageEvent m ch))"
proof -
  have room: "room env self (routing_addChannel c' w)" for c'
    using assms(2) by (simp add: room_def announceable_neighbors routing_neighbors_def routing_addChannel_def Let_def)
  have add: "world_ok env self v \<and> (\<forall>m ch. e \<noteq> Some (MessageEvent m ch))"
    if "routing_addNeighbor i c' (routing_addChannel c' w) = (e, v)" for i c' e v
    using addNeighbor_ok [OF addChannel_ok [OF assms(1)] room] that addChannel_ok [OF assms(1), of c']
    by (cases e) (auto simp: routing_addNeighbor_def split: if_splits)
  show ?thesis
    using o add addChannel_ok [OF assms(1), of c] assms(1)
    by (auto simp: channel_opened_def Peering_onOpen_def Let_def split: role.splits option.splits)
qed

lemma channel_opened_keeps:
  assumes "world_ok (np_env k) (Node_id k) w" "np_stack k = Suc (Suc (Suc n))" "room (np_env k) (Node_id k) w"
  shows "keeps (ok_step (np_env k) (Node_id k)) (Node_channel_opened k (Node_components config) c) w"
proof -
  obtain emitted u where o: "channel_opened c w = (emitted, u)"
    by fastforce
  have "world_ok (np_env k) (Node_id k) u"
      "keeps (ok_step (np_env k) (Node_id k)) (deliver_event k (Node_components config) emitted) u"
    using channel_opened_ok [OF assms(1,3) o] deliver_keeps [OF _ assms(2), of u emitted config] by auto
  then show ?thesis
    by (simp add: keeps_def Node_channel_opened_def o ok_step_def)
qed

lemma send_deliver_keeps:
  assumes "world_ok (np_env k) (Node_id k) w" "np_stack k = Suc (Suc (Suc n))"
    and "keeps quiet f w"
    and "\<And>m ch u. f w = (Return (Some (MessageEvent m ch)), u) \<Longrightarrow> m_type m \<in> {User, Signaling}"
  shows "keeps (ok_step (np_env k) (Node_id k)) (bindp f (deliver_event k (Node_components config))) w"
proof (rule bind_deliver_keeps [OF assms(1,2) keeps_quiet_step [OF assms(3)]])
  fix m ch u
  assume "f w = (Return (Some (MessageEvent m ch)), u)"
  from assms(4) [OF this] show "echo_only k m u \<and> (m_type m = Hello \<longrightarrow> room (np_env k) (Node_id k) u)"
    by (auto simp: not_state_echo message_types)
qed

lemma with_user_Return:
  "with_user f w = (Return a, w') \<Longrightarrow> \<exists>st. f (w_user w, w) = (Return a, st)"
  by (auto simp: with_user_def split: prod.splits)

lemma with_signaling_Return:
  "with_signaling f w = (Return a, w') \<Longrightarrow> \<exists>st. f (w_signaling w, w) = (Return a, st)"
  by (auto simp: with_signaling_def split: prod.splits)

lemma user_send_type:
  assumes "transports_ok w"
    and "with_user (Transport_send env pair i payload) w = (Return (Some (MessageEvent m ch)), u)"
  shows "m_type m \<in> {User, Signaling}"
  using with_user_Return [OF assms(2)] Transport_send_emits assms(1) by (fastforce simp: transports_ok_def)

lemma description_send_type:
  assumes "transports_ok w"
    and "Peering_sendLocalDescription env lib pair p d w = (Return (Some (MessageEvent m ch)), u)"
  shows "m_type m \<in> {User, Signaling}"
  using with_signaling_Return [OF assms(2) [unfolded Peering_sendLocalDescription_def]] Transport_send_emits assms(1)
  by (fastforce simp: transports_ok_def)

lemma Node_send_keeps:
  assumes "world_ok (np_env k) (Node_id k) w" "np_stack k = Suc (Suc (Suc n))"
  shows "keeps (ok_step (np_env k) (Node_id k)) (Node_send k (Node_components config) i message) w"
proof (cases "Identifier_of (np_env k) i")
  case (Inl e)
  then show ?thesis
    by (simp add: keeps_def Node_send_def)
next
  case (Inr j)
  have "keeps (ok_step (np_env k) (Node_id k)) (bindp (with_user (Transport_send (np_env k) (np_pair k) j message))
      (deliver_event k (Node_components config))) w"
    by (intro send_deliver_keeps [OF assms] with_user_keeps Transport_send_keeps
        user_send_type [OF world_okD(5) [OF assms(1)]])
  then show ?thesis
    by (simp add: keeps_def Node_send_def Inr)
qed

lemma description_keeps: "keeps quiet (Peering_sendLocalDescription env lib pair p d) w"
  unfolding Peering_sendLocalDescription_def by (intro with_signaling_keeps Transport_send_keeps)

lemma sendLocalDescription_keeps:
  assumes "world_ok (np_env k) (Node_id k) w" "np_stack k = Suc (Suc (Suc n))"
  shows "keeps (ok_step (np_env k) (Node_id k))
    (bindp (Peering_sendLocalDescription (np_env k) (np_webrtc k) (np_pair k) p d)
      (deliver_event k (Node_components config))) w"
  by (intro send_deliver_keeps [OF assms description_keeps] description_send_type [OF world_okD(5) [OF assms(1)]])

lemma deliver_none [simp]: "bindp (\<lambda>w. (Return None, w)) (deliver_event k cs) w = (Return (), w)"
  by (simp add: bindp_def deliver_event_def)

lemma localDescription_keeps:
  assumes "world_ok (np_env k) (Node_id k) w" "np_stack k = Suc (Suc (Suc n))"
  shows "keeps (ok_step (np_env k) (Node_id k)) (Node_localDescription k (Node_components config) i d) w"
    "keeps (ok_step (np_env k) (Node_id k)) (Node_gatheringStateChange k (Node_components config) i complete) w"
  using sendLocalDescription_keeps [OF assms]
  by (auto simp: keeps_def Node_localDescription_def Node_gatheringStateChange_def Peering_onLocalDescription_def
      Peering_onGatheringStateChange_def bindp_def deliver_event_def split: option.split)

end
