(* ===== verification/Node_Runs.thy ===== *)
theory Node_Runs
  imports Node_Invariant
begin

text \<open>
  Every state a whole node can reach from its construction: channels open, close and deliver any
  data, data channels and local descriptions appear, the application calls the interface, and the
  answers of libdatachannel change at any time. The invariant of all components holds in all of
  them, and no operation runs out of stack.
\<close>

section \<open>Runs\<close>

text \<open>
  What a node may do apart from receiving data: a callback of libdatachannel, a call of the
  interface, one round of the components' updates, or a change of what libdatachannel answers.
  A neighbour is added only while the neighbour list still fits in a message.
\<close>

inductive node_action ::
    "('p::linorder, 'k, 'd) node_params \<Rightarrow> Configuration \<Rightarrow> ('p, 'd) world \<Rightarrow> unit outcome
     \<Rightarrow> ('p, 'd) world \<Rightarrow> bool"
  for k config where
  Opened:
    "room (np_env k) (Node_id k) w \<Longrightarrow>
     Node_channel_opened k (Node_components config) c w = (out, w') \<Longrightarrow> node_action k config w out w'"
| Closed: "node_action k config w (Return ()) (channel_closed c w)"
| Accepted: "node_action k config w (Return ()) (snd (Server_onClient w))"
| DataChannel: "node_action k config w (Return ()) (data_channel_received i c w)"
| LocalDescription:
    "Node_localDescription k (Node_components config) i d w = (out, w') \<Longrightarrow> node_action k config w out w'"
| Gathering:
    "Node_gatheringStateChange k (Node_components config) i complete w = (out, w') \<Longrightarrow>
     node_action k config w out w'"
| Connect: "Node_connect k url w = Some (out, w') \<Longrightarrow> node_action k config w out w'"
| Send: "Node_send k (Node_components config) i message w = (out, w') \<Longrightarrow> node_action k config w out w'"
| Broadcast: "Node_broadcast k message w = (out, w') \<Longrightarrow> node_action k config w out w'"
| Callback: "node_action k config w (Return ()) (Node_onMessage callable w)"
| Update: "update_components k shuffle (Node_components config) w = (out, w') \<Longrightarrow> node_action k config w out w'"
| Network:
    "node_action k config w (Return ())
       (w\<lparr>rtc_open := opened, rtc_throws := throws, pc_state := states, pc_gathered := gathered,
          pc_local := descriptions, pc_refuses := refuses, ws_refuses := refused, pc_fails := failing, dc_refuses := refusing,
          rng_fails := random\<rparr>)"

text \<open>
  One step of a node: an action, or data on one of its channels. A State message with the node's
  own identifier is an echo of one of its announcements (nobody else can sign one).
\<close>

inductive node_step ::
    "('p::linorder, 'k, 'd) node_params \<Rightarrow> Configuration \<Rightarrow> ('p, 'd) world \<Rightarrow> unit outcome
     \<Rightarrow> ('p, 'd) world \<Rightarrow> bool"
  for k config where
  Action: "node_action k config w out w' \<Longrightarrow> node_step k config w out w'"
| Data:
    "room (np_env k) (Node_id k) w \<Longrightarrow>
     \<forall>m. message_of (np_env k) data = Inr m \<longrightarrow> echo_only k m w \<Longrightarrow>
     Routing_onMessage k (Node_components config) c data w = (out, w') \<Longrightarrow> node_step k config w out w'"

inductive node_reach :: "('p::linorder, 'k, 'd) node_params \<Rightarrow> Configuration \<Rightarrow> ('p, 'd) world \<Rightarrow> bool"
  for k config where
  Start:
    "(Node_new (np_stack k) (np_env k) p indeterminate q q' net config :: ('p, 'k, 'd, unit) node outcome) = Return nd \<Longrightarrow>
     nd_pair nd = np_pair k \<Longrightarrow> node_reach k config (nd_world nd)"
| Step: "node_reach k config w \<Longrightarrow> node_step k config w out w' \<Longrightarrow> node_reach k config w'"

lemma network_quiet:
  "quiet w (w\<lparr>rtc_open := opened, rtc_throws := throws, pc_state := states, pc_gathered := gathered,
     pc_local := descriptions, pc_refuses := refuses, ws_refuses := refused, pc_fails := failing, dc_refuses := refusing,
          rng_fails := random\<rparr>)"
  by (rule quietI) (simp_all add: node_core_def)

lemma onMessage_quiet: "quiet w (Node_onMessage callable w)"
  by (rule quietI) (simp_all add: Node_onMessage_def node_core_def)

lemma node_action_ok:
  assumes "node_action k config w out w'" "world_ok (np_env k) (Node_id k) w" "np_stack k = Suc (Suc (Suc n))"
  shows "out \<noteq> Overflow \<and> world_ok (np_env k) (Node_id k) w'"
proof -
  have keeps: "keeps (ok_step (np_env k) (Node_id k)) f w \<Longrightarrow> f w = (out, w') \<Longrightarrow>
      out \<noteq> Overflow \<and> world_ok (np_env k) (Node_id k) w'" for f :: "(_, unit) prog"
    using assms(2) by (simp add: keeps_def ok_step_def)
  have step: "ok_step (np_env k) (Node_id k) w w' \<Longrightarrow> world_ok (np_env k) (Node_id k) w'"
    using assms(2) by (simp add: ok_step_def)
  from assms(1) show ?thesis
  proof cases
    case Opened
    then show ?thesis
      using keeps channel_opened_keeps [OF assms(2,3)] by blast
  next
    case Closed
    then show ?thesis
      using step channel_closed_step by blast
  next
    case Accepted
    then show ?thesis
      using step [OF quiet_step] onClient_quiet by blast
  next
    case DataChannel
    then show ?thesis
      using step data_channel_received_step by blast
  next
    case LocalDescription
    then show ?thesis
      using keeps localDescription_keeps(1) [OF assms(2,3)] by blast
  next
    case Gathering
    then show ?thesis
      using keeps localDescription_keeps(2) [OF assms(2,3)] by blast
  next
    case Connect
    then show ?thesis
      using step connect_keeps by blast
  next
    case Send
    then show ?thesis
      using keeps Node_send_keeps [OF assms(2,3)] by blast
  next
    case Broadcast
    then show ?thesis
      using keeps broadcast_keeps by blast
  next
    case Callback
    then show ?thesis
      using step [OF quiet_step] onMessage_quiet by blast
  next
    case Update
    then show ?thesis
      using keeps update_components_keeps by blast
  next
    case Network
    then show ?thesis
      using step [OF quiet_step] network_quiet by blast
  qed
qed

lemma node_step_ok:
  assumes "node_step k config w out w'" "world_ok (np_env k) (Node_id k) w" "np_stack k = Suc (Suc (Suc n))"
  shows "out \<noteq> Overflow \<and> world_ok (np_env k) (Node_id k) w'"
  using assms(1)
proof cases
  case Action
  then show ?thesis
    using node_action_ok assms(2,3) by blast
next
  case (Data data c)
  have "keeps (ok_step (np_env k) (Node_id k)) (Routing_onMessage k (Node_components config) c data) w"
    using onMessage_keeps [OF assms(2,3)] Data by blast
  then show ?thesis
    using Data assms(2) by (simp add: keeps_def ok_step_def)
qed

lemma node_reach_ok:
  assumes "node_reach k config w" "np_stack k = Suc (Suc (Suc n))" "ecdh_laws (np_env k)"
  shows "world_ok (np_env k) (Node_id k) w"
  using assms(1)
proof (induction rule: node_reach.induct)
  case (Start p indeterminate q q' net nd)
  then show ?case
    using Node_new_ok [OF assms(3), of n p indeterminate q q' net config nd] assms(2) by (simp add: Node_id_def)
next
  case (Step w out w')
  then show ?case
    using node_step_ok assms(2) by blast
qed

text \<open>C10: in every state a node reaches from its construction, whatever data arrives on its channels
  (as long as State messages under its own identifier are echoes of what it announced, which
  network runs derive from unforgeable signatures, and its neighbour list has room in a message,
  of up to 1983 entries, for one more whenever data arrives or a channel opens),
  however channels, data channels and descriptions come and go, whatever the application asks
  for and whatever libdatachannel answers or throws: the channels and neighbours of routing are
  consistent and there is one peering per remote node; the node is in its own graph under its
  current ECDH key with a number one below the next; the links of every node are those of its last
  accepted state; and the routing table leads to exactly the other nodes announced as
  neighbours, each through itself. No such step from such a state overflows the stack, with three
  frames.\<close>

theorem reachable_node_consistent:
  assumes "node_reach k config w" "np_stack k = Suc (Suc (Suc n))" "ecdh_laws (np_env k)"
  shows "routing_ok w \<and> peerings_ok w \<and> transports_ok w \<and> mTable w = Some (graph_routingTable w)
    \<and> (\<exists>st. graph_get (Node_id k) w = Inr st \<and> st_ecdhPublic st = Ecdh_publicKey (graph_localEcdhPair w)
         \<and> st_sequence st = mStateSequence w - 1
         \<and> (\<forall>x h. rt_findNextHop (graph_routingTable w) x = Some h \<longleftrightarrow>
              h = x \<and> x \<in> set (st_neighbors st) \<and> x \<noteq> Node_id k))
    \<and> (\<forall>i. graph_links w i = (case graph_get i w of Inl _ \<Rightarrow> {} | Inr st \<Rightarrow> set (st_neighbors st)))
    \<and> (\<forall>out w'. node_step k config w out w' \<longrightarrow> out \<noteq> Overflow)"
proof -
  note ok = node_reach_ok [OF assms]
  have "out \<noteq> Overflow" if "node_step k config w out w'" for out w'
    using node_step_ok [OF that ok assms(2)] by simp
  then show ?thesis
    using world_okD(2,4,5) [OF ok] node_inv_table [OF world_okD(3) [OF ok]] node_inv_links [OF world_okD(3) [OF ok]]
    by blast
qed

text \<open>A node that was just constructed, with any key pair.\<close>

lemma demo_node:
  assumes "x < 256"
  obtains nd :: "(nat, nat, string \<times> string, unit) node" where
    "Node_new 3 demo_env demo_plum False 0 0 (demo_world\<lparr>entropy := x\<rparr>) Configuration_default = Return nd"
    "nd_pair nd = \<lparr>pair_private = x, pair_public = x\<rparr>" "mNeighbors (nd_world nd) = []" "mChannels (nd_world nd) = []"
    "mEcdh (nd_world nd) = Ecdh_new demo_env (x + 1)"
proof -
  let ?net = "demo_world\<lparr>entropy := x\<rparr>" and ?pair = "\<lparr>pair_private = x, pair_public = x\<rparr>"
  have pair: "EcdsaPair_new demo_env x = Inr ?pair"
    using assms by (simp add: EcdsaPair_new_def demo_env_def)
  obtain out g where g: "Graph_new 3 demo_env ?pair (g_ptr ?net) (x + 1)
      (Routing_new (rtc_open ?net) (rtc_throws ?net)) = (out, g)"
    by fastforce
  then have "out = Return True"
    using Networking_new_started [OF demo_ecdh_laws, of 0] by (fastforce simp: numeral_3_eq_3)
  moreover obtain s where "Node_server demo_plum False Configuration_default = Return (Some s)"
    using demo_server_started by blast
  ultimately obtain nd :: "(nat, nat, string \<times> string, unit) node" where nd:
      "Node_new 3 demo_env demo_plum False 0 0 ?net Configuration_default = Return nd" "nd_pair nd = ?pair"
    using g pair by (simp add: Node_new_def)
  then show ?thesis
    using that Node_new_silent [OF demo_ecdh_laws, of 0 demo_plum False 0 0 ?net Configuration_default nd]
    by (simp add: numeral_3_eq_3)
qed

text \<open>A node that was just constructed accepts a WebSocket.\<close>

lemma demo_lengths:
  "length (Identifier_binary demo_env i) = 33" "length (dh_public (Ecdh_new demo_env s)) = 65"
  by (simp_all add: identifier_defs demo_env_def)

theorem reachable_node_consistent_witness:
  "\<exists>w c. node_reach demo_params Configuration_default w \<and> mChannels w = [c] \<and> rtc_handler w c = RouteHandler
     \<and> routing_ok w"
proof -
  obtain nd :: "(nat, nat, string \<times> string, unit) node" where nd:
    "Node_new 3 demo_env demo_plum False 0 0 (demo_world\<lparr>entropy := 7\<rparr>) Configuration_default = Return nd"
    "nd_pair nd = demo_pair" "mNeighbors (nd_world nd) = []" "mChannels (nd_world nd) = []"
    "mEcdh (nd_world nd) = Ecdh_new demo_env 8"
    using demo_node [of 7] by (auto simp: demo_pair_def)
  let ?c = "rtc_next (nd_world nd)" and ?u = "snd (Server_onClient (nd_world nd))"
  let ?w = "routing_addChannel ?c ?u"
  have "node_reach demo_params Configuration_default (nd_world nd)"
    by (rule node_reach.Start [of _ demo_plum False 0 0 "demo_world\<lparr>entropy := 7\<rparr>"]) (use nd in simp_all)
  then have u: "node_reach demo_params Configuration_default ?u"
    by (rule node_reach.Step) (rule node_step.Action [OF node_action.Accepted])
  have "mNeighbors ?u = []" "mChannels ?u = []" "mEcdh ?u = Ecdh_new demo_env 8" "ch_role ?u ?c = IncomingSocket"
    using nd by (simp_all add: Server_onClient_def Let_def)
  moreover from this have "room demo_env (Node_id demo_params) ?u"
    by (simp add: room_def announceable_neighbors routing_neighbors_def um_emplace_def um_keys_def oset_of_def
        oset_insert_def insort_insert_key_def demo_lengths del: Ecdh_new_sel)
  ultimately have "node_step demo_params Configuration_default ?u (Return ()) ?w"
    by (intro node_step.Action node_action.Opened [where c = ?c])
      (simp_all add: Node_channel_opened_def channel_opened_def deliver_event_def)
  with u have w: "node_reach demo_params Configuration_default ?w"
    by (rule node_reach.Step)
  have "np_stack demo_params = Suc (Suc (Suc 0))" "ecdh_laws (np_env demo_params)"
    using demo_ecdh_laws by simp_all
  from reachable_node_consistent [OF w this] have "routing_ok ?w"
    by blast
  moreover have "mChannels ?w = [?c]" "rtc_handler ?w ?c = RouteHandler"
    using \<open>mChannels ?u = []\<close> by (simp_all add: routing_addChannel_def Let_def us_emplace_def)
  ultimately show ?thesis
    using w by blast
qed

end
