(* ===== verification/Traffic.thy ===== *)
theory Traffic
  imports Node_Invariant
begin

text \<open>
  What a node says about itself. Every operation of the node is followed for the bytes it puts on
  channels: a State message under the node's own identifier leaves it only as the announcement
  of its current ECDH key under the next sequence number, or as the relay of a message that
  says no more. The graph takes over nothing about another node but what a message of that node
  says.
\<close>

section \<open>Statements about the node itself\<close>

text \<open>The current key, under a number already used.\<close>

definition own_past :: "('p, 'z) graph_scheme \<Rightarrow> 'p state \<Rightarrow> bool" where
  "own_past w s \<longleftrightarrow> st_ecdhPublic s = dh_public (mEcdh w) \<and> st_sequence s < mStateSequence w"

text \<open>Bytes from which a receiver learns nothing new about the node.\<close>

definition harmless :: "('p::linorder, 'k) env \<Rightarrow> 'p \<Rightarrow> ('p, 'z) graph_scheme \<Rightarrow> binary \<Rightarrow> bool" where
  "harmless env self w data \<longleftrightarrow>
     (\<forall>m s. message_of env data = Inr m \<longrightarrow> State_FromMessage env (Some m) = Inr s \<longrightarrow> state_id s = self \<longrightarrow>
        own_past w s)"

text \<open>The bytes a node has put on its channels, and the invariant that all of them are harmless.\<close>

definition log_of :: "'z rtc_scheme \<Rightarrow> binary set" where
  "log_of w = snd ` set (rtc_sent w)"

definition log_ok :: "('p::linorder, 'k) env \<Rightarrow> 'p \<Rightarrow> ('p, 'z) graph_scheme \<Rightarrow> bool" where
  "log_ok env self w \<longleftrightarrow> (\<forall>data \<in> log_of w. harmless env self w data)"

text \<open>An operation that sends only harmless bytes and leaves states, key and numbers alone.\<close>

definition tame :: "('p::linorder, 'k) env \<Rightarrow> 'p \<Rightarrow> ('p, 'z) graph_scheme \<Rightarrow> ('p, 'z) graph_scheme \<Rightarrow> bool" where
  "tame env self w w' \<longleftrightarrow> g_heap w' = g_heap w \<and> mVertices w' = mVertices w \<and> mEcdh w' = mEcdh w
     \<and> mStateSequence w' = mStateSequence w
     \<and> log_of w \<subseteq> log_of w' \<and> (\<forall>data \<in> log_of w' - log_of w. harmless env self w data)"

lemma harmless_cong:
  "mEcdh w' = mEcdh w \<Longrightarrow> mStateSequence w' = mStateSequence w \<Longrightarrow> harmless env self w' d = harmless env self w d"
  by (simp add: harmless_def own_past_def)

lemma tame_refl [simp]: "tame env self w w"
  by (simp add: tame_def)

lemma tame_trans: "tame env self u v \<Longrightarrow> tame env self v w \<Longrightarrow> tame env self u w"
  using harmless_cong [of v u env self] by (auto simp: tame_def)

lemma tameI:
  "g_heap w' = g_heap w \<Longrightarrow> mVertices w' = mVertices w \<Longrightarrow> mEcdh w' = mEcdh w \<Longrightarrow>
   mStateSequence w' = mStateSequence w \<Longrightarrow> rtc_sent w' = rtc_sent w \<Longrightarrow> tame env self w w'"
  by (simp add: tame_def log_of_def)

lemma tame_state: "tame env self w w' \<Longrightarrow> graph_state w' = graph_state w"
  by (auto simp: tame_def graph_state_def graph_findVertice_def fun_eq_iff)

text \<open>\<open>leads R f w\<close>: however \<open>f\<close> ends from \<open>w\<close>, its final state is related to \<open>w\<close>.\<close>

definition leads :: "('w \<Rightarrow> 'w \<Rightarrow> bool) \<Rightarrow> ('w, 'a) prog \<Rightarrow> 'w \<Rightarrow> bool" where
  "leads R f w \<longleftrightarrow> R w (snd (f w))"

lemma leads_bind:
  assumes "leads R f w" "\<And>a w'. f w = (Return a, w') \<Longrightarrow> leads R (g a) w'"
    and "\<And>u v w. R u v \<Longrightarrow> R v w \<Longrightarrow> R u w"
  shows "leads R (bindp f g) w"
  using assms(1,2) assms(3) [of w "snd (f w)"]
  by (cases "f w"; cases "fst (f w)") (auto simp: leads_def bindp_def)

lemma leads_cong: "f x = g x \<Longrightarrow> leads R g x \<Longrightarrow> leads R f x"
  by (simp add: leads_def)

section \<open>Sending\<close>

text \<open>A message whose bytes are harmless, if it can be serialised at all.\<close>

definition discreet :: "('p::linorder, 'k) env \<Rightarrow> 'p \<Rightarrow> ('p, 'z) graph_scheme \<Rightarrow> 'p message \<Rightarrow> bool" where
  "discreet env self w m \<longleftrightarrow> (\<forall>data. message_binary env m = Inr data \<longrightarrow> harmless env self w data)"

lemma discreet_tame: "tame env self w w' \<Longrightarrow> discreet env self w' m = discreet env self w m"
  using harmless_cong [of w' w env self] by (simp add: tame_def discreet_def)

lemma discreet_cong:
  "mEcdh w' = mEcdh w \<Longrightarrow> mStateSequence w' = mStateSequence w \<Longrightarrow> discreet env self w' m = discreet env self w m"
  using harmless_cong [of w' w env self] by (simp add: discreet_def)

lemma message_of_type:
  assumes "message_of env data = Inr m"
  shows "m_type m = data ! 0"
proof -
  obtain hb r where hb: "rd_read 8 (reader_of data) = Inr (hb, r)" and
    after: "message_after_header env data (h_type (header_load (host env) hb))
      (ntohl (host env) (h_sequence (header_load (host env) hb))) (h_flags (header_load (host env) hb))
      (unat (ntohs (host env) (h_length (header_load (host env) hb)))) r = Inr m"
    using assms unfolding message_of_def Let_def by (elim sbind_pairE)
  from after have "m_type m = h_type (header_load (host env) hb)"
    unfolding message_after_header_def
    by (elim sbind_pairE) (auto dest: message_check_Inr_iff [THEN iffD1])
  then show ?thesis
    using hb by (auto simp: header_load_def rd_read_eq split: if_splits)
qed

lemma other_type_discreet:
  assumes "m_type m \<noteq> StateType"
  shows "discreet env self w m"
proof -
  have "State_FromMessage env (Some m') \<noteq> Inr s"
    if "message_binary env m = Inr data" "message_of env data = Inr m'" for data m' s
  proof -
    have "m_type m' = m_type m"
      using that message_of_type [OF that(2)] by (auto simp: message_binary_layout signed_part_def split: if_splits)
    then show ?thesis
      using assms by (simp add: State_FromMessage_def split: option.split)
  qed
  then show ?thesis
    by (auto simp: discreet_def harmless_def)
qed

lemma sent_tame:
  assumes "discreet env self w m" "message_binary env m = Inr data"
  shows "tame env self w (w\<lparr>rtc_sent := rtc_sent w @ map (\<lambda>c. (c, data)) cs, rtc_cerr := e\<rparr>)"
  using assms by (auto simp: tame_def log_of_def discreet_def)

lemma broadcast_tame: "discreet env self w m \<Longrightarrow> tame env self w (routing_broadcast env m from w)"
  using sent_tame [of env self w m]
  by (auto simp: broadcast_floods_others tameI split: sum.split)

lemma send_message_tame: "discreet env self w m \<Longrightarrow> leads (tame env self) (send_message env c m) w"
  using sent_tame [of env self w m, where cs = "[c]" and e = "rtc_cerr w"]
  by (auto simp: leads_def send_message_cases split: sum.split option.split)

lemma route_tame: "discreet env self w m \<Longrightarrow> leads (tame env self) (routing_route env i m from) w"
  using send_message_tame [of env self w m]
  by (auto simp: leads_def routing_route_def bindp_def split: option.split prod.splits outcome.splits)
    (metis snd_conv)+

lemma send_tame: "discreet env self w m \<Longrightarrow> leads (tame env self) (routing_send env i m) w"
  using route_tame [of env self w m i None] by (simp add: leads_def routing_send_def broadcast_tame)

section \<open>The transports\<close>

definition tame_node ::
    "('p::linorder, 'k) env \<Rightarrow> 'p \<Rightarrow> 't \<times> ('p, 'z) graph_scheme \<Rightarrow> 't \<times> ('p, 'z) graph_scheme \<Rightarrow> bool" where
  "tame_node env self st st' \<longleftrightarrow> tame env self (snd st) (snd st')"

lemma tame_node_trans: "tame_node env self u v \<Longrightarrow> tame_node env self v w \<Longrightarrow> tame_node env self u w"
  using tame_trans by (auto simp: tame_node_def)

lemma counters_tame [simp]:
  "leads (tame_node env self) next_seed st" "leads (tame_node env self) next_sequence st"
  "leads (tame_node env self) (try_value r) st'"
  by (simp_all add: leads_def next_seed_def next_sequence_def try_value_def tame_node_def tameI split: sum.split)

lemma node_bind:
  "leads (tame_node env self) f st \<Longrightarrow> (\<And>a st'. f st = (Return a, st') \<Longrightarrow> leads (tame_node env self) (g a) st') \<Longrightarrow>
   leads (tame_node env self) (bindp f g) st"
  by (rule leads_bind) (blast intro: tame_node_trans)+

lemma node_try:
  assumes "\<And>a. h st = Inr a \<Longrightarrow> leads (tame_node env self) (g a) st"
  shows "leads (tame_node env self) (bindp (\<lambda>st. try_value (h st) st) g) st"
  using assms by (simp add: leads_def bindp_def try_value_def tame_node_def split: sum.split)

lemma Transport_send_tame:
  assumes "mType t \<noteq> StateType"
  shows "leads (tame_node env self) (Transport_send env pair i payload) (t, w)"
proof -
  have send: "leads (tame_node env self) (on_node (routing_send env j m)) st" if "m_type m \<noteq> StateType" for j m st
    using send_tame [OF other_type_discreet [OF that], where env = env and self = self and w = "snd st" and i = j]
    by (auto simp: leads_def on_node_def tame_node_def split: prod.split)
  have "leads (tame_node env self)
      (bindp (try_value (graph_get i w)) (\<lambda>remoteState.
       bindp next_seed (\<lambda>seed.
       bindp (\<lambda>st. try_value (CipherBody_Encrypt env seed payload (graph_localEcdhPair (snd st))
                (st_ecdhPublic remoteState)) st) (\<lambda>cipherBody.
       bindp next_sequence (\<lambda>sequence.
       bindp next_seed (\<lambda>seed.
       bindp (try_value (make_message env seed (mType t) sequence (CipherBody_binary cipherBody)
                (Some pair) (Some i))) (\<lambda>message.
       on_node (routing_send env (pair_public pair) message))))))))
      (t, w)" (is "leads _ ?prog _")
    by (intro node_try [where h = "\<lambda>_. _"] node_try node_bind counters_tame send)
      (simp add: make_message_type assms)
  moreover have "Transport_send env pair i payload (t, w) = ?prog (t, w)"
    by (simp add: Transport_send_def)
  ultimately show ?thesis
    by (rule leads_cong [rotated])
qed

lemma Transport_broadcast_tame:
  assumes "mType t \<noteq> StateType"
  shows "leads (tame_node env self) (Transport_broadcast env pair payload) (t, w)"
proof (cases "t_broadcastable t")
  case False
  then show ?thesis
    by (simp add: leads_def Transport_broadcast_def tame_node_def)
next
  case True
  have last: "leads (tame_node env self) (on_node (\<lambda>w. (Return (), routing_broadcast env m None w))) st"
    if "m_type m \<noteq> StateType" for m st
    using broadcast_tame [OF other_type_discreet [OF that]] by (simp add: leads_def on_node_def tame_node_def)
  have "leads (tame_node env self)
      (bindp next_sequence (\<lambda>sequence.
       bindp next_seed (\<lambda>seed.
       bindp (try_value (make_message env seed (mType t) sequence payload (Some pair) None)) (\<lambda>message.
       on_node (\<lambda>w. (Return (), routing_broadcast env message None w))))))
      (t, w)" (is "leads _ ?prog _")
    by (intro node_try [where h = "\<lambda>_. _"] node_bind counters_tame last) (simp add: make_message_type assms)
  moreover have "Transport_broadcast env pair payload (t, w) = ?prog (t, w)"
    using True by (simp add: Transport_broadcast_def)
  ultimately show ?thesis
    by (rule leads_cong [rotated])
qed

lemma incoming_unicast_tame: "leads (tame_node env self) (Transport_incoming_unicast env m) (t, w)"
  by (simp add: leads_def tame_node_def Transport_incoming_unicast_def Let_def split: option.split prod.split sum.split)

lemma Transport_notify_tame:
  assumes "\<And>m ch. e = MessageEvent m ch \<Longrightarrow> discreet env self w m"
  shows "leads (tame_node env self) (Transport_notify env e) (t, w)"
proof (cases e)
  case (MessageEvent m ch)
  then show ?thesis
    using incoming_unicast_tame [of env self m t w] broadcast_tame [OF assms [OF MessageEvent], of ch]
    by (auto simp: leads_def tame_node_def Transport_notify_def Transport_incoming_def
        BroadcastableTransport_incoming_def Let_def split: option.split prod.split)
next
  case NeighborEvent
  then show ?thesis
    by (simp add: leads_def tame_node_def Transport_notify_def)
qed

lemma with_tame:
  "leads (tame_node env self) f (w_user w, w) \<Longrightarrow> leads (tame env self) (with_user f) w"
  "leads (tame_node env self) f (w_signaling w, w) \<Longrightarrow> leads (tame env self) (with_signaling f) w"
proof -
  have "tame env self w (w'\<lparr>w_user := t\<rparr>) = tame env self w w'" for w' t
    by (simp add: tame_def log_of_def harmless_def own_past_def)
  moreover have "tame env self w (w'\<lparr>w_signaling := t\<rparr>) = tame env self w w'" for w' t
    by (simp add: tame_def log_of_def harmless_def own_past_def)
  ultimately show
    "leads (tame_node env self) f (w_user w, w) \<Longrightarrow> leads (tame env self) (with_user f) w"
    "leads (tame_node env self) f (w_signaling w, w) \<Longrightarrow> leads (tame env self) (with_signaling f) w"
    by (simp_all add: leads_def tame_node_def with_user_def with_signaling_def split: prod.splits)
      (metis prod.collapse snd_conv)+
qed

section \<open>The operations that announce nothing\<close>

lemma tame_updates [simp]:
  "tame env self w (w'\<lparr>mPeerings := a\<rparr>) = tame env self w w'"
  "tame env self w (w'\<lparr>rtc_cerr := b\<rparr>) = tame env self w w'"
  "tame env self w (w'\<lparr>delivered := c\<rparr>) = tame env self w w'"
  by (simp_all add: tame_def log_of_def)

lemma Peering_tame:
  "tame env self w (snd (Peering_disconnect p w))" "tame env self w (snd (snd (Peering_connect (p, w))))"
  "leads (tame env self) (Peering_new i) w" "tame env self w (snd (Peering_onDataChannel c p w))"
  "tame env self w (Peering_onClosed p w)" "leads (tame env self) (Peering_receive lib l p payload) w"
  by (simp_all only: leads_def) (rule tameI; simp add: Peering_connect_def Peering_new_def Peering_disconnect_def
      Peering_setDataChannel_def Peering_onDataChannel_def Peering_onClosed_def Peering_receive_def
      pc_setRemoteDescription_def pc_createDataChannel_def routing_removeChannel_def rtc_close_def Let_def
      split: option.split sum.split prod.split)+

lemma createPeering_tame: "leads (tame env self) (Networking_createPeering i) w"
proof (cases "um_find (mPeerings w) i")
  case None
  have "leads (tame env self) (bindp (Peering_new i) (\<lambda>p w. (Return p, w\<lparr>mPeerings := um_emplace i p (mPeerings w)\<rparr>))) w"
    by (rule leads_bind [OF Peering_tame(3)]) (simp add: leads_def, rule tame_trans)
  with None show ?thesis
    by (simp add: leads_def Networking_createPeering_def)
qed (simp add: leads_def Networking_createPeering_def)

lemma connectPeer_tame: "leads (tame env self) (Networking_connectPeer i) w"
  unfolding Networking_connectPeer_def
proof (rule leads_bind [OF createPeering_tame])
  show "leads (tame env self) (\<lambda>w. let (out, p, w) = Peering_connect (p, w) in (out, store_peering p w)) v" for p v
    using Peering_tame(2) [of env self v p] by (cases "Peering_connect (p, v)") (auto simp: leads_def store_peering_def split: prod.splits)
qed (rule tame_trans)

lemma Networking_receive_tame: "tame env self w (snd (Networking_receive lib l i payload w))"
proof -
  have "leads (tame env self) (Networking_receive lib l i payload) w"
    unfolding Networking_receive_def by (rule leads_bind [OF createPeering_tame Peering_tame(6)]) (rule tame_trans)
  then show ?thesis
    by (simp add: leads_def)
qed

lemma Networking_update_tame: "tame env self w (snd (Networking_update shuffle w))"
proof -
  have u: "tame env self w (w\<lparr>entropy := e\<rparr>)" for e
    by (rule tameI) simp_all
  moreover have "tame env self w (snd (Networking_connectPeer i (w\<lparr>entropy := e\<rparr>)))" for i e
    using connectPeer_tame [of env self i "w\<lparr>entropy := e\<rparr>"] tame_trans [OF u [of e]] by (simp add: leads_def)
  ultimately show ?thesis
    by (simp add: Networking_update_def Let_def split: option.split)
qed

lemma connectWebSocket_tame: "tame env self w (snd (Networking_connectWebSocket url w))"
  by (simp add: Networking_connectWebSocket_def Let_def tameI split: option.split)

lemma channel_tame:
  "tame env self w (channel_closed c w)" "tame env self w (data_channel_received i c w)"
  "tame env self w (snd (Server_onClient w))" "tame env self w (Node_onMessage callable w)"
  "tame env self w (routing_addChannel c w)" "tame env self w (snd (routing_addNeighbor i c w))"
  "tame env self w (snd (channel_opened c w))" "tame env self w (Node_receive i payload w)"
proof -
  show closed: "tame env self w (channel_closed c w)"
    using Peering_tame(5) by (auto simp: channel_closed_def routing_removeChannel_def Let_def intro: tameI
        split: role.split option.split)
  show "tame env self w (data_channel_received i c w)"
    using Peering_tame(4) [of env self w c]
    by (auto simp: data_channel_received_def store_peering_def split: option.split prod.split) (metis snd_conv)
qed (rule tameI; simp add: Server_onClient_def Node_onMessage_def routing_addChannel_def routing_addNeighbor_def
    channel_opened_def Peering_onOpen_def Node_receive_def Let_def split: role.split option.split)+

lemma graph_update_tame: "tame env self w (snd (graph_update env pair w))"
proof (cases "make_message env (entropy w) Hello (mHelloSequence w) [] (Some pair) None")
  case (Inl e)
  then show ?thesis
    by (simp add: graph_update_def graph_broadcastHello_def Let_def tameI)
next
  case (Inr m)
  let ?u = "w\<lparr>mHelloSequence := mHelloSequence w + 1, entropy := entropy w + 1\<rparr>"
  have "m_type m \<noteq> StateType"
    using make_message_type [OF Inr] by (simp add: message_types)
  then have "tame env self ?u (routing_broadcast env m None ?u)"
    by (intro broadcast_tame other_type_discreet)
  moreover have "tame env self w ?u"
    by (rule tameI) simp_all
  ultimately show ?thesis
    using Inr tame_trans by (fastforce simp: graph_update_def graph_broadcastHello_def Let_def)
qed

lemma update_components_tame:
  assumes "np_env k = env"
  shows "tame env self w (snd (update_components k shuffle cs w))"
proof (induction cs arbitrary: w)
  case (Cons c cs)
  have "leads (tame env self) (bindp (component_update k shuffle c) (\<lambda>_. update_components k shuffle cs)) w"
  proof (rule leads_bind)
    show "leads (tame env self) (component_update k shuffle c) w"
      using graph_update_tame [of env self w] Networking_update_tame [of env self w shuffle]
      by (simp add: leads_def component_update_def assms split: component.split)
  qed (use Cons in \<open>simp add: leads_def\<close>, rule tame_trans)
  then show ?case
    by (simp add: leads_def)
qed simp

section \<open>Announcements\<close>

text \<open>
  What a whole operation of the node may do after hearing the message \<open>heard\<close>: announce the local
  state at most once, under the next number, and take over the state \<open>heard\<close> carries.
\<close>

definition advance ::
    "('p::linorder, 'k) env \<Rightarrow> 'p \<Rightarrow> 'p message option \<Rightarrow> ('p, 'z) graph_scheme \<Rightarrow> ('p, 'z) graph_scheme \<Rightarrow> bool" where
  "advance env self heard w w' \<longleftrightarrow> mEcdh w' = mEcdh w
     \<and> (mStateSequence w' = mStateSequence w
        \<or> mStateSequence w' = mStateSequence w + 1 \<and> mStateSequence w < mStateSequence w')
     \<and> log_of w \<subseteq> log_of w' \<and> (\<forall>data \<in> log_of w' - log_of w. harmless env self w' data)
     \<and> (\<forall>i s. i \<noteq> self \<longrightarrow> graph_state w' i = Some s \<longrightarrow>
          graph_state w i = Some s \<or> State_FromMessage env heard = Inr s \<and> state_id s = i)"

lemma tame_advance: "tame env self w w' \<Longrightarrow> advance env self heard w w'"
  using tame_state [of env self w w'] harmless_cong [of w' w env self] by (auto simp: advance_def tame_def)

lemma harmless_mono:
  "mEcdh w' = mEcdh w \<Longrightarrow> mStateSequence w \<le> mStateSequence w' \<Longrightarrow> harmless env self w d \<Longrightarrow> harmless env self w' d"
  by (auto simp: harmless_def own_past_def)

lemma advance_seq: "advance env self heard w w' \<Longrightarrow> mStateSequence w \<le> mStateSequence w'"
  by (auto simp: advance_def)

lemma advance_tame:
  assumes "advance env self heard u v" "tame env self v w"
  shows "advance env self heard u w"
  using assms tame_state [OF assms(2)] harmless_cong [of w v env self] by (auto simp: advance_def tame_def)

lemma tame_then_advance:
  assumes "tame env self u v" "advance env self heard v w"
  shows "advance env self heard u w"
proof -
  have "harmless env self w data" if "data \<in> log_of v - log_of u" for data
    using that assms harmless_mono [of w u env self data] advance_seq [OF assms(2)]
    by (auto simp: tame_def advance_def)
  then show ?thesis
    using assms tame_state [OF assms(1)] by (auto simp: advance_def tame_def)
qed

lemma advance_none: "advance env self None w w' \<Longrightarrow> advance env self heard w w'"
  by (auto simp: advance_def State_FromMessage_def)

lemma advance_log:
  assumes "advance env self heard w w'" "log_ok env self w"
  shows "log_ok env self w'"
  using assms harmless_mono [of w' w env self] advance_seq [OF assms(1)]
  by (auto simp: log_ok_def advance_def)

lemma FromMessage_key: "State_FromMessage env (Some m) = Inr s \<Longrightarrow> st_ecdhPublic s = take 65 (m_body m)"
  by (auto simp: State_FromMessage_def State_new_def sbind_Inr_iff rd_read_eq Ecdh_KeySize_def
      split: option.splits if_splits)

lemma discreet_mono:
  "mEcdh w' = mEcdh w \<Longrightarrow> mStateSequence w \<le> mStateSequence w' \<Longrightarrow> discreet env self w m \<Longrightarrow> discreet env self w' m"
  using harmless_mono [of w' w env self] by (auto simp: discreet_def)

text \<open>The laws of the environment, and a node under them.\<close>

definition node_laws :: "('p::linorder, 'k) env \<Rightarrow> ('p, 'k) EcdsaPair \<Rightarrow> ('p, 'z) graph_scheme \<Rightarrow> bool" where
  "node_laws env pair w \<longleftrightarrow> ecdsa_laws env \<and> pair_ok env pair \<and> length (dh_public (mEcdh w)) = 65
     \<and> mStateSequence w < mStateSequence w + 1"

lemma announcement_discreet:
  assumes laws: "node_laws env pair w" and self: "self = pair_public pair"
    and m: "State_toMessage env seed (local_announcement self w) pair = Inr m"
    and w': "mEcdh w' = mEcdh w" "mStateSequence w' = mStateSequence w + 1"
  shows "discreet env self w' m"
proof -
  let ?ann = "local_announcement self w"
  have fields: "m_type m = StateType" "m_source m = Some self" "m_destination m = None"
      "m_sequence m = mStateSequence w" "m_body m = State_body env ?ann" "length (m_body m) \<le> 65535"
    using m by (auto simp: State_toMessage_simp message_sign_simp self local_announcement_def State_new_def split: if_splits)
  have "message_ok env m"
    using fields laws self by (auto simp: message_ok_def node_laws_def pair_ok_def)
  moreover have "message_signed env m"
    using m laws by (auto simp: State_toMessage_simp node_laws_def intro: message_signed_sign)
  ultimately have parse: "sbind (message_binary env m) (message_of env) = Inr m"
    using laws by (intro message_roundtrip) (simp_all add: node_laws_def)
  have "own_past w' s" if "State_FromMessage env (Some m) = Inr s" for s
  proof -
    have "take 65 (m_body m) = dh_public (mEcdh w)"
      using laws by (simp add: fields(5) State_body_layout local_announcement_def State_new_def node_laws_def)
    then show ?thesis
      using FromMessage_key [OF that] FromMessage_wf(2) [OF that] fields(4) w' laws by (simp add: own_past_def node_laws_def)
  qed
  then show ?thesis
    using parse by (auto simp: discreet_def harmless_def)
qed

text \<open>A node that announces itself: what it sends is the announcement.\<close>

lemma announce_advance:
  assumes laws: "node_laws env pair w" and self: "self = pair_public pair"
    and m: "State_toMessage env seed (local_announcement self w) pair = Inr m"
    and w': "mEcdh w' = mEcdh w" "mStateSequence w' = mStateSequence w + 1"
      "rtc_sent w' = rtc_sent (routing_broadcast env m None w)"
    and states: "\<And>i s. i \<noteq> self \<Longrightarrow> graph_state w' i = Some s \<Longrightarrow>
      graph_state w i = Some s \<or> State_FromMessage env heard = Inr s \<and> state_id s = i"
  shows "advance env self heard w w'"
proof -
  have "discreet env self w' m"
    using announcement_discreet [OF laws self m w'(1,2)] .
  have log: "log_of w' = log_of (routing_broadcast env m None w)"
    by (simp add: log_of_def w'(3))
  have "log_of w \<subseteq> log_of w' \<and> (\<forall>data \<in> log_of w' - log_of w. message_binary env m = Inr data)"
    unfolding log by (auto simp: log_of_def broadcast_floods_others split: sum.split)
  then show ?thesis
    using \<open>discreet env self w' m\<close> w' states laws by (auto simp: advance_def discreet_def node_laws_def)
qed

section \<open>The graph\<close>

lemma neighbor_advance:
  assumes "graph_ready env (pair_public pair) w" "node_laws env pair w"
    and "graph_notify (Suc (Suc n)) env pair (NeighborEvent i ch) w = (out, w')"
  shows "advance env (pair_public pair) heard w w'"
proof (cases "graph_links w (pair_public pair) = {j. routing_hasNeighbor j w}")
  case True
  then have "w' = w"
    using notify_neighbor_view [OF assms(1), of n i ch] assms(3) by simp
  then show ?thesis
    by (simp add: tame_advance)
next
  case False
  then obtain m where m: "node_frame w w'" "mStateSequence w' = mStateSequence w + 1"
      "graph_state w' = (graph_state w)(pair_public pair \<mapsto> local_announcement (pair_public pair) w)"
      "State_toMessage env (entropy w) (local_announcement (pair_public pair) w) pair = Inr m"
      "rtc_sent w' = rtc_sent (routing_broadcast env m None w)"
    using notify_neighbor_view [OF assms(1), of n i ch] assms(3) by auto
  show ?thesis
    by (rule announce_advance [OF assms(2) refl m(4) _ m(2,5)]) (use m(1,3) in \<open>simp_all add: node_frame_def\<close>)
qed

lemma accepted_advance:
  assumes "node_laws env pair w" "accepted_effect env pair s w w'"
    and "State_FromMessage env heard = Inr s"
  shows "advance env (pair_public pair) heard w w'"
proof (cases "rekeyed s (graph_state w (state_id s))")
  case False
  then show ?thesis
    using assms by (auto simp: accepted_effect_def node_frame_def Let_def advance_def log_of_def)
next
  case True
  then obtain m where m: "State_toMessage env (entropy w) (local_announcement (pair_public pair) w) pair = Inr m"
      "rtc_sent w' = rtc_sent (routing_broadcast env m None w)"
    using assms(2) by (auto simp: accepted_effect_def Let_def)
  show ?thesis
    by (rule announce_advance [OF assms(1) refl m(1) _ _ m(2)])
      (use True assms(2,3) in \<open>auto simp: accepted_effect_def node_frame_def Let_def split: if_splits\<close>)
qed

lemma state_message_advance:
  assumes "graph_ready env (pair_public pair) w" "node_laws env pair w" "discreet env (pair_public pair) w m"
    and "\<forall>s. State_FromMessage env (Some m) = Inr s \<longrightarrow> state_id s \<noteq> pair_public pair \<or> own_echo (pair_public pair) s w"
    and "m_type m \<noteq> Hello"
    and "graph_notify (Suc (Suc (Suc n))) env pair (MessageEvent m ch) w = (out, w')"
  shows "advance env (pair_public pair) (Some m) w w'"
proof (cases "State_FromMessage env (Some m)")
  case (Inl e)
  then have "w' = w"
    using assms(5,6) by (auto simp: graph_notify_def split: if_splits)
  then show ?thesis
    by (simp add: tame_advance)
next
  case (Inr s)
  note notify = assms(6) [unfolded notify_state [OF Inr]]
  show ?thesis
  proof (cases "newer s (graph_state w (state_id s))")
    case False
    then have "w' = w"
      using insert_state_cases [OF assms(1) assms(4) [rule_format, OF Inr], of n] notify by (simp add: bindp_def)
    then show ?thesis
      by (simp add: tame_advance)
  next
    case True
    then obtain u where u: "graph_insert (Suc (Suc (Suc n))) env pair s w = (Return True, u)"
        "accepted_effect env pair s w u"
      using insert_state_cases [OF assms(1) assms(4) [rule_format, OF Inr], of n] by auto
    then have w': "w' = routing_broadcast env m ch u"
      using notify by (simp add: bindp_def)
    have step: "advance env (pair_public pair) (Some m) w u"
      by (rule accepted_advance [OF assms(2) u(2) Inr])
    then have "discreet env (pair_public pair) u m"
      using discreet_mono [of u w] advance_seq [OF step] assms(3) by (simp add: advance_def)
    then show ?thesis
      unfolding w' using advance_tame [OF step] broadcast_tame by blast
  qed
qed

section \<open>Events\<close>

lemma component_message_tame:
  assumes "c \<noteq> CGraph" "discreet (np_env k) self w m"
  shows "tame (np_env k) self w (snd (component_notify k (MessageEvent m ch) c w))"
proof (cases c)
  case CSignaling
  let ?f = "with_signaling (Transport_notify (np_env k) (MessageEvent m ch))"
  have f: "leads (tame (np_env k) self) ?f w"
    using assms(2) by (intro with_tame Transport_notify_tame) simp
  have "leads (tame (np_env k) self)
      (bindp ?f (\<lambda>received w. case received of
         None \<Rightarrow> (Return None, w)
       | Some (i, payload) \<Rightarrow>
           bindp (Networking_receive (np_webrtc k) (Node_id k) i payload) (\<lambda>_ w. (Return None, w)) w)) w"
  proof (rule leads_bind [OF f])
    fix received u
    show "leads (tame (np_env k) self) (\<lambda>w. case received of
         None \<Rightarrow> (Return None, w)
       | Some (i, payload) \<Rightarrow>
           bindp (Networking_receive (np_webrtc k) (Node_id k) i payload) (\<lambda>_ w. (Return None, w)) w) u"
      using Networking_receive_tame [of "np_env k" self u "np_webrtc k" "Node_id k"]
      by (auto simp: leads_def bindp_def split: option.split prod.split outcome.split) (metis snd_conv)+
  qed (rule tame_trans)
  then show ?thesis
    by (simp add: leads_def component_notify_def CSignaling)
next
  case CUser
  let ?f = "with_user (Transport_notify (np_env k) (MessageEvent m ch))"
  have f: "leads (tame (np_env k) self) ?f w"
    using assms(2) by (intro with_tame Transport_notify_tame) simp
  have "leads (tame (np_env k) self)
      (bindp ?f (\<lambda>received w. case received of
         None \<Rightarrow> (Return None, w) | Some (i, payload) \<Rightarrow> (Return None, Node_receive i payload w))) w"
  proof (rule leads_bind [OF f])
    fix received u
    show "leads (tame (np_env k) self) (\<lambda>w. case received of
         None \<Rightarrow> (Return None, w) | Some (i, payload) \<Rightarrow> (Return None, Node_receive i payload w)) u"
      by (simp add: leads_def channel_tame(8) split: option.split)
  qed (rule tame_trans)
  then show ?thesis
    by (simp add: leads_def component_notify_def CUser)
qed (use assms in \<open>simp_all add: component_notify_def\<close>)

lemma rest_tame:
  assumes "CGraph \<notin> set ys" "discreet (np_env k) self w m"
  shows "tame (np_env k) self w (snd (notify_from k (Suc d) cs (MessageEvent m ch) ys w))"
  using assms
proof (induction ys arbitrary: w)
  case (Cons c ys w)
  then have c: "tame (np_env k) self w (snd (component_notify k (MessageEvent m ch) c w))"
      "\<forall>e w'. component_notify k (MessageEvent m ch) c w \<noteq> (Return (Some e), w')"
    using component_message_tame [of c k self w m ch] component_message_keeps [of c "np_env k" self k m ch w] by auto
  obtain out u where eq: "component_notify k (MessageEvent m ch) c w = (out, u)"
    by fastforce
  show ?case
  proof (cases out)
    case (Return emitted)
    then have "component_notify k (MessageEvent m ch) c w = (Return None, u)"
      using c(2) eq by (cases emitted) auto
    from notify_quiet [OF this] show ?thesis
      using Cons.IH [of u] Cons.prems c(1) eq discreet_tame [of "np_env k" self w u m] by (auto intro: tame_trans)
  qed (use c(1) eq in \<open>simp_all add: notify_from.simps bindp_def\<close>)
qed (simp add: notify_from.simps)

lemma node_laws_tame: "tame env self w w' \<Longrightarrow> node_laws env pair w' = node_laws env pair w"
  by (simp add: node_laws_def tame_def)

lemma neighbor_event_advance:
  assumes "graph_ready (np_env k) (Node_id k) w" "node_laws (np_env k) (np_pair k) w" "np_stack k = Suc (Suc n)"
  shows "advance (np_env k) (Node_id k) heard w
    (snd (notify_from k (Suc d) (Node_components config) (NeighborEvent i ch) (Node_components config) w))"
proof -
  obtain out w' where g: "graph_notify (np_stack k) (np_env k) (np_pair k) (NeighborEvent i ch) w = (out, w')"
    by fastforce
  have ready: "graph_ready (np_env k) (pair_public (np_pair k)) w"
    using assms(1) by (simp add: Node_id_def)
  have "out = Return None"
    using notify_neighbor_cases [OF ready, of n i ch out w'] g by (simp add: assms(3))
  then have "notify_from k (Suc d) (Node_components config) (NeighborEvent i ch) (Node_components config) w = (Return (), w')"
    using notify_neighbor_event g by blast
  then show ?thesis
    using neighbor_advance [OF ready assms(2), of n i ch out w' heard] g by (simp add: assms(3) Node_id_def)
qed

lemma graph_hello:
  assumes "m_type m = Hello" "component_notify k (MessageEvent m ch) CGraph w = (out, u)"
  shows "tame env self w u"
proof -
  have "u = w \<or> (\<exists>i c. u = snd (routing_addNeighbor i c w))"
    using assms by (auto simp: component_notify_def graph_notify_def split: option.splits if_splits prod.splits)
      (metis snd_conv)+
  then show ?thesis
    using channel_tame(6) by auto
qed

lemma message_event_advance:
  assumes "world_ok (np_env k) (Node_id k) w" "np_stack k = Suc (Suc (Suc n))"
    and "m_type m = Hello \<longrightarrow> room (np_env k) (Node_id k) w" "echo_only k m w"
    and "discreet (np_env k) (Node_id k) w m" "node_laws (np_env k) (np_pair k) w"
  shows "advance (np_env k) (Node_id k) (Some m) w
    (snd (Node_notify k (Node_components config) (MessageEvent m ch) w))"
proof -
  let ?cs = "Node_components config" and ?env = "np_env k" and ?self = "Node_id k" and ?d = "Suc (Suc n)"
  obtain ys where cs: "?cs = [CRouting] @ CGraph # ys" "CGraph \<notin> set ys"
    by (rule Node_components_graph)
  have "component_notify k (MessageEvent m ch) CRouting w = (Return None, w)"
    by (simp add: component_notify_def)
  from notify_quiet [OF this] have start: "Node_notify k ?cs (MessageEvent m ch) w =
      notify_from k (Suc ?d) ?cs (MessageEvent m ch) (CGraph # ys) w"
    by (simp add: Node_notify_def cs(1) assms(2))
  obtain out u where g: "component_notify k (MessageEvent m ch) CGraph w = (out, u)"
    by fastforce
  note ok = graph_message_ok [OF assms(1-4) g]
  have rest: "advance ?env ?self (Some m) w (snd (notify_from k (Suc ?d) ?cs (MessageEvent m ch) ys v))"
    if "advance ?env ?self (Some m) w v" for v
  proof (rule advance_tame [OF that])
    have "discreet ?env ?self v m"
      using discreet_mono [of v w] advance_seq [OF that] that assms(5) by (simp add: advance_def)
    then show "tame ?env ?self v (snd (notify_from k (Suc ?d) ?cs (MessageEvent m ch) ys v))"
      by (rule rest_tame [OF cs(2)])
  qed
  have first: "advance ?env ?self (Some m) w u" if "out = Return None \<or> (\<exists>e. out = Throw e)"
  proof (cases "m_type m = Hello")
    case True
    then show ?thesis
      using graph_hello [OF True g, of ?env ?self] that tame_advance by auto
  next
    case False
    have notify: "graph_notify (Suc (Suc (Suc n))) ?env (np_pair k) (MessageEvent m ch) w = (out, u)"
      using g by (simp add: component_notify_def assms(2))
    have "graph_ready ?env (pair_public (np_pair k)) w"
      using world_okD(1) [OF assms(1)] by (simp add: Node_id_def)
    from state_message_advance [OF this assms(6) _ _ False notify] assms(4,5) show ?thesis
      by (simp add: Node_id_def echo_only_def)
  qed
  consider "out = Return None" | e where "out = Throw e" | i c where "out = Return (Some (NeighborEvent i c))"
    using ok by blast
  then have "advance ?env ?self (Some m) w (snd (notify_from k (Suc ?d) ?cs (MessageEvent m ch) (CGraph # ys) w))"
  proof cases
    case 1
    then show ?thesis
      using notify_quiet [of k "MessageEvent m ch" CGraph w u ?d ?cs ys] g rest [OF first] by simp
  next
    case 2
    then show ?thesis
      using g first by (simp add: notify_from.simps bindp_def)
  next
    case 3
    have "m_type m = Hello"
      using g 3 notify_message_inv [of ?env "np_pair k" w m n ch out u] assms(4) world_okD(3) [OF assms(1)]
      by (auto simp: component_notify_def assms(2) Node_id_def echo_only_def)
    then have "tame ?env ?self w u"
      using graph_hello [OF _ g] by simp
    moreover have "advance ?env ?self (Some m) u (snd (notify_from k ?d ?cs (NeighborEvent i c) ?cs u))"
      using neighbor_event_advance [of k u "Suc n" "Some m" "Suc n" config i c] ok assms(2,6) world_okD(1)
        node_laws_tame [OF calculation] by blast
    ultimately have step: "advance ?env ?self (Some m) w (snd (notify_from k ?d ?cs (NeighborEvent i c) ?cs u))"
      by (rule tame_then_advance)
    obtain v where v: "notify_from k ?d ?cs (NeighborEvent i c) ?cs u = (Return (), v)"
      using neighbor_event_ok [of k u "Suc n" "Suc n" config i c] ok assms(2) by blast
    have "notify_from k (Suc ?d) ?cs (MessageEvent m ch) (CGraph # ys) w =
        notify_from k (Suc ?d) ?cs (MessageEvent m ch) ys v"
      using g 3 v by (simp add: notify_from.simps(3) [of k ?d ?cs _ CGraph] bindp_def)
    then show ?thesis
      using rest [of v] step v by simp
  qed
  then show ?thesis
    by (simp add: start)
qed

section \<open>The operations of the node\<close>

lemma advance_other_type: "m_type m \<noteq> StateType \<Longrightarrow> advance env self (Some m) w w' \<Longrightarrow> advance env self heard w w'"
  by (auto simp: advance_def State_FromMessage_def split: option.splits)

text \<open>An operation that announces nothing, and the delivery of the event it emits.\<close>

lemma bind_deliver_advance:
  assumes "world_ok (np_env k) (Node_id k) w" "np_stack k = Suc (Suc (Suc n))" "node_laws (np_env k) (np_pair k) w"
    and tame: "leads (tame (np_env k) (Node_id k)) f w" and keeps: "keeps (ok_step (np_env k) (Node_id k)) f w"
    and message: "\<And>m ch u. f w = (Return (Some (MessageEvent m ch)), u) \<Longrightarrow>
      (m_type m \<noteq> StateType \<or> heard = Some m) \<and> echo_only k m u \<and> (m_type m = Hello \<longrightarrow> room (np_env k) (Node_id k) u)
      \<and> discreet (np_env k) (Node_id k) u m"
  shows "advance (np_env k) (Node_id k) heard w (snd (bindp f (deliver_event k (Node_components config)) w))"
proof -
  obtain out u where f: "f w = (out, u)"
    by fastforce
  have u: "world_ok (np_env k) (Node_id k) u" "tame (np_env k) (Node_id k) w u" "node_laws (np_env k) (np_pair k) u"
    using assms(1,3) keeps tame node_laws_tame [of "np_env k" "Node_id k" w u] f
    by (auto simp: keeps_def ok_step_def leads_def)
  show ?thesis
  proof (cases "\<exists>e. out = Return (Some e)")
    case False
    then show ?thesis
      using f u(2) by (cases out) (auto simp: bindp_def deliver_event_def tame_advance)
  next
    case True
    then obtain e where e: "out = Return (Some e)"
      by blast
    have "advance (np_env k) (Node_id k) heard u (snd (Node_notify k (Node_components config) e u))"
    proof (cases e)
      case (MessageEvent m ch)
      note cond = message [OF f [unfolded e MessageEvent]]
      have "advance (np_env k) (Node_id k) (Some m) u (snd (Node_notify k (Node_components config) e u))"
        unfolding MessageEvent using cond u by (intro message_event_advance [OF _ assms(2)]) simp_all
      then show ?thesis
        using cond advance_other_type by blast
    next
      case (NeighborEvent i ch)
      show ?thesis
        using neighbor_event_advance [OF world_okD(1) [OF u(1)] u(3) assms(2), of heard "Suc (Suc n)" config i ch]
        by (simp add: NeighborEvent Node_notify_def assms(2))
    qed
    then show ?thesis
      using tame_then_advance [OF u(2)] by (simp add: bindp_def f e deliver_event_def)
  qed
qed

lemma report_advance:
  assumes "advance env self heard w (snd (f w))"
  shows "advance env self heard w (snd (catchp f rtc_report w))"
proof -
  obtain out u where f: "f w = (out, u)"
    by fastforce
  have "tame env self u (u\<lparr>rtc_cerr := c\<rparr>)" for c
    by (rule tameI) simp_all
  then have "advance env self heard w (u\<lparr>rtc_cerr := c\<rparr>)" for c
    using assms advance_tame by (fastforce simp: f)
  then show ?thesis
    using assms by (cases out) (simp_all add: catchp_def rtc_report_def f)
qed

text \<open>Data that arrives: only its message is heard, and only when it says nothing new about the node.\<close>

lemma onMessage_advance:
  assumes "world_ok (np_env k) (Node_id k) w" "np_stack k = Suc (Suc (Suc n))" "node_laws (np_env k) (np_pair k) w"
    and "room (np_env k) (Node_id k) w"
    and "\<And>m. message_of (np_env k) data = Inr m \<Longrightarrow> echo_only k m w \<and> discreet (np_env k) (Node_id k) w m"
  shows "advance (np_env k) (Node_id k)
    (case message_of (np_env k) data of Inl e \<Rightarrow> None | Inr m \<Rightarrow> Some m) w
    (snd (Routing_onMessage k (Node_components config) ch data w))"
proof (cases "message_of (np_env k) data")
  case (Inl e)
  have "tame (np_env k) (Node_id k) w (w\<lparr>rtc_cerr := c\<rparr>)" for c
    by (rule tameI) simp_all
  then show ?thesis
    by (simp add: Inl Routing_onMessage_def catchp_def rtc_report_def tame_advance split: handler.split)
next
  case (Inr m)
  let ?route = "routing_route (np_env k) (Node_id k) m (Some ch)"
  note m = assms(5) [OF Inr]
  have "keeps (ok_step (np_env k) (Node_id k)) ?route w"
    using routing_route_keeps [of "np_env k" "Node_id k" m "Some ch" w]
    by (simp add: keeps_def quiet_step send_frame_quiet)
  moreover have "leads (tame (np_env k) (Node_id k)) ?route w"
    using m by (intro route_tame) simp
  ultimately have "advance (np_env k) (Node_id k) (Some m) w
      (snd (bindp ?route (deliver_event k (Node_components config)) w))"
  proof (intro bind_deliver_advance [OF assms(1-3)])
    fix m' c u
    assume "?route w = (Return (Some (MessageEvent m' c)), u)"
    then show "(m_type m' \<noteq> StateType \<or> Some m = Some m') \<and> echo_only k m' u
        \<and> (m_type m' = Hello \<longrightarrow> room (np_env k) (Node_id k) u) \<and> discreet (np_env k) (Node_id k) u m'"
      using routing_route_emits m assms(4) by fastforce
  qed
  from report_advance [where f = "bindp ?route (deliver_event k (Node_components config))", OF this] show ?thesis
    by (simp add: Inr Routing_onMessage_def tame_advance split: handler.split)
qed

lemma opened_advance:
  assumes "world_ok (np_env k) (Node_id k) w" "np_stack k = Suc (Suc (Suc n))" "node_laws (np_env k) (np_pair k) w"
    and "room (np_env k) (Node_id k) w"
  shows "advance (np_env k) (Node_id k) heard w (snd (Node_channel_opened k (Node_components config) c w))"
proof -
  let ?f = "\<lambda>w. (Return (fst (channel_opened c w)), snd (channel_opened c w))"
  have eq: "Node_channel_opened k cs c w = bindp ?f (deliver_event k cs) w" for cs
    by (simp add: Node_channel_opened_def bindp_def split: prod.split)
  have opened: "world_ok (np_env k) (Node_id k) (snd (channel_opened c w))
      \<and> (\<forall>m ch. fst (channel_opened c w) \<noteq> Some (MessageEvent m ch))"
    using channel_opened_ok [OF assms(1,4)] by (metis prod.collapse)
  show ?thesis
    unfolding eq
    by (rule bind_deliver_advance [OF assms(1-3)])
      (use opened channel_tame(7) [of "np_env k" "Node_id k" w c] in \<open>auto simp: leads_def keeps_def ok_step_def\<close>)
qed

text \<open>Sending on a transport, which may deliver to the node itself.\<close>

lemma send_deliver_advance:
  assumes "world_ok (np_env k) (Node_id k) w" "np_stack k = Suc (Suc (Suc n))" "node_laws (np_env k) (np_pair k) w"
    and "leads (tame (np_env k) (Node_id k)) f w" "keeps quiet f w"
    and "\<And>m ch u. f w = (Return (Some (MessageEvent m ch)), u) \<Longrightarrow> m_type m \<in> {User, Signaling}"
  shows "advance (np_env k) (Node_id k) heard w (snd (bindp f (deliver_event k (Node_components config)) w))"
proof (rule bind_deliver_advance [OF assms(1-4) keeps_quiet_step [OF assms(5)]])
  fix m ch u
  assume "f w = (Return (Some (MessageEvent m ch)), u)"
  from assms(6) [OF this] have "m_type m \<noteq> StateType" "m_type m \<noteq> Hello"
    by (auto simp: message_types)
  then show "(m_type m \<noteq> StateType \<or> heard = Some m) \<and> echo_only k m u
      \<and> (m_type m = Hello \<longrightarrow> room (np_env k) (Node_id k) u) \<and> discreet (np_env k) (Node_id k) u m"
    by (simp add: not_state_echo other_type_discreet)
qed

lemma Node_send_advance:
  assumes "world_ok (np_env k) (Node_id k) w" "np_stack k = Suc (Suc (Suc n))" "node_laws (np_env k) (np_pair k) w"
  shows "advance (np_env k) (Node_id k) heard w (snd (Node_send k (Node_components config) i message w))"
proof (cases "Identifier_of (np_env k) i")
  case (Inl e)
  then show ?thesis
    by (simp add: Node_send_def tame_advance)
next
  case (Inr j)
  have "mType (w_user w) \<noteq> StateType"
    using world_okD(5) [OF assms(1)] by (simp add: transports_ok_def message_types)
  then have "advance (np_env k) (Node_id k) heard w (snd (bindp
      (with_user (Transport_send (np_env k) (np_pair k) j message)) (deliver_event k (Node_components config)) w))"
    by (intro send_deliver_advance [OF assms] with_tame with_user_keeps Transport_send_keeps Transport_send_tame
        user_send_type [OF world_okD(5) [OF assms(1)]])
  then show ?thesis
    by (simp add: Node_send_def Inr)
qed

lemma description_advance:
  assumes "world_ok (np_env k) (Node_id k) w" "np_stack k = Suc (Suc (Suc n))" "node_laws (np_env k) (np_pair k) w"
  shows "advance (np_env k) (Node_id k) heard w (snd (Node_localDescription k (Node_components config) i d w))"
    "advance (np_env k) (Node_id k) heard w (snd (Node_gatheringStateChange k (Node_components config) i complete w))"
proof -
  have "mType (w_signaling w) \<noteq> StateType"
    using world_okD(5) [OF assms(1)] by (simp add: transports_ok_def message_types)
  then have send: "advance (np_env k) (Node_id k) heard w (snd (bindp
      (Peering_sendLocalDescription (np_env k) (np_webrtc k) (np_pair k) p d) (deliver_event k (Node_components config)) w))"
    for p d
    by (intro send_deliver_advance [OF assms _ description_keeps]
        description_send_type [OF world_okD(5) [OF assms(1)]])
      (auto simp: Peering_sendLocalDescription_def intro: with_tame Transport_send_tame)
  show "advance (np_env k) (Node_id k) heard w (snd (Node_localDescription k (Node_components config) i d w))"
    "advance (np_env k) (Node_id k) heard w (snd (Node_gatheringStateChange k (Node_components config) i complete w))"
    using send
    by (auto simp: Node_localDescription_def Node_gatheringStateChange_def Peering_onLocalDescription_def
        Peering_onGatheringStateChange_def bindp_def deliver_event_def tame_advance split: option.split)
qed

lemma Node_connect_tame: "Node_connect k url w = Some (out, w') \<Longrightarrow> tame env self w w'"
proof -
  have "Networking_connectPeer i w = (out, w') \<Longrightarrow> tame env self w w'" for i
    using connectPeer_tame [of env self i w] by (simp add: leads_def)
  then show "Node_connect k url w = Some (out, w') \<Longrightarrow> tame env self w w'"
    using connectWebSocket_tame [of env self w url]
    by (auto simp: Node_connect_def split: if_splits option.splits sum.splits)
qed

lemma Node_broadcast_tame:
  assumes "transports_ok w"
  shows "tame (np_env k) self w (snd (Node_broadcast k message w))"
proof -
  have "mType (w_user w) \<noteq> StateType"
    using assms by (simp add: transports_ok_def message_types)
  from with_tame(1) [OF Transport_broadcast_tame [OF this]] show ?thesis
    by (simp add: leads_def Node_broadcast_def)
qed

end
