(* ===== verification/Delivery.thy ===== *)
theory Delivery
  imports Node
begin

text \<open>
  A user message from one node to another: \<open>Node::send\<close> in \<open>src/node.cpp\<close> at the sender, the
  bytes on the channel between them, and the handler of the channel at the receiver, through
  routing, the transports and the callback of the application.
\<close>

section \<open>The sender\<close>

lemma routing_send_direct:
  assumes "m_source m \<noteq> None" "m_destination m = Some d" "d \<noteq> self"
    and "message_binary env m = Inr data" "routing_findRoute d w = Some ch" "rtc_throws w ch data = None"
  shows "routing_send env self m w = (Return None, w\<lparr>rtc_sent := rtc_sent w @ [(ch, data)]\<rparr>)"
  using assms by (simp add: routing_send_def routing_route_def bindp_def send_message_def rtc_send_def)

lemma findRoute_cong:
  "mTable w' = mTable w \<Longrightarrow> mNeighbors w' = mNeighbors w \<Longrightarrow> routing_findRoute d w' = routing_findRoute d w"
  by (simp add: routing_findRoute_def cong: option.case_cong)

section \<open>The receiver\<close>

lemma user_message_received:
  assumes "transports_ok w" "callback_set w" "np_stack k = Suc d" "rtc_handler w ch = RouteHandler"
    and "message_of (np_env k) data = Inr m" "m_type m = User"
    and "routing_route (np_env k) (Node_id k) m (Some ch) w = (Return (Some (MessageEvent m (Some ch))), w)"
    and "Transport_notify (np_env k) (MessageEvent m (Some ch)) (w_user w, w) = (Return (Some (i, payload)), (t, w))"
  shows "Routing_onMessage k (Node_components config) ch data w =
    (Return (), w\<lparr>w_user := t, delivered := delivered w @ [(i, payload)]\<rparr>)"
proof -
  let ?w = "w\<lparr>w_user := t, delivered := delivered w @ [(i, payload)]\<rparr>"
  have "component_notify k (MessageEvent m (Some ch)) CUser w = (Return None, ?w)"
    using assms(2,8) by (simp add: component_notify_def with_user_def bindp_def Node_receive_def)
  from notify_quiet [OF this] have "Node_notify k (Node_components config) (MessageEvent m (Some ch)) w = (Return (), ?w)"
    by (simp add: notify_user_message [OF assms(1,6,3)] notify_from.simps)
  then show ?thesis
    using assms(4,5,7) by (simp add: Routing_onMessage_def catchp_def bindp_def deliver_event_def)
qed

lemma user_message_ignored:
  assumes "transports_ok w" "np_stack k = Suc d"
    and "message_of (np_env k) data = Inr m" "m_type m = User"
    and "routing_route (np_env k) (Node_id k) m (Some ch) w = (Return (Some (MessageEvent m (Some ch))), w)"
    and "Transport_notify (np_env k) (MessageEvent m (Some ch)) (w_user w, w) = (Return None, (w_user w, w))"
  shows "Routing_onMessage k (Node_components config) ch data w = (Return (), w)"
proof -
  have "component_notify k (MessageEvent m (Some ch)) CUser w = (Return None, w)"
    using assms(6) by (simp add: component_notify_def with_user_same bindp_def)
  from notify_quiet [OF this] have "Node_notify k (Node_components config) (MessageEvent m (Some ch)) w = (Return (), w)"
    by (simp add: notify_user_message [OF assms(1,4,2)] notify_from.simps)
  then show ?thesis
    using assms(3,5) by (simp add: Routing_onMessage_def catchp_def bindp_def deliver_event_def split: handler.split)
qed

lemma unicast_again:
  assumes "m_source m = Some i" "m_destination m \<noteq> None" "Transport_checkSequence i (m_sequence m) t = (False, t)"
  shows "Transport_notify env (MessageEvent m ch) (t, w) = (Return None, (t, w))"
  using assms by (simp add: Transport_notify_def Transport_incoming_def BroadcastableTransport_incoming_def
      Transport_incoming_unicast_def Let_def)

section \<open>End to end\<close>

lemma Node_send_eq:
  assumes "Identifier_of (np_env k) b = Inr i"
    and "Transport_send (np_env k) (np_pair k) i payload (w_user w, w) = (Return None, (t, w'))"
  shows "Node_send k cs b payload w = (Return (), w'\<lparr>w_user := t\<rparr>)"
  using assms by (simp add: Node_send_def with_user_def bindp_def deliver_event_def)

lemma Identifier_of_binary: "ecdsa_laws env \<Longrightarrow> ValidatePublic env i \<Longrightarrow> Identifier_of env (Identifier_binary env i) = Inr i"
  by (simp add: identifier_defs ecdsa_lawsD Let_def)

text \<open>A user message reaches its destination. When node A has a route to node B, knows B's
  announced ECDH key, and the channel takes data, \<open>send\<close> at A puts one message on that channel
  and advances its counter; when the bytes arrive at B on any of its channels, B's application
  gets A's identifier and the payload, exactly once: the same bytes arriving again on any channel
  change nothing. The payload is followed by at least 16 bytes that A never sent, since the
  decryption runs the encryption filter.\<close>

lemma user_message_end_to_end:
  assumes env: "np_env kA = env" "np_env kB = env" "ecdsa_laws env" "ecdh_laws env" "aead_laws env"
    and pairs: "pair_ok env (np_pair kA)" "pair_ok env (np_pair kB)" "Node_id kA \<noteq> Node_id kB"
    and keys: "mEcdh wA = Ecdh_new env sA" "mEcdh wB = Ecdh_new env sB"
    and known: "graph_get (Node_id kB) wA = Inr st" "st_ecdhPublic st = Ecdh_publicKey (mEcdh wB)"
    and route: "routing_findRoute (Node_id kB) wA = Some ch" "\<And>data. rtc_throws wA ch data = None"
    and ready: "transports_ok wA" "transports_ok wB" "callback_set wB" "np_stack kB = Suc d"
      "rtc_handler wB ch' = RouteHandler"
    and fresh: "Transport_checkSequence (Node_id kA) (mSendSequence (w_user wA)) (w_user wB) = (True, t)"
    and size: "length payload \<le> 65373"
  shows "\<exists>wA' data junk wB'.
    Node_send kA csA (Identifier_binary env (Node_id kB)) payload wA = (Return (), wA')
    \<and> rtc_sent wA' = rtc_sent wA @ [(ch, data)]
    \<and> mSendSequence (w_user wA') = mSendSequence (w_user wA) + 1
    \<and> Routing_onMessage kB (Node_components config) ch' data wB = (Return (), wB')
    \<and> delivered wB' = delivered wB @ [(Node_id kA, payload @ junk)] \<and> 16 \<le> length junk
    \<and> (\<forall>c. Routing_onMessage kB (Node_components config) c data wB' = (Return (), wB'))"
proof -
  let ?A = "np_pair kA" and ?B = "np_pair kB"
  have types: "mType (w_user wB) = mType (w_user wA)" "mType (w_user wA) = User"
    using ready(1,2) by (simp_all add: transports_ok_def)
  obtain m junk where m:
    "Transport_send env ?A (pair_public ?B) payload (w_user wA, wA) =
      (let (out, w') = routing_send env (pair_public ?A) m (wA\<lparr>entropy := entropy wA + 2\<rparr>)
       in (out, ((w_user wA)\<lparr>mSendSequence := mSendSequence (w_user wA) + 1\<rparr>, w')))"
    "sbind (message_binary env m) (message_of env) = Inr m"
    "m_source m = Some (pair_public ?A)" "m_destination m = Some (pair_public ?B)" "m_type m = mType (w_user wA)"
    "m_sequence m = mSendSequence (w_user wA)" "16 \<le> length junk"
    and got: "Transport_notify env (MessageEvent m (Some ch')) (w_user wB, wB) =
      (Return (Some (pair_public ?A, payload @ junk)), (t, wB))"
    using unicast_exchange [OF env(3-5) pairs(1,2) keys known [unfolded Node_id_def] size types(1)
        fresh [unfolded Node_id_def], of "Some ch'"] by blast
  obtain data where data: "message_binary env m = Inr data" "message_of env data = Inr m"
    using m(2) by (auto simp: sbind_Inr_iff)
  let ?wA = "wA\<lparr>entropy := entropy wA + 2, rtc_sent := rtc_sent wA @ [(ch, data)]\<rparr>"
  have "routing_send env (pair_public ?A) m (wA\<lparr>entropy := entropy wA + 2\<rparr>) = (Return None, ?wA)"
    using routing_send_direct [of m "pair_public ?B" "pair_public ?A" env data "wA\<lparr>entropy := entropy wA + 2\<rparr>" ch]
      m(3,4) pairs(3) data(1) route findRoute_cong [of "wA\<lparr>entropy := entropy wA + 2\<rparr>" wA "pair_public ?B"]
    by (simp add: Node_id_def)
  moreover have "ValidatePublic env (pair_public ?B)"
    using pairs(2) unfolding pair_ok_def by blast
  note id = Identifier_of_binary [OF env(3) this]
  ultimately have sent: "Node_send kA csA (Identifier_binary env (Node_id kB)) payload wA =
      (Return (), ?wA\<lparr>w_user := (w_user wA)\<lparr>mSendSequence := mSendSequence (w_user wA) + 1\<rparr>\<rparr>)"
    using m(1) id env(1) by (intro Node_send_eq [where i = "pair_public ?B"]) (simp_all add: Node_id_def)
  let ?wB = "wB\<lparr>w_user := t, delivered := delivered wB @ [(Node_id kA, payload @ junk)]\<rparr>"
  have kind: "m_type m = User"
    using m(5) types(2) by (rule trans)
  have local: "routing_route env (Node_id kB) m c w = (Return (Some (MessageEvent m c)), w)" for c w
    using m(3,4) by (intro routing_route_local) (simp_all add: Node_id_def)
  have first: "Routing_onMessage kB (Node_components config) ch' data wB = (Return (), ?wB)"
  proof (rule user_message_received [OF ready(2-4) ready(5), of _ m])
    show "Transport_notify (np_env kB) (MessageEvent m (Some ch')) (w_user wB, wB) =
        (Return (Some (Node_id kA, payload @ junk)), (t, wB))"
      using got by (simp add: env(2) Node_id_def)
  qed (simp_all add: env(2) data(2) kind local)
  have t: "t_broadcastable t = t_broadcastable (w_user wB)" "mType t = mType (w_user wB)"
    using fresh by (auto simp: Transport_checkSequence_def split: option.splits if_splits)
  have again: "Transport_checkSequence (pair_public ?A) (m_sequence m) t = (False, t)"
    using checkSequence_again [of "pair_public ?A" "m_sequence m" "w_user wB"] fresh m(6) by (simp add: Node_id_def)
  have "Routing_onMessage kB (Node_components config) c data ?wB = (Return (), ?wB)" for c
  proof (rule user_message_ignored [OF _ ready(4)])
    show "transports_ok ?wB"
      using ready(2) t by (simp add: transports_ok_def)
    show "Transport_notify (np_env kB) (MessageEvent m (Some c)) (w_user ?wB, ?wB) = (Return None, (w_user ?wB, ?wB))"
      using unicast_again [OF m(3) _ again] m(4) by simp
  qed (simp_all add: env(2) data(2) kind local)
  with sent first show ?thesis
    using m(7) by (intro exI [of _ "?wA\<lparr>w_user := (w_user wA)\<lparr>mSendSequence := mSendSequence (w_user wA) + 1\<rparr>\<rparr>"]
        exI [of _ data] exI [of _ junk] exI [of _ ?wB]) simp
qed

end
