(* ===== verification/Network.thy ===== *)
theory Network
  imports Node_Runs Traffic Delivery
begin

text \<open>
  A network of nodes that run the program, connected by channels nobody controls: whatever bytes
  may arrive at any node at any time, from nodes of the network, from others, replayed, reordered
  or made up. The one thing the network cannot do is forge an ECDSA signature: bytes that name a
  node and verify under its key are signed over bytes that node has put on a channel.
\<close>

section \<open>Steps of a node\<close>

lemma action_advance:
  assumes "node_action k config w out w'" "world_ok (np_env k) (Node_id k) w" "np_stack k = Suc (Suc (Suc n))"
    and "node_laws (np_env k) (np_pair k) w"
  shows "advance (np_env k) (Node_id k) heard w w'"
  using assms(1)
proof cases
  case (Opened c)
  then show ?thesis
    using opened_advance [OF assms(2-4), of heard config c] by simp
next
  case (LocalDescription i d)
  then show ?thesis
    using description_advance(1) [OF assms(2-4), of heard config i d] by simp
next
  case (Gathering i complete)
  then show ?thesis
    using description_advance(2) [OF assms(2-4), of heard config i complete] by simp
next
  case (Connect url)
  then show ?thesis
    using Node_connect_tame tame_advance by blast
next
  case (Send i message)
  then show ?thesis
    using Node_send_advance [OF assms(2-4), of heard config i message] by simp
next
  case (Broadcast message)
  then show ?thesis
    using Node_broadcast_tame [OF world_okD(5) [OF assms(2)], of k "Node_id k" message] by (simp add: tame_advance)
next
  case (Update shuffle)
  then show ?thesis
    using update_components_tame [OF refl, of k "Node_id k" w shuffle "Node_components config"]
    by (simp add: tame_advance)
next
  case Network
  have "tame (np_env k) (Node_id k) w w'"
    by (rule tameI) (simp_all add: Network)
  then show ?thesis
    by (rule tame_advance)
qed (simp_all add: channel_tame tame_advance)

section \<open>What parsing depends on\<close>

text \<open>What is written from a message that was accepted is, when accepted, that message.\<close>

lemma relay_parse:
  assumes "ecdsa_laws env" "canonical_points env" "message_of env data = Inr m"
    and "message_binary env m = Inr data'" "message_of env data' = Inr m'"
  shows "m' = m"
proof -
  have "message_ok env m"
    by (rule message_of_inv [OF assms(2,3)])
  then show ?thesis
    using message_of_signed_part [OF assms(1), of m "m_signature m"] assms(4,5)
    by (auto simp: message_binary_layout split: if_splits)
qed

lemma State_FromMessage_signature:
  "State_FromMessage env (Some (m\<lparr>m_signature := x\<rparr>)) = State_FromMessage env (Some m)"
  by (cases "m_source m") (simp_all add: State_FromMessage_def)

section \<open>The network\<close>

text \<open>
  \<open>H\<close> is the set of nodes that run the program, each with a key pair of its own whose public half
  is its identifier; \<open>k\<close> and \<open>cf\<close> are their parameters and configurations, \<open>W\<close> their states.
\<close>

definition network_ok :: "('p::linorder, 'k) env \<Rightarrow> 'p set \<Rightarrow> ('p \<Rightarrow> ('p, 'k, 'd) node_params) \<Rightarrow> bool" where
  "network_ok env H k \<longleftrightarrow> ecdsa_laws env \<and> ecdh_laws env \<and> canonical_points env
     \<and> (\<forall>i \<in> H. np_env (k i) = env \<and> Node_id (k i) = i \<and> pair_ok env (np_pair (k i)) \<and> 3 \<le> np_stack (k i))"

text \<open>
  ECDSA signatures cannot be forged: this is the one assumption on what arrives, and it speaks of
  bytes and of \<open>EcdsaPublic_verify\<close>, not of the program's parser or of what it accepts.
  Bytes in the wire format name a signer, the key at offset 8 when the first flag is set,
  and what a signer signs is everything up to the end of the body. When the bytes name a node of
  the network and what follows the body verifies, under that node's key, over what comes
  before, then the node has put those very bytes on a channel with a signature that verifies.
  Of any other bytes nothing is assumed.
\<close>

definition named_signer :: "('p, 'k) env \<Rightarrow> binary \<Rightarrow> 'p option" where
  "named_signer env data =
     (if 41 \<le> length data \<and> bit (data ! 1) 0 then Some (DecodePoint env (take 33 (drop 8 data))) else None)"

definition signed_size :: "binary \<Rightarrow> nat" where
  "signed_size data =
     8 + (if bit (data ! 1) 0 then 33 else 0) + (if bit (data ! 1) 1 then 33 else 0) + unat (asm16 (take 2 (drop 2 data)))"

definition unforged :: "('p::linorder, 'k) env \<Rightarrow> 'p set \<Rightarrow> ('p \<Rightarrow> ('p, 'd) world) \<Rightarrow> binary \<Rightarrow> bool" where
  "unforged env H W data \<longleftrightarrow>
     (\<forall>i \<in> H. let signed = take (signed_size data) data; sig = drop (signed_size data) data in
        named_signer env data = Some i \<longrightarrow> EcdsaPublic_verify env i signed sig \<longrightarrow>
        (\<exists>sig'. EcdsaPublic_verify env i signed sig' \<and> signed @ sig' \<in> log_of (W i)))"

text \<open>The bytes of an accepted message name its source and are signed up to its signature.\<close>

lemma accepted_signer:
  assumes "ecdsa_laws env" "canonical_points env" "message_of env data = Inr m" "m_source m = Some i"
  shows "named_signer env data = Some i" "signed_size data = length data - length (m_signature m)"
    "drop (signed_size data) data = m_signature m" "EcdsaPublic_verify env i (take (signed_size data) data) (m_signature m)"
    "EcdsaPublic_verify env i (take (signed_size data) data) sig \<Longrightarrow>
       message_of env (take (signed_size data) data @ sig) = Inr (m\<lparr>m_signature := sig\<rparr>)"
proof -
  let ?dst = "opt_bytes env (m_destination m)"
  obtain t f l k where
    bin: "data = [t, f] @ l @ k @ opt_bytes env (m_source m) @ ?dst @ m_body m @ m_signature m"
    and m: "length l = 2" "length k = 4" "m_type m = t" "m_sequence m = asm32 k" "flags_of m = and f 3"
      "length (m_body m) = unat (asm16 l)" "message_ok env m"
      "\<And>p. m_source m = Some p \<Longrightarrow>
         EcdsaPublic_verify env p (take (length data - length (m_signature m)) data) (m_signature m)"
    by (rule message_of_inv [OF assms(2,3)]) blast
  have i: "ValidatePublic env i" and d: "\<forall>p. m_destination m = Some p \<longrightarrow> ValidatePublic env p"
    using m(7) assms(4) by (simp_all add: message_ok_def)
  have src: "opt_bytes env (m_source m) = EncodePoint env i" "length (EncodePoint env i) = 33" "DecodePoint env (EncodePoint env i) = i"
    using i assms(1,4) by (simp_all add: opt_bytes_def identifier_defs ecdsa_lawsD)
  have dst: "length ?dst = (if m_destination m = None then 0 else 33)"
    using d assms(1) by (auto simp: opt_bytes_def identifier_defs ecdsa_lawsD split: option.splits)
  have bits: "bit f n \<longleftrightarrow> bit (flags_of m) n" if "n < 2" for n
  proof -
    have "bit (3 :: byte) n"
      using that by (cases n) (auto simp: bit_Suc bit_0 less_Suc_eq)
    then show ?thesis
      by (simp add: m(5) bit_and_iff)
  qed
  have f: "bit f 0" "bit f 1 \<longleftrightarrow> m_destination m \<noteq> None"
    using bits [of 0] bits [of 1] assms(4) by (auto simp: flags_of_def bit_Suc bit_0)
  let ?part = "[t, f] @ l @ k @ opt_bytes env (m_source m) @ ?dst @ m_body m"
  show size: "signed_size data = length data - length (m_signature m)"
    using m(1,2,6) f src dst by (simp add: signed_size_def bin)
  have part: "take (signed_size data) data = ?part"
    unfolding size by (simp add: bin)
  show "drop (signed_size data) data = m_signature m"
    unfolding size by (simp add: bin)
  show "named_signer env data = Some i"
    using m(1,2) f src by (simp add: named_signer_def bin)
  show "EcdsaPublic_verify env i (take (signed_size data) data) (m_signature m)"
    unfolding size by (rule m(8) [OF assms(4)])
  show "message_of env (take (signed_size data) data @ sig) = Inr (m\<lparr>m_signature := sig\<rparr>)"
    if "EcdsaPublic_verify env i (take (signed_size data) data) sig"
  proof -
    let ?m = "m\<lparr>m_signature := sig\<rparr>"
    have "message_of env (?part @ sig) = message_check env (?part @ sig) ?m"
      by (rule message_of_layout [of env ?m l k f, OF assms(1) _ m(1,2)])
        (use m(3-7) in \<open>simp_all add: message_ok_def flags_of_def\<close>)
    moreover have "EcdsaPublic_verify env i (take (length (?part @ sig) - length sig) (?part @ sig)) sig"
      using that unfolding part by simp
    ultimately show ?thesis
      unfolding part using assms(4) by (simp add: message_check_def)
  qed
qed

text \<open>Bytes that are on a channel of their source are not forged.\<close>

lemma log_unforged:
  assumes "ecdsa_laws env" "canonical_points env"
    and "data \<in> log_of (W i)" "message_of env data = Inr m" "m_source m = Some i"
  shows "unforged env H W data"
proof -
  note m = accepted_signer(1,3,4) [OF assms(1,2,4,5)]
  have "take (signed_size data) data @ m_signature m = data"
    using m(2) by (metis append_take_drop_id)
  then show ?thesis
    using m assms(3) by (auto simp: unforged_def Let_def intro!: exI [of _ "m_signature m"])
qed

text \<open>The node as its constructor leaves it.\<close>

definition node_started :: "('p::linorder, 'k, 'd) node_params \<Rightarrow> Configuration \<Rightarrow> ('p, 'd) world \<Rightarrow> bool" where
  "node_started k config w \<longleftrightarrow>
     (\<exists>p indeterminate q q' net (nd :: ('p, 'k, 'd, unit) node).
        Node_new (np_stack k) (np_env k) p indeterminate q q' net config = Return nd
        \<and> nd_pair nd = np_pair k \<and> nd_world nd = w)"

text \<open>
  The runs of the network. A node acts, or data arrives at one of its channels. A node stops
  taking part when it has announced itself 2147483647 times, half the range of the numbers.
\<close>

inductive network ::
    "('p::linorder, 'k) env \<Rightarrow> 'p set \<Rightarrow> ('p \<Rightarrow> ('p, 'k, 'd) node_params) \<Rightarrow> ('p \<Rightarrow> Configuration)
     \<Rightarrow> ('p \<Rightarrow> ('p, 'd) world) \<Rightarrow> bool"
  for env H k cf where
  Start: "(\<And>i. i \<in> H \<Longrightarrow> node_started (k i) (cf i) (W i)) \<Longrightarrow> network env H k cf W"
| Act:
    "network env H k cf W \<Longrightarrow> i \<in> H \<Longrightarrow> unat (mStateSequence (W i)) < seq_window \<Longrightarrow>
     node_action (k i) (cf i) (W i) out w' \<Longrightarrow> network env H k cf (W(i := w'))"
| Deliver:
    "network env H k cf W \<Longrightarrow> i \<in> H \<Longrightarrow> unat (mStateSequence (W i)) < seq_window \<Longrightarrow>
     room env i (W i) \<Longrightarrow> unforged env H W data \<Longrightarrow>
     Routing_onMessage (k i) (Node_components (cf i)) c data (W i) = (out, w') \<Longrightarrow> network env H k cf (W(i := w'))"

text \<open>A node has said of itself that its state is \<open>s\<close>.\<close>

definition said :: "('p::linorder, 'k) env \<Rightarrow> ('p, 'd) world \<Rightarrow> 'p state \<Rightarrow> bool" where
  "said env w s \<longleftrightarrow>
     (\<exists>data \<in> log_of w. \<exists>m. message_of env data = Inr m \<and> State_FromMessage env (Some m) = Inr s)"

section \<open>The invariant\<close>

text \<open>What each node keeps on its own, and what it believes of the others.\<close>

definition member_ok ::
    "('p::linorder, 'k, 'd) node_params \<Rightarrow> Configuration \<Rightarrow> 'p \<Rightarrow> ('p, 'd) world \<Rightarrow> bool" where
  "member_ok k config i w \<longleftrightarrow> node_reach k config w \<and> log_ok (np_env k) i w
     \<and> (\<exists>seed. mEcdh w = Ecdh_new (np_env k) seed)"

definition network_inv ::
    "('p::linorder, 'k) env \<Rightarrow> 'p set \<Rightarrow> ('p \<Rightarrow> ('p, 'k, 'd) node_params) \<Rightarrow> ('p \<Rightarrow> Configuration)
     \<Rightarrow> ('p \<Rightarrow> ('p, 'd) world) \<Rightarrow> bool" where
  "network_inv env H k cf W \<longleftrightarrow>
     (\<forall>i \<in> H. member_ok (k i) (cf i) i (W i)
        \<and> (\<forall>j \<in> H. \<forall>s. j \<noteq> i \<longrightarrow> graph_state (W i) j = Some s \<longrightarrow> state_id s = j \<and> said env (W j) s))"

lemma network_okD:
  assumes "network_ok env H k" "i \<in> H"
  shows "ecdsa_laws env" "ecdh_laws env" "canonical_points env" "np_env (k i) = env" "Node_id (k i) = i"
    "pair_ok env (np_pair (k i))" "\<exists>n. np_stack (k i) = Suc (Suc (Suc n))"
proof -
  show "\<exists>n. np_stack (k i) = Suc (Suc (Suc n))"
    using assms by (intro exI [of _ "np_stack (k i) - 3"]) (auto simp: network_ok_def)
qed (use assms in \<open>simp_all add: network_ok_def\<close>)

lemma said_mono: "said env w s \<Longrightarrow> log_of w \<subseteq> log_of w' \<Longrightarrow> said env w' s"
  by (auto simp: said_def)

text \<open>A state heard from a node of the network is one it has said.\<close>

lemma heard_said:
  assumes "network_ok env H k" "unforged env H W data" "message_of env data = Inr m"
    and "State_FromMessage env (Some m) = Inr s" "state_id s \<in> H"
  shows "said env (W (state_id s)) s"
proof -
  note laws = network_okD [OF assms(1,5)]
  note source = FromMessage_wf(1) [OF assms(4)]
  note m = accepted_signer(1,3,4) [OF laws(1,3) assms(3) source]
    and signed = accepted_signer(5) [OF laws(1,3) assms(3) source]
  obtain sig where "EcdsaPublic_verify env (state_id s) (take (signed_size data) data) sig"
      "take (signed_size data) data @ sig \<in> log_of (W (state_id s))"
    using assms(2,5) m by (auto simp: unforged_def Let_def)
  with signed [of sig] show ?thesis
    using assms(4) State_FromMessage_signature [of env sig m] by (auto simp: said_def)
qed

text \<open>What a node has said of itself is an echo when it comes back.\<close>

lemma said_past:
  assumes "log_ok env self w" "said env w s" "state_id s = self"
  shows "own_past w s"
  using assms by (auto simp: said_def log_ok_def harmless_def)

lemma past_echo:
  assumes "graph_ready env self w" "own_past w s" "state_id s = self" "unat (mStateSequence w) < seq_window"
  shows "own_echo self s w"
proof -
  obtain st where st: "graph_state w self = Some st" "st_sequence st = mStateSequence w - 1"
    using assms(1) by (auto simp: graph_ready_def local_ok_def)
  have lt: "st_sequence s < mStateSequence w"
    using assms(2) by (simp add: own_past_def)
  let ?q = "mStateSequence w"
  have "unat (st_sequence s) < unat ?q"
    using lt by (simp add: word_less_nat_alt)
  moreover from this have "?q \<noteq> 0"
    by auto
  ultimately have q: "unat (?q - 1) = unat ?q - 1" "unat (st_sequence s) < unat ?q"
    by (simp_all add: unat_minus_one)
  then have "\<not> compare_sequence (st_sequence s) (?q - 1) > 0"
    using compare_sequence_steps [of "unat (?q - 1)" "unat (st_sequence s)" 0] assms(4) by simp
  then show ?thesis
    using st assms(3) by (auto simp: own_echo_def newer_def)
qed

lemma started_member:
  assumes "node_started k config w" "ecdh_laws (np_env k)" "np_stack k = Suc (Suc (Suc n))"
  shows "member_ok k config i w" "mNeighbors w = []" "mChannels w = []" "mStateSequence w = 1"
    "graph_state w j \<noteq> None \<longleftrightarrow> j = Node_id k"
proof -
  obtain p indeterminate q q' net and nd :: "('a, 'b, 'c, unit) node" where nd:
      "Node_new (Suc (Suc (Suc n))) (np_env k) p indeterminate q q' net config = Return nd"
      "nd_pair nd = np_pair k" "nd_world nd = w"
    using assms(1,3) by (auto simp: node_started_def)
  have "node_reach k config w"
    using node_reach.Start [of k p indeterminate q q' net config nd] nd assms(3) by simp
  moreover note new = Node_new_silent [OF assms(2) nd(1), unfolded nd(2,3)]
  then have "log_ok (np_env k) i w"
    by (simp add: log_ok_def log_of_def)
  ultimately show "member_ok k config i w"
    using new(2) by (auto simp: member_ok_def)
  show "mNeighbors w = []" "mChannels w = []" "mStateSequence w = 1" "graph_state w j \<noteq> None \<longleftrightarrow> j = Node_id k"
    using new by (simp_all add: Node_id_def)
qed

lemma member_laws:
  assumes "network_ok env H k" "i \<in> H" "member_ok (k i) (cf i) i w" "unat (mStateSequence w) < seq_window"
  shows "world_ok env i w" "node_laws env (np_pair (k i)) w"
proof -
  note laws = network_okD [OF assms(1,2)]
  obtain n where "np_stack (k i) = Suc (Suc (Suc n))"
    using laws(7) by blast
  then show "world_ok env i w"
    using node_reach_ok [of "k i" "cf i" w n] assms(3) laws(2,4,5) by (simp add: member_ok_def)
  have "mStateSequence w < mStateSequence w + 1"
    using assms(4) by (simp add: seq_window_def word_less_nat_alt unat_word_ariths)
  moreover have "length (dh_public (mEcdh w)) = 65"
    using assms(3) laws(2,4) by (auto simp: member_ok_def ecdh_laws_def)
  ultimately show "node_laws env (np_pair (k i)) w"
    using laws(1,6) by (simp add: node_laws_def)
qed

text \<open>One step of a member keeps the invariant of the whole network.\<close>

lemma step_inv:
  assumes net: "network_ok env H k" "network_inv env H k cf W" "i \<in> H"
    and reach: "node_reach (k i) (cf i) w'" and step: "advance env i heard (W i) w'"
    and heard: "\<And>s. State_FromMessage env heard = Inr s \<Longrightarrow> state_id s \<in> H \<Longrightarrow> said env (W (state_id s)) s"
  shows "network_inv env H k cf (W(i := w'))"
proof -
  note laws = network_okD [OF net(1,3)]
  have member: "member_ok (k i) (cf i) i (W i)"
    using net(2,3) by (simp add: network_inv_def)
  have "log_ok env i w'"
    using advance_log [OF step] member laws(4) by (simp add: member_ok_def)
  then have "member_ok (k i) (cf i) i w'"
    using reach member step laws(4) by (auto simp: member_ok_def advance_def)
  then have members: "member_ok (k x) (cf x) x ((W(i := w')) x)" if "x \<in> H" for x
    using net(2) that by (simp add: network_inv_def)
  have said: "said env (W j) s \<Longrightarrow> said env ((W(i := w')) j) s" for j s
    using step said_mono by (auto simp: advance_def)
  have old: "state_id s = j \<and> said env (W j) s" if "x \<in> H" "j \<in> H" "j \<noteq> x" "graph_state (W x) j = Some s" for x j s
    using net(2) that by (simp add: network_inv_def)
  have new: "state_id s = j \<and> said env (W j) s" if "j \<in> H" "j \<noteq> i" "graph_state w' j = Some s" for j s
  proof -
    have "graph_state (W i) j = Some s \<or> State_FromMessage env heard = Inr s \<and> state_id s = j"
      using step that(2,3) by (auto simp: advance_def)
    then show ?thesis
      using old [OF net(3) that(1,2)] heard [of s] that(1) by blast
  qed
  have "state_id s = j \<and> said env ((W(i := w')) j) s"
    if "x \<in> H" "j \<in> H" "j \<noteq> x" "graph_state ((W(i := w')) x) j = Some s" for x j s
    using new [OF that(2), of s] old [OF that(1-3), of s] said [of j s] that(3,4) by (cases "x = i") auto
  with members show ?thesis
    by (simp add: network_inv_def)
qed

lemma network_invariant:
  assumes "network env H k cf W" "network_ok env H k"
  shows "network_inv env H k cf W"
  using assms(1)
proof (induction rule: network.induct)
  case (Start W)
  have "member_ok (k i) (cf i) i (W i)" "j \<noteq> i \<Longrightarrow> graph_state (W i) j = None" if "i \<in> H" for i j
  proof -
    note laws = network_okD [OF assms(2) that]
    obtain n where n: "np_stack (k i) = Suc (Suc (Suc n))"
      using laws(7) by blast
    note new = started_member [OF Start [OF that] _ n]
    show "member_ok (k i) (cf i) i (W i)" "j \<noteq> i \<Longrightarrow> graph_state (W i) j = None"
      using new(1) new(5) [of j] laws(2,4,5) by simp_all
  qed
  then show ?case
    by (auto simp: network_inv_def)
next
  case (Act W i out w')
  note laws = network_okD [OF assms(2) Act.hyps(2)]
  have member: "member_ok (k i) (cf i) i (W i)"
    using Act.IH Act.hyps(2) by (simp add: network_inv_def)
  have ok: "world_ok env i (W i)" "node_laws env (np_pair (k i)) (W i)"
    using member_laws [where w = "W i", OF assms(2) Act.hyps(2)] member Act.hyps(3) by blast+
  obtain n where n: "np_stack (k i) = Suc (Suc (Suc n))"
    using laws(7) by blast
  have "advance env i None (W i) w'"
    using action_advance [OF Act.hyps(4) _ n] ok laws(4,5) by simp
  moreover have "node_reach (k i) (cf i) w'"
    using member node_reach.Step node_step.Action [OF Act.hyps(4)] by (auto simp: member_ok_def)
  ultimately show ?case
    using Act.IH Act.hyps(2) by (intro step_inv [OF assms(2), where heard = None]) (simp_all add: State_FromMessage_def)
next
  case (Deliver W i data c out w')
  note laws = network_okD [OF assms(2) Deliver.hyps(2)]
  have member: "member_ok (k i) (cf i) i (W i)"
    using Deliver.IH Deliver.hyps(2) by (simp add: network_inv_def)
  have ok: "world_ok env i (W i)" "node_laws env (np_pair (k i)) (W i)"
    using member_laws [where w = "W i", OF assms(2) Deliver.hyps(2)] member Deliver.hyps(3) by blast+
  obtain n where n: "np_stack (k i) = Suc (Suc (Suc n))"
    using laws(7) by blast
  have past: "own_past (W i) s"
    if "message_of env data = Inr m" "State_FromMessage env (Some m) = Inr s" "state_id s = i" for m s
    using said_past [of env i "W i" s] heard_said [OF assms(2) Deliver.hyps(5) that(1,2)] that(3) member
      Deliver.hyps(2) laws(4) by (simp add: member_ok_def)
  have echo: "echo_only (k i) m (W i)" if "message_of env data = Inr m" for m
    using past [OF that] past_echo [OF world_okD(1) [OF ok(1)] _ _ Deliver.hyps(3)]
    by (auto simp: echo_only_def laws(4,5))
  have discreet: "discreet env i (W i) m" if "message_of env data = Inr m" for m
    using past [OF that] relay_parse [OF laws(1,3) that] by (fastforce simp: discreet_def harmless_def)
  let ?heard = "case message_of env data of Inl e \<Rightarrow> None | Inr m \<Rightarrow> Some m"
  have "advance env i ?heard (W i) w'"
    using onMessage_advance [of "k i" "W i" n data "cf i" c] ok n echo discreet Deliver.hyps(4,6) laws(4,5) by simp
  moreover have "node_step (k i) (cf i) (W i) out w'"
    by (rule node_step.Data [OF _ _ Deliver.hyps(6)]) (use echo Deliver.hyps(4) laws(4,5) in simp_all)
  then have "node_reach (k i) (cf i) w'"
    using member node_reach.Step [of "k i" "cf i" "W i" out w'] by (simp add: member_ok_def)
  moreover have "said env (W (state_id s)) s" if "State_FromMessage env ?heard = Inr s" "state_id s \<in> H" for s
    using that heard_said [OF assms(2) Deliver.hyps(5)] by (auto simp: State_FromMessage_def split: sum.splits)
  ultimately show ?case
    using Deliver.IH Deliver.hyps(2) by (intro step_inv [OF assms(2), where heard = ?heard]) simp_all
qed

section \<open>What the nodes believe of each other\<close>

text \<open>A node's current entry for another: its current key, under a number it has used.\<close>

lemma member_view:
  assumes "network_inv env H k cf W" "network_ok env H k" "i \<in> H" "j \<in> H" "graph_state (W j) i = Some s" "i \<noteq> j"
  shows "said env (W i) s" "own_past (W i) s" "state_id s = i"
proof -
  note laws = network_okD [OF assms(2,3)]
  have inv: "member_ok (k i) (cf i) i (W i)" "said env (W i) s" "state_id s = i"
    using assms(1,3-6) by (auto simp: network_inv_def)
  show "said env (W i) s" "state_id s = i"
    by (rule inv)+
  show "own_past (W i) s"
    using said_past [OF _ inv(2,3)] inv(1) laws(4) by (simp add: member_ok_def)
qed

end
