(* ===== verification/Network_Demo.thy ===== *)
theory Network_Demo
  imports Network
begin

text \<open>
  A concrete network: two nodes, 7 and 8, that accept a connection from each other, say hello,
  become neighbours and announce it. Used where the theorems on networks are applied.
\<close>

section \<open>Two nodes\<close>

definition demo_member :: "nat \<Rightarrow> (nat, nat, string \<times> string) node_params" where
  "demo_member x = demo_params\<lparr>np_pair := \<lparr>pair_private = x, pair_public = x\<rparr>\<rparr>"

abbreviation demo_network :: "(nat \<Rightarrow> (nat, string \<times> string) world) \<Rightarrow> bool" where
  "demo_network W \<equiv> network demo_env {7, 8} demo_member (\<lambda>_. Configuration_default) W"

lemma demo_member_fields [simp]:
  "np_env (demo_member x) = demo_env" "np_stack (demo_member x) = 3" "Node_id (demo_member x) = x"
  "np_pair (demo_member x) = \<lparr>pair_private = x, pair_public = x\<rparr>"
  by (simp_all add: demo_member_def Node_id_def)

lemma demo_member_pair: "x < 256 \<Longrightarrow> pair_ok demo_env \<lparr>pair_private = x, pair_public = x\<rparr>"
  by (simp add: pair_ok_def) (simp add: demo_env_def)

lemma demo_network_ok: "network_ok demo_env {7, 8} demo_member"
  using demo_ecdsa_laws demo_ecdh_laws demo_canonical demo_member_pair by (simp add: network_ok_def)

text \<open>No peerings yet, and connections that can be made, gather at once and take every description.\<close>

definition unpaired :: "(nat, string \<times> string) world \<Rightarrow> bool" where
  "unpaired w \<longleftrightarrow> mPeerings w = [] \<and> w_signaling w = Transport_new False Signaling 0
     \<and> pc_gathered w = (\<lambda>_. True) \<and> pc_refuses w = (\<lambda>_ _. None)
     \<and> pc_fails w = None \<and> dc_refuses w = (\<lambda>_. None) \<and> rng_fails w = None"

lemma unpaired_more: "graph.more w' = graph.more w \<Longrightarrow> unpaired w' = unpaired w"
  using more_world [of w' w] by (simp add: unpaired_def)

text \<open>A node with one open channel and nobody on it yet.\<close>

definition joined :: "nat \<Rightarrow> channel \<Rightarrow> (nat, string \<times> string) world \<Rightarrow> bool" where
  "joined x c w \<longleftrightarrow> mChannels w = [c] \<and> mNeighbors w = [] \<and> mEcdh w = Ecdh_new demo_env (x + 1)
     \<and> mStateSequence w = 1 \<and> (\<forall>i. graph_state w i \<noteq> None \<longleftrightarrow> i = x) \<and> graph_links w x = {}
     \<and> rtc_open w = (\<lambda>_. True) \<and> rtc_throws w = (\<lambda>_ _. None) \<and> callback_set w
     \<and> w_user w = Transport_new True User 0 \<and> unpaired w"

lemma graph_views_cong:
  "g_heap w' = g_heap w \<Longrightarrow> mVertices w' = mVertices w \<Longrightarrow> graph_state w' i = graph_state w i"
  "g_heap w' = g_heap w \<Longrightarrow> mVertices w' = mVertices w \<Longrightarrow> graph_links w' i = graph_links w i"
  by (simp_all add: graph_state_def graph_links_def graph_findVertice_def cong: option.case_cong)

lemma demo_room:
  assumes "mNeighbors w = [] \<or> (\<exists>y ch. mNeighbors w = [(y, ch)])" "mEcdh w = Ecdh_new demo_env s"
  shows "room demo_env x w"
  using assms
  by (auto simp: room_def announceable_neighbors routing_neighbors_def um_emplace_def um_keys_def oset_of_def
      oset_insert_def insort_insert_key_def demo_lengths simp del: Ecdh_new_sel split: option.split)

lemma demo_join:
  assumes "demo_network W" "x \<in> {7, 8}" "mChannels (W x) = []" "mNeighbors (W x) = []" "mEcdh (W x) = Ecdh_new demo_env (x + 1)"
    "mStateSequence (W x) = 1" "\<And>i. graph_state (W x) i \<noteq> None \<longleftrightarrow> i = x" "graph_links (W x) x = {}"
    "w_user (W x) = Transport_new True User 0" "mPeerings (W x) = []" "w_signaling (W x) = Transport_new False Signaling 0"
  shows "\<exists>w c. demo_network (W(x := w)) \<and> joined x c w"
proof -
  let ?a = "(W x)\<lparr>rtc_open := (\<lambda>_. True), rtc_throws := (\<lambda>_ _. None), pc_state := pc_state (W x),
    pc_gathered := (\<lambda>_. True), pc_local := pc_local (W x), pc_refuses := (\<lambda>_ _. None), ws_refuses := ws_refuses (W x),
    pc_fails := None, dc_refuses := (\<lambda>_. None), rng_fails := None\<rparr>"
  let ?b = "Node_onMessage True ?a" and ?c = "rtc_next (W x)"
  let ?d = "snd (Server_onClient ?b)"
  let ?w = "routing_addChannel ?c ?d"
  have act: "node_action (demo_member x) Configuration_default u out v \<Longrightarrow> mStateSequence u = 1 \<Longrightarrow>
      demo_network (W(x := u)) \<Longrightarrow> demo_network (W(x := v))" for u v out
    using network.Act [of demo_env "{7, 8}" demo_member _ "W(x := u)" x out v] assms(2) by (simp add: seq_window_def)
  have "demo_network (W(x := W x))"
    using assms(1) by simp
  then have "demo_network (W(x := ?a))"
    by (rule act [OF node_action.Network assms(6)])
  then have "demo_network (W(x := ?b))"
    by (rule act [OF node_action.Callback, rotated]) (simp add: assms)
  then have "demo_network (W(x := ?d))"
    by (rule act [OF node_action.Accepted, rotated]) (simp add: assms Node_onMessage_def)
  moreover have d: "mNeighbors ?d = []" "mChannels ?d = []" "mEcdh ?d = Ecdh_new demo_env (x + 1)" "mStateSequence ?d = 1"
      "ch_role ?d ?c = IncomingSocket" "rtc_open ?d = (\<lambda>_. True)" "rtc_throws ?d = (\<lambda>_ _. None)" "callback_set ?d"
      "w_user ?d = Transport_new True User 0" "g_heap ?d = g_heap (W x)" "mVertices ?d = mVertices (W x)"
      "unpaired ?d"
    by (simp_all add: Server_onClient_def Let_def Node_onMessage_def assms unpaired_def)
  have "Node_channel_opened (demo_member x) (Node_components Configuration_default) ?c ?d = (Return (), ?w)"
    using d(5) by (simp add: Node_channel_opened_def channel_opened_def deliver_event_def)
  then have "node_action (demo_member x) Configuration_default ?d (Return ()) ?w"
    using demo_room [of ?d "x + 1" x] d(1,3) by (intro node_action.Opened [where c = ?c]) simp_all
  ultimately have "demo_network (W(x := ?w))"
    using act d(4) by blast
  moreover have "graph_state ?w i = graph_state (W x) i" "graph_links ?w i = graph_links (W x) i" for i
    using d(10,11) by (intro graph_views_cong; simp add: routing_addChannel_def Let_def)+
  then have "joined x ?c ?w"
    using d assms(7,8) by (simp add: joined_def unpaired_def routing_addChannel_def Let_def us_emplace_def)
  ultimately show ?thesis
    by blast
qed

section \<open>Hello\<close>

text \<open>A node without neighbours has an empty routing table, so its update only says hello.\<close>

lemma lonely_table:
  assumes "world_ok env i w" "graph_links w i = {}"
  shows "mTable w = Some []"
proof -
  obtain st where st: "graph_get i w = Inr st" "mTable w = Some (graph_routingTable w)"
      "\<And>x h. rt_findNextHop (graph_routingTable w) x = Some h \<longleftrightarrow> h = x \<and> x \<in> set (st_neighbors st) \<and> x \<noteq> i"
    using node_inv_table [OF world_okD(3) [OF assms(1)]] by blast
  have "st_neighbors st = []"
    using node_inv_links [OF world_okD(3) [OF assms(1)]] assms(2) st(1) by (metis set_empty sum.simps(6))
  then have "rt_findNextHop (graph_routingTable w) x \<noteq> Some h" for x h
    by (simp add: st(3))
  then have none: "um_find (graph_routingTable w) x \<noteq> Some h" for x h
    by (simp add: rt_findNextHop_def)
  have "graph_routingTable w = []"
    using none [of "fst (hd (graph_routingTable w))" "snd (hd (graph_routingTable w))"]
    by (cases "graph_routingTable w") auto
  then show ?thesis
    using st(2) by simp
qed

lemma demo_hello:
  assumes "demo_network W" "x \<in> {7, 8}" "joined x c (W x)"
  shows "\<exists>w data m. demo_network (W(x := w)) \<and> joined x c w \<and> data \<in> log_of w
    \<and> message_of demo_env data = Inr m \<and> m_type m = Hello \<and> m_source m = Some x \<and> m_destination m = None"
proof -
  let ?pair = "\<lparr>pair_private = x, pair_public = x\<rparr>"
  note j = assms(3) [unfolded joined_def]
  have "mTable (W x) = Some []"
    using lonely_table [of demo_env x "W x"] network_invariant [OF assms(1) demo_network_ok] j assms(2)
      node_reach_ok [of "demo_member x" Configuration_default "W x" 0] demo_ecdh_laws
    by (auto simp: network_inv_def member_ok_def numeral_3_eq_3)
  obtain m where m: "make_message demo_env (entropy (W x)) Hello (mHelloSequence (W x)) [] (Some ?pair) None = Inr m"
      "m_source m = Some x" "m_type m = Hello" "m_destination m = None"
      "sbind (message_binary demo_env m) (message_of demo_env) = Inr m"
    using created_message [OF demo_ecdsa_laws demo_member_pair, of x "[]" None "entropy (W x)" Hello "mHelloSequence (W x)"] assms(2)
    by (auto simp: make_message_def)
  then obtain data where data: "message_binary demo_env m = Inr data" "message_of demo_env data = Inr m"
    by (auto simp: sbind_Inr_iff)
  let ?u = "(W x)\<lparr>mHelloSequence := mHelloSequence (W x) + 1, entropy := entropy (W x) + 1\<rparr>"
  let ?v = "routing_broadcast demo_env m None ?u"
  let ?w = "if int (length (mPeerings ?v)) < targetPeeringCount then ?v\<lparr>entropy := entropy ?v + 1\<rparr> else ?v"
  have frame: "node_frame ?u ?v" "mTable ?v = mTable ?u" "mStateSequence ?v = mStateSequence ?u" "rng_fails ?v = rng_fails ?u"
    using routing_broadcast_frame [of demo_env m None ?u] by (auto simp: node_frame_def)
  have "graph_update demo_env ?pair (W x) = (Return (), ?v)"
    using m(1) by (simp add: graph_update_def graph_broadcastHello_def Let_def)
  then have "update_components (demo_member x) (\<lambda>_ xs. xs) (Node_components Configuration_default) (W x) = (Return (), ?w)"
    using frame(2,4) \<open>mTable (W x) = Some []\<close> j
    by (simp add: joined_def unpaired_def Node_components_def Configuration_default_def Node_attach_def component_update_def bindp_def
        Networking_update_def routing_table_def rt_nodes_def um_keys_def Let_def)
  from network.Act [OF assms(1,2) _ node_action.Update [OF this]]
  have "demo_network (W(x := ?w))"
    using j by (simp add: seq_window_def)
  moreover have "g_heap ?v = g_heap ?u" "mVertices ?v = mVertices ?u"
    using routing_broadcast_frame [of demo_env m None ?u] by auto
  then have "graph_state ?w i = graph_state (W x) i" "graph_links ?w i = graph_links (W x) i" for i
    by (intro graph_views_cong; simp)+
  then have "joined x c ?w"
    using j frame more_world [of ?v ?u] by (auto simp: joined_def unpaired_def node_frame_def)
  moreover have "rtc_sent ?v = rtc_sent (W x) @ [(c, data)]"
    using rtc_sent_broadcast(1) [OF data(1), of None ?u] j by simp
  then have "data \<in> log_of ?w"
    by (simp add: log_of_def)
  ultimately show ?thesis
    using data(2) m(2-4) by blast
qed

text \<open>The other node's hello makes it a neighbour, and the node announces that.\<close>

definition greeted :: "nat \<Rightarrow> nat \<Rightarrow> channel \<Rightarrow> (nat, string \<times> string) world \<Rightarrow> bool" where
  "greeted x y c w \<longleftrightarrow> mChannels w = [c] \<and> mNeighbors w = [(y, c)] \<and> mEcdh w = Ecdh_new demo_env (x + 1)
     \<and> mStateSequence w = 2 \<and> graph_state w y = None \<and> rtc_throws w = (\<lambda>_ _. None) \<and> callback_set w
     \<and> w_user w = Transport_new True User 0 \<and> unpaired w"

definition announced_on :: "nat \<Rightarrow> (nat, string \<times> string) world \<Rightarrow> binary \<Rightarrow> nat message \<Rightarrow> nat state \<Rightarrow> bool" where
  "announced_on x w data m s \<longleftrightarrow> data \<in> log_of w \<and> message_of demo_env data = Inr m \<and> m_destination m = None
     \<and> State_FromMessage demo_env (Some m) = Inr s \<and> state_id s = x"

lemma demo_world_ok:
  assumes "demo_network W" "x \<in> {7, 8}"
  shows "world_ok demo_env x (W x)"
  using network_invariant [OF assms(1) demo_network_ok] assms(2)
    node_reach_ok [of "demo_member x" Configuration_default "W x" 0] demo_ecdh_laws
  by (auto simp: network_inv_def member_ok_def numeral_3_eq_3)

lemma demo_greet:
  assumes "demo_network W" "x \<in> {7, 8}" "y \<in> {7, 8}" "x \<noteq> y" "joined x c (W x)"
    and hello: "data \<in> log_of (W y)" "message_of demo_env data = Inr m" "m_type m = Hello" "m_source m = Some y"
      "m_destination m = None"
  shows "\<exists>w data m s. demo_network (W(x := w)) \<and> greeted x y c w \<and> announced_on x w data m s
    \<and> log_of (W x) \<subseteq> log_of w"
proof -
  let ?k = "demo_member x" and ?u = "(W x)\<lparr>mNeighbors := [(y, c)]\<rparr>"
  note j = assms(5) [unfolded joined_def]
  note ok = world_okD [OF demo_world_ok [OF assms(1,2)]]
  have um: "um_emplace y c (mNeighbors (W x)) = [(y, c)]"
    using j by (simp add: um_emplace_def)
  have room: "room demo_env x (W x)"
    using demo_room j by blast
  then have ann: "announceable demo_env x ?u"
    unfolding room_def um [symmetric] by blast
  have handler: "rtc_handler (W x) c = RouteHandler"
    using ok(2) j by (simp add: routing_ok_def)
  have changed: "graph_links (W x) x \<noteq> insert y {j. routing_hasNeighbor j (W x)}"
    using j by auto
  have new: "\<not> routing_hasNeighbor y (W x)" "y \<notin> graph_links (W x) x" "c \<in> set (mChannels (W x))"
    using j by (simp_all add: routing_hasNeighbor_def)
  obtain w a where w: "Routing_onMessage ?k (Node_components Configuration_default) c data (W x) = (Return (), w)"
      "node_frame ?u w" "mStateSequence w = mStateSequence (W x) + 1"
      "graph_state w = (graph_state (W x))(x \<mapsto> local_announcement x ?u)"
      "State_toMessage demo_env (entropy (W x)) (local_announcement x ?u) \<lparr>pair_private = x, pair_public = x\<rparr> = Inr a"
      "rtc_sent w = rtc_sent (routing_broadcast demo_env a None ?u)"
    using hello_handled [of ?k "W x" 1 c data m y Configuration_default] ok(1,5) handler new changed hello(2-5) ann assms(4)
    by (auto simp: um numeral_3_eq_3 Let_def)
  have "demo_network (W(x := w))"
    using network.Deliver [OF assms(1,2) _ room _ w(1)] log_unforged [OF demo_ecdsa_laws demo_canonical, of data W y m "{7, 8}"] hello(1,2,4) j
    by (simp add: seq_window_def)
  moreover have "graph_state (W x) y = None"
    using j assms(4) by (metis option.distinct(1) option.exhaust)
  then have "greeted x y c w"
    using w(2-4) j assms(4) more_world [of w ?u] by (simp add: greeted_def unpaired_def node_frame_def)
  moreover
  let ?s = "local_announcement x ?u"
  have "routing_neighbors ?u = [y]"
    by (simp add: routing_neighbors_def um_keys_def oset_of_def oset_insert_def insort_insert_key_def)
  then have s: "st_neighbors ?s = [y]" "st_ecdsaPublic ?s = x" "length (st_ecdhPublic ?s) = 65"
    using j by (simp_all add: local_announcement_def State_new_def demo_lengths del: Ecdh_new_sel)
  have "state_ok demo_env ?s"
    using s assms(2,3) by (auto simp: state_ok_def oset_ok_def)
  with state_message_exchange [OF demo_ecdsa_laws demo_member_pair, of x ?s "entropy (W x)"] s w(5) assms(2)
  have a: "m_destination a = None" "sbind (message_binary demo_env a) (message_of demo_env) = Inr a"
      "State_FromMessage demo_env (Some a) = Inr ?s"
    by auto
  then obtain b where b: "message_binary demo_env a = Inr b" "message_of demo_env b = Inr a"
    by (auto simp: sbind_Inr_iff)
  have "b \<in> log_of w" "log_of (W x) \<subseteq> log_of w"
    using w(6) rtc_sent_broadcast(1) [OF b(1), of None ?u] j by (auto simp: log_of_def)
  then have "announced_on x w b a ?s"
    using a b s(2) by (simp add: announced_on_def state_id_def)
  ultimately show ?thesis
    using \<open>log_of (W x) \<subseteq> log_of w\<close> by blast
qed

text \<open>The two nodes, each with the other as its neighbour.\<close>

lemma demo_started:
  obtains W where "demo_network W"
    "\<And>x. x \<in> {7, 8} \<Longrightarrow> mChannels (W x) = [] \<and> mNeighbors (W x) = [] \<and> mEcdh (W x) = Ecdh_new demo_env (x + 1)
       \<and> mStateSequence (W x) = 1 \<and> (\<forall>i. graph_state (W x) i \<noteq> None \<longleftrightarrow> i = x) \<and> graph_links (W x) x = {}
       \<and> w_user (W x) = Transport_new True User 0
       \<and> mPeerings (W x) = [] \<and> w_signaling (W x) = Transport_new False Signaling 0"
proof -
  have "\<exists>w. node_started (demo_member x) Configuration_default w \<and> mChannels w = [] \<and> mNeighbors w = []
      \<and> mEcdh w = Ecdh_new demo_env (x + 1) \<and> mStateSequence w = 1 \<and> (\<forall>i. graph_state w i \<noteq> None \<longleftrightarrow> i = x)
      \<and> graph_links w x = {} \<and> w_user w = Transport_new True User 0
      \<and> mPeerings w = [] \<and> w_signaling w = Transport_new False Signaling 0" if x: "x \<in> {7, 8}" for x
  proof -
    have "x < 256"
      using x by auto
    from demo_node [OF this] obtain nd :: "(nat, nat, string \<times> string, unit) node" where nd:
        "Node_new 3 demo_env demo_plum False 0 0 (demo_world\<lparr>entropy := x\<rparr>) Configuration_default = Return nd"
        "nd_pair nd = \<lparr>pair_private = x, pair_public = x\<rparr>"
      by blast
    have "node_started (demo_member x) Configuration_default (nd_world nd)"
      unfolding node_started_def demo_member_fields using nd by blast
    then show ?thesis
      using Node_new_silent [OF demo_ecdh_laws nd(1) [unfolded numeral_3_eq_3]] nd(2)
      by (intro exI [of _ "nd_world nd"]) simp
  qed
  then obtain W where W: "\<And>x. x \<in> {7, 8} \<Longrightarrow> node_started (demo_member x) Configuration_default (W x) \<and> mChannels (W x) = []
      \<and> mNeighbors (W x) = [] \<and> mEcdh (W x) = Ecdh_new demo_env (x + 1) \<and> mStateSequence (W x) = 1
      \<and> (\<forall>i. graph_state (W x) i \<noteq> None \<longleftrightarrow> i = x) \<and> graph_links (W x) x = {} \<and> w_user (W x) = Transport_new True User 0
       \<and> mPeerings (W x) = [] \<and> w_signaling (W x) = Transport_new False Signaling 0"
    by metis
  show ?thesis
  proof (rule that)
    show "demo_network W"
      by (rule network.Start) (use W in blast)
  qed (use W in blast)
qed

lemma demo_acquainted:
  obtains W c c' data m s where "demo_network W" "greeted 7 8 c (W 7)" "greeted 8 7 c' (W 8)" "announced_on 8 (W 8) data m s"
proof -
  obtain W0 where W0: "demo_network W0"
    "\<And>x. x \<in> {7, 8} \<Longrightarrow> mChannels (W0 x) = [] \<and> mNeighbors (W0 x) = [] \<and> mEcdh (W0 x) = Ecdh_new demo_env (x + 1)
       \<and> mStateSequence (W0 x) = 1 \<and> (\<forall>i. graph_state (W0 x) i \<noteq> None \<longleftrightarrow> i = x) \<and> graph_links (W0 x) x = {}
       \<and> w_user (W0 x) = Transport_new True User 0
       \<and> mPeerings (W0 x) = [] \<and> w_signaling (W0 x) = Transport_new False Signaling 0"
    by (rule demo_started) blast
  have join: "\<exists>w c. demo_network (W(x := w)) \<and> joined x c w" if "demo_network W" "x \<in> {7, 8}" "W x = W0 x" for W x
    using demo_join [OF that(1,2)] W0(2) [OF that(2)] that(3) by simp
  obtain v7 c where v7: "demo_network (W0(7 := v7))" "joined 7 c v7"
    using join [OF W0(1), of 7] by auto
  obtain u8 c' where u8: "demo_network (W0(7 := v7, 8 := u8))" "joined 8 c' u8"
    using join [OF v7(1), of 8] by auto
  obtain w7 h7 m7 where w7: "demo_network (W0(7 := w7, 8 := u8))" "joined 7 c w7" "h7 \<in> log_of w7"
      "message_of demo_env h7 = Inr m7" "m_type m7 = Hello" "m_source m7 = Some 7" "m_destination m7 = None"
    using demo_hello [OF u8(1), of 7 c] v7(2) by (auto simp: fun_upd_twist)
  obtain w8 h8 m8 where w8: "demo_network (W0(7 := w7, 8 := w8))" "joined 8 c' w8" "h8 \<in> log_of w8"
      "message_of demo_env h8 = Inr m8" "m_type m8 = Hello" "m_source m8 = Some 8" "m_destination m8 = None"
    using demo_hello [OF w7(1), of 8 c'] u8(2) by auto
  obtain x7 where x7: "demo_network (W0(7 := x7, 8 := w8))" "greeted 7 8 c x7" "log_of w7 \<subseteq> log_of x7"
    using demo_greet [OF w8(1), of 7 8 c h8 m8] w7(2) w8(3-7) by (auto simp: fun_upd_twist)
  obtain x8 data m s where "demo_network (W0(7 := x7, 8 := x8))" "greeted 8 7 c' x8" "announced_on 8 x8 data m s"
    using demo_greet [OF x7(1), of 8 7 c' h7 m7] w8(2) w7(3-7) x7(3) by (simp add: subset_iff) blast
  then show ?thesis
    using that [of "W0(7 := x7, 8 := x8)" c c' data m s] x7(2) by simp
qed

end
