(* ===== verification/Negotiation.thy ===== *)
theory Negotiation
  imports Delivery Node_Invariant
begin

text \<open>
  A session description on its way from one node to another: the callback of the connection at
  the sender (\<open>Peering::createPeerConnection\<close> in \<open>src/impl/peering.cpp\<close>), the signaling transport
  over routing, and at the receiver the peering of the sender, made on demand
  (\<open>Networking::receive\<close>), whose connection is given the description.
\<close>

section \<open>A signaling message at a node\<close>

lemma with_user_ignores:
  assumes "m_type m \<noteq> mType (w_user w)"
  shows "with_user (Transport_notify env (MessageEvent m ch)) w = (Return None, w)"
  using assms by (simp add: with_user_def Transport_notify_def)

lemma signaling_message_quiet:
  assumes "transports_ok w" "m_type m = Signaling" "c \<noteq> CSignaling"
  shows "component_notify k (MessageEvent m ch) c w = (Return None, w)"
  using assms
  by (cases c) (simp_all add: component_notify_def graph_notify_ignores message_types transports_ok_def
      with_user_ignores bindp_def)

lemma signaling_message_handled:
  assumes "transports_ok w" "transports_ok w'" "m_type m = Signaling" "np_stack k = Suc d"
    and "component_notify k (MessageEvent m ch) CSignaling w = (Return None, w')"
  shows "Node_notify k (Node_components config) (MessageEvent m ch) w = (Return (), w')"
proof -
  let ?cs = "Node_components config" and ?e = "MessageEvent m ch"
  obtain xs where xs: "?cs = xs @ [CSignaling, CUser]" "CSignaling \<notin> set xs"
    by (cases "cfg_port config") (simp_all add: Node_components_def Node_attach_def)
  have "\<forall>c \<in> set xs. component_notify k ?e c w = (Return None, w)"
    using xs(2) by (intro ballI signaling_message_quiet [OF assms(1,3)]) auto
  from notify_skip [OF this, of d ?cs "[CSignaling, CUser]"]
  have "Node_notify k ?cs ?e w = notify_from k (Suc d) ?cs ?e [CSignaling, CUser] w"
    by (simp add: Node_notify_def assms(4) flip: xs(1))
  also have "\<dots> = notify_from k (Suc d) ?cs ?e [CUser] w'"
    by (rule notify_quiet [OF assms(5)])
  also have "\<dots> = (Return (), w')"
    by (simp add: notify_quiet [OF signaling_message_quiet [OF assms(2,3)]] notify_from.simps(1))
  finally show ?thesis .
qed

lemma signaling_data_handled:
  assumes "transports_ok w" "transports_ok w'" "m_type m = Signaling" "np_stack k = Suc d"
    and "rtc_handler w c = RouteHandler" "message_of (np_env k) data = Inr m"
    and "routing_route (np_env k) (Node_id k) m (Some c) w = (Return (Some (MessageEvent m (Some c))), w)"
    and "component_notify k (MessageEvent m (Some c)) CSignaling w = (Return None, w')"
  shows "Routing_onMessage k (Node_components config) c data w = (Return (), w')"
  using signaling_message_handled [OF assms(1-4,8)] assms(5-7)
  by (simp add: Routing_onMessage_def catchp_def bindp_def deliver_event_def)

section \<open>The peering at the receiver\<close>

lemma createPeering_frame:
  assumes "Networking_createPeering i w = (out, u)"
  shows "u = w\<lparr>mPeerings := mPeerings u, rtc_next := rtc_next u\<rparr>"
    "Networking_createPeering i (w\<lparr>w_signaling := t\<rparr>) = (out, u\<lparr>w_signaling := t\<rparr>)"
  using assms by (auto simp: Networking_createPeering_def Peering_new_def Peering_disconnect_def Let_def bindp_def
      split: option.splits)

lemma createPeering_known:
  assumes "Networking_createPeering i w = (Return q, u)" "um_find (mPeerings w) i = Some p"
  shows "q = p"
  using assms by (simp add: Networking_createPeering_def)

text \<open>What a description is to the peering it is for: acceptable unless it is an offer that crosses
  an offer of the node with the greater identifier, or libdatachannel refuses it, or refuses to make
  the connection when there is none yet.\<close>

definition acceptable :: "'d webrtc \<Rightarrow> 'p::linorder \<Rightarrow> 'p \<Rightarrow> 'd \<Rightarrow> ('p, 'd) world \<Rightarrow> bool" where
  "acceptable lib self i d w \<longleftrightarrow>
     (case fst (Networking_createPeering i w) of
        Return p \<Rightarrow> pc_refuses w (pr_connection p) d = None
          \<and> (desc_type lib d = Offer \<longrightarrow> pc_state w (pr_connection p) = HaveLocalOffer \<longrightarrow> self < i)
      | _ \<Rightarrow> False)"

lemma Networking_receive_packed:
  assumes "peerings_ok w" "i \<noteq> self" "acceptable lib self i d' w"
    and "CHR 0x00 \<notin> set (typeString lib d)" "CHR 0x00 \<notin> set (desc_string lib d)"
    and "Description lib (desc_string lib d) (typeString lib d) = Inr d'"
    and new: "Networking_createPeering i w = (Return q, u)"
  shows "Networking_receive lib self i (pack_strings [typeString lib d, desc_string lib d] @ junk) w =
    (Return (), u\<lparr>pc_remote := pc_remote w @ [(pr_connection q, d')]\<rparr>)"
proof -
  note frame = createPeering_frame(1) [OF new]
  have u: "pc_refuses u = pc_refuses w" "pc_state u = pc_state w" "pc_remote u = pc_remote w"
    using arg_cong [OF frame, of pc_refuses] arg_cong [OF frame, of pc_state] arg_cong [OF frame, of pc_remote] by simp_all
  have q: "pr_remoteId q = i"
    using createPeering_cases(5) [OF assms(1) new] by simp
  have "\<not> (desc_type lib d' = Offer \<and> pc_state u (pr_connection q) = HaveLocalOffer \<and> self > pr_remoteId q)"
    using assms(3) by (auto simp: acceptable_def new u q)
  from Peering_receive_packed [OF assms(4-6) this, of junk] show ?thesis
    using assms(3) by (simp add: Networking_receive_def bindp_def new pc_setRemoteDescription_def u acceptable_def)
qed

section \<open>End to end\<close>

text \<open>The sender's callback and the receiver's handler, for one description and one channel.\<close>

lemma description_end_to_end:
  assumes env: "np_env kA = env" "np_env kB = env" "ecdsa_laws env" "ecdh_laws env" "aead_laws env"
    and lib: "np_webrtc kA = lib" "np_webrtc kB = lib"
    and pairs: "pair_ok env (np_pair kA)" "pair_ok env (np_pair kB)" "Node_id kA \<noteq> Node_id kB"
    and keys: "mEcdh wA = Ecdh_new env sA" "mEcdh wB = Ecdh_new env sB"
    and known: "graph_get (Node_id kB) wA = Inr st" "st_ecdhPublic st = Ecdh_publicKey (mEcdh wB)"
    and route: "routing_findRoute (Node_id kB) wA = Some ch" "\<And>data. rtc_throws wA ch data = None"
    and peering: "peerings_ok wA" "um_find (mPeerings wA) (Node_id kB) = Some p" "pc_gathered wA (pr_connection p)"
    and ready: "transports_ok wA" "transports_ok wB" "peerings_ok wB" "np_stack kB = Suc n" "rtc_handler wB ch' = RouteHandler"
    and fresh: "Transport_checkSequence (Node_id kA) (mSendSequence (w_signaling wA)) (w_signaling wB) = (True, t)"
    and d: "CHR 0x00 \<notin> set (typeString lib d)" "CHR 0x00 \<notin> set (desc_string lib d)"
      "Description lib (desc_string lib d) (typeString lib d) = Inr d'"
      "length (pack_strings [typeString lib d, desc_string lib d]) \<le> 65373"
    and take: "acceptable lib (Node_id kB) (Node_id kA) d' wB"
    and new: "Networking_createPeering (Node_id kA) wB = (Return q, u)"
  shows "\<exists>v data w. Node_localDescription kA csA (Node_id kB) d wA = (Return (), v)
    \<and> rtc_sent v = rtc_sent wA @ [(ch, data)]
    \<and> Routing_onMessage kB (Node_components config) ch' data wB = (Return (), w)
    \<and> w = u\<lparr>w_signaling := t, pc_remote := pc_remote wB @ [(pr_connection q, d')]\<rparr>
    \<and> (\<forall>c. Routing_onMessage kB (Node_components config) c data w = (Return (), w))"
proof -
  let ?A = "np_pair kA" and ?B = "np_pair kB" and ?payload = "pack_strings [typeString lib d, desc_string lib d]"
  have types: "mType (w_signaling wB) = mType (w_signaling wA)" "mType (w_signaling wA) = Signaling"
    using ready(1,2) by (simp_all add: transports_ok_def)
  obtain m junk where m:
    "Transport_send env ?A (pair_public ?B) ?payload (w_signaling wA, wA) =
      (let (out, w') = routing_send env (pair_public ?A) m (wA\<lparr>entropy := entropy wA + 2\<rparr>)
       in (out, ((w_signaling wA)\<lparr>mSendSequence := mSendSequence (w_signaling wA) + 1\<rparr>, w')))"
    "sbind (message_binary env m) (message_of env) = Inr m"
    "m_source m = Some (pair_public ?A)" "m_destination m = Some (pair_public ?B)" "m_type m = mType (w_signaling wA)"
    "m_sequence m = mSendSequence (w_signaling wA)"
    and got: "Transport_notify env (MessageEvent m (Some ch')) (w_signaling wB, wB) =
      (Return (Some (pair_public ?A, ?payload @ junk)), (t, wB))"
    using unicast_exchange [OF env(3-5) pairs(1,2) keys known [unfolded Node_id_def] d(4) types(1)
        fresh [unfolded Node_id_def], of "Some ch'"] by blast
  obtain data where data: "message_binary env m = Inr data" "message_of env data = Inr m"
    using m(2) by (auto simp: sbind_Inr_iff)
  let ?wA = "wA\<lparr>entropy := entropy wA + 2, rtc_sent := rtc_sent wA @ [(ch, data)]\<rparr>"
  have "routing_send env (pair_public ?A) m (wA\<lparr>entropy := entropy wA + 2\<rparr>) = (Return None, ?wA)"
    using routing_send_direct [of m "pair_public ?B" "pair_public ?A" env data "wA\<lparr>entropy := entropy wA + 2\<rparr>" ch]
      m(3,4) pairs(3) data(1) route findRoute_cong [of "wA\<lparr>entropy := entropy wA + 2\<rparr>" wA "pair_public ?B"]
    by (simp add: Node_id_def)
  moreover have "pr_remoteId p = pair_public ?B"
    using peerings_find [OF peering(1,2)] by (simp add: Node_id_def)
  ultimately have sent: "Node_localDescription kA csA (Node_id kB) d wA =
      (Return (), ?wA\<lparr>w_signaling := (w_signaling wA)\<lparr>mSendSequence := mSendSequence (w_signaling wA) + 1\<rparr>\<rparr>)"
    using m(1) peering(2,3) env(1) lib(1)
    by (simp add: Node_localDescription_def Peering_onLocalDescription_def Peering_sendLocalDescription_def
        with_signaling_def bindp_def deliver_event_def)
  let ?w = "u\<lparr>w_signaling := t, pc_remote := pc_remote wB @ [(pr_connection q, d')]\<rparr>"
  have kind: "m_type m = Signaling"
    using m(5) types(2) by (rule trans)
  have local: "routing_route env (Node_id kB) m c w = (Return (Some (MessageEvent m c)), w)" for c w
    using m(3,4) by (intro routing_route_local) (simp_all add: Node_id_def)
  have frame: "rtc_handler u = rtc_handler wB" "w_user u = w_user wB"
    using arg_cong [OF createPeering_frame(1) [OF new], of rtc_handler] arg_cong [OF createPeering_frame(1) [OF new], of w_user]
    by simp_all
  have tt: "t_broadcastable t = t_broadcastable (w_signaling wB)" "mType t = mType (w_signaling wB)"
    using fresh by (auto simp: Transport_checkSequence_def split: option.splits if_splits)
  have ok: "transports_ok ?w"
    using ready(2) tt frame by (simp add: transports_ok_def)
  have "Networking_receive lib (Node_id kB) (Node_id kA) (?payload @ junk) (wB\<lparr>w_signaling := t\<rparr>) =
      (Return (), (u\<lparr>w_signaling := t\<rparr>)\<lparr>pc_remote := pc_remote (wB\<lparr>w_signaling := t\<rparr>) @ [(pr_connection q, d')]\<rparr>)"
    by (rule Networking_receive_packed [OF _ pairs(3) _ d(1-3)])
      (use ready(3) take createPeering_frame(2) [OF new] in \<open>simp_all add: peerings_ok_def acceptable_def new\<close>)
  then have "component_notify kB (MessageEvent m (Some ch')) CSignaling wB = (Return None, ?w)"
    using got by (simp add: component_notify_def with_signaling_def bindp_def env(2) lib(2) Node_id_def)
  then have first: "Routing_onMessage kB (Node_components config) ch' data wB = (Return (), ?w)"
    using data(2) local env(2) by (intro signaling_data_handled [OF ready(2) ok kind ready(4,5)]) simp_all
  have again: "Transport_checkSequence (pair_public ?A) (m_sequence m) t = (False, t)"
    using checkSequence_again [of "pair_public ?A" "m_sequence m" "w_signaling wB"] fresh m(6) by (simp add: Node_id_def)
  have "Transport_notify env (MessageEvent m c) (t, ?w) = (Return None, (t, ?w))" for c
    using unicast_again [OF m(3) _ again] m(4) by simp
  then have ignored: "component_notify kB (MessageEvent m c) CSignaling ?w = (Return None, ?w)" for c
    by (simp add: component_notify_def with_signaling_def bindp_def env(2))
  have "Routing_onMessage kB (Node_components config) c data ?w = (Return (), ?w)" for c
  proof (cases "rtc_handler ?w c")
    case RouteHandler
    then show ?thesis
      using data(2) local env(2) ignored by (intro signaling_data_handled [OF ok ok kind ready(4)]) simp_all
  qed (simp add: Routing_onMessage_def)
  with sent first show ?thesis
    by (intro exI [of _ "?wA\<lparr>w_signaling := (w_signaling wA)\<lparr>mSendSequence := mSendSequence (w_signaling wA) + 1\<rparr>\<rparr>"]
        exI [of _ data] exI [of _ ?w]) simp
qed

end
