(* ===== verification/Network_Properties.thy ===== *)
theory Network_Properties
  imports Network_Demo Negotiation
begin

text \<open>
  What holds in every run of a network of nodes: what the nodes believe of each other is
  true, each of them is consistent, announcements spread, and messages arrive.
\<close>

section \<open>Every node of a network\<close>

lemma network_member:
  assumes "network env H k cf W" "network_ok env H k" "i \<in> H"
  shows "network_inv env H k cf W" "member_ok (k i) (cf i) i (W i)" "world_ok env i (W i)"
proof -
  note laws = network_okD [OF assms(2,3)]
  show inv: "network_inv env H k cf W"
    by (rule network_invariant [OF assms(1,2)])
  then show member: "member_ok (k i) (cf i) i (W i)"
    using assms(3) by (simp add: network_inv_def)
  obtain n where "np_stack (k i) = Suc (Suc (Suc n))"
    using laws(7) by blast
  then show "world_ok env i (W i)"
    using node_reach_ok [of "k i" "cf i" "W i" n] member laws(2,4,5) by (simp add: member_ok_def)
qed

lemma own_state:
  assumes "world_ok env i w"
  shows "\<exists>st. graph_get i w = Inr st \<and> st_ecdhPublic st = Ecdh_publicKey (graph_localEcdhPair w)
    \<and> st_sequence st = mStateSequence w - 1"
  using node_inv_table [OF world_okD(3) [OF assms]] by blast

lemma member_entry:
  assumes "network env H k cf W" "network_ok env H k" "i \<in> H" "j \<in> H" "graph_get i (W j) = Inr s"
  shows "st_ecdhPublic s = Ecdh_publicKey (graph_localEcdhPair (W i))"
    "\<exists>st. graph_get i (W i) = Inr st \<and> unat (st_sequence s) \<le> unat (st_sequence st)"
    "i \<noteq> j \<Longrightarrow> said env (W i) s"
proof -
  obtain st where st: "graph_get i (W i) = Inr st" "st_ecdhPublic st = Ecdh_publicKey (graph_localEcdhPair (W i))"
      "st_sequence st = mStateSequence (W i) - 1"
    using own_state [OF network_member(3) [OF assms(1-3)]] by blast
  note view = member_view [OF network_member(1) [OF assms(1-3)] assms(2-4)]
  show "i \<noteq> j \<Longrightarrow> said env (W i) s"
    using view(1) assms(5) by (simp add: get_state)
  have "st_ecdhPublic s = Ecdh_publicKey (graph_localEcdhPair (W i)) \<and> unat (st_sequence s) \<le> unat (st_sequence st)"
  proof (cases "i = j")
    case True
    then show ?thesis
      using st assms(5) by simp
  next
    case False
    then have past: "own_past (W i) s"
      using view(2) assms(5) by (simp add: get_state)
    then have "unat (st_sequence s) < unat (mStateSequence (W i))"
      by (simp add: own_past_def word_less_nat_alt)
    moreover from this have "mStateSequence (W i) \<noteq> 0"
      by auto
    ultimately show ?thesis
      using past by (simp add: own_past_def st unat_minus_one graph_localEcdhPair_def Ecdh_publicKey_def)
  qed
  then show "st_ecdhPublic s = Ecdh_publicKey (graph_localEcdhPair (W i))"
    "\<exists>st. graph_get i (W i) = Inr st \<and> unat (st_sequence s) \<le> unat (st_sequence st)"
    using st(1) by blast+
qed

text \<open>C1: what the nodes of a network believe of each other is true. Whatever the channels between
  them deliver, lose, replay, reorder or make up, as long as ECDSA signatures are not forged
  (bytes that name a node and verify under its key are bytes it has signed and sent, \<open>unforged\<close>;
  nothing is assumed of bytes that do not verify) and neighbour lists fit in a message (\<open>room\<close>):
  every entry a node's graph has for another node of the network carries the ECDH key that node
  uses, under a number it has reached, and is what that node has said of itself on a channel, word
  for word.\<close>

theorem network_views_authentic:
  assumes "network env H k cf W" "network_ok env H k" "i \<in> H" "j \<in> H" "graph_get i (W j) = Inr s"
  shows "st_ecdhPublic s = Ecdh_publicKey (graph_localEcdhPair (W i))
    \<and> (\<exists>st. graph_get i (W i) = Inr st \<and> unat (st_sequence s) \<le> unat (st_sequence st))
    \<and> (i \<noteq> j \<longrightarrow> said env (W i) s)"
  using member_entry [OF assms] by blast

text \<open>C2: no node of a network breaks. In every run each node that has not announced itself 2147483647
  times is consistent: channels and neighbours agree, there is one peering per remote node, its own
  graph entry is there under its current ECDH key and the number before the next, the links of
  every node are those of its last accepted state, and the routing table is that of the graph and
  leads to exactly the announced neighbours. Nothing the node does overflows the stack. Of what
  arrives, as long as ECDSA signatures are not forged (\<open>unforged\<close>): a State message under the
  node's own identifier is rejected by the graph without a change, so nobody renumbers or rekeys
  a node; and while the neighbour list has room for one more entry in a message (\<open>room\<close>, also a
  condition on the arrivals and openings of the run) no data overflows the stack.\<close>

theorem network_nodes_consistent:
  assumes "network env H k cf W" "network_ok env H k" "i \<in> H" "unat (mStateSequence (W i)) < seq_window"
  shows "routing_ok (W i) \<and> peerings_ok (W i) \<and> transports_ok (W i)
    \<and> mTable (W i) = Some (graph_routingTable (W i))
    \<and> (\<exists>st. graph_get i (W i) = Inr st \<and> st_ecdhPublic st = Ecdh_publicKey (graph_localEcdhPair (W i))
         \<and> st_sequence st = mStateSequence (W i) - 1
         \<and> (\<forall>x h. rt_findNextHop (graph_routingTable (W i)) x = Some h \<longleftrightarrow>
              h = x \<and> x \<in> set (st_neighbors st) \<and> x \<noteq> i))
    \<and> (\<forall>j. graph_links (W i) j = (case graph_get j (W i) of Inl _ \<Rightarrow> {} | Inr st \<Rightarrow> set (st_neighbors st)))
    \<and> (\<forall>out w'. node_action (k i) (cf i) (W i) out w' \<longrightarrow> out \<noteq> Overflow)
    \<and> (\<forall>data. unforged env H W data \<longrightarrow>
         (\<forall>m s. message_of env data = Inr m \<longrightarrow> State_FromMessage env (Some m) = Inr s \<longrightarrow> state_id s = i \<longrightarrow>
            graph_insert (np_stack (k i)) env (np_pair (k i)) s (W i) = (Return False, W i))
         \<and> (room env i (W i) \<longrightarrow>
              (\<forall>c. fst (Routing_onMessage (k i) (Node_components (cf i)) c data (W i)) \<noteq> Overflow)))"
proof -
  note laws = network_okD [OF assms(2,3)] and member = network_member [OF assms(1-3)]
  note ok = world_okD [OF member(3)]
  obtain n where n: "np_stack (k i) = Suc (Suc (Suc n))"
    using laws(7) by blast
  have self: "pair_public (np_pair (k i)) = i"
    using laws(5) by (simp add: Node_id_def)
  have echo: "own_echo i s (W i)" if "unforged env H W data" "message_of env data = Inr m"
      "State_FromMessage env (Some m) = Inr s" "state_id s = i" for data m s
  proof (rule past_echo [OF ok(1) _ that(4) assms(4)])
    show "own_past (W i) s"
      using said_past [of env i "W i" s] heard_said [OF assms(2) that(1-3)] member(2) laws(4) assms(3) that(4)
      by (simp add: member_ok_def)
  qed
  have rejected: "graph_insert (np_stack (k i)) env (np_pair (k i)) s (W i) = (Return False, W i)"
    if "own_echo i s (W i)" for s
  proof -
    have "\<not> newer s (graph_state (W i) (state_id s))"
      using that by (simp add: own_echo_def)
    then show ?thesis
      using insert_state_cases [of env "np_pair (k i)" "W i" s n] that ok(1) by (simp add: self n)
  qed
  have calm: "out \<noteq> Overflow" if "node_step (k i) (cf i) (W i) out w'" for out w'
    using node_step_ok [OF that _ n] member(3) laws(4,5) by simp
  have "fst (Routing_onMessage (k i) (Node_components (cf i)) c data (W i)) \<noteq> Overflow"
    if "unforged env H W data" "room env i (W i)" for data c
    by (rule calm [OF node_step.Data [OF _ _ surjective_pairing]])
      (use echo [OF that(1)] that(2) laws(4,5) in \<open>auto simp: echo_only_def\<close>)
  moreover have "out \<noteq> Overflow" if "node_action (k i) (cf i) (W i) out w'" for out w'
    by (rule calm [OF node_step.Action [OF that]])
  moreover note node_inv_table [OF ok(3)] node_inv_links [OF ok(3)]
  ultimately show ?thesis
    using ok(2,4,5) rejected [OF echo] by simp
qed

section \<open>Announcements and messages on their way\<close>

text \<open>What the handler does with an announcement that is on a channel of its source.\<close>

lemma announcement_handled:
  assumes net: "network env H k cf W" "network_ok env H k" "i \<in> H" "j \<in> H" "i \<noteq> j"
    and sent: "data \<in> log_of (W i)" "message_of env data = Inr m" "State_FromMessage env (Some m) = Inr s"
      "state_id s = i" "m_destination m = None"
    and new: "newer s (graph_state (W j) i)"
    and at: "ch \<in> set (mChannels (W j))" "room env j (W j)" "unat (mStateSequence (W j)) < seq_window"
  shows "\<exists>u w'. Routing_onMessage (k j) (Node_components (cf j)) ch data (W j) = (Return (), w')
    \<and> network env H k cf (W(j := w')) \<and> accepted_effect env (np_pair (k j)) s (W j) u
    \<and> w' = routing_broadcast env m (Some ch) u"
proof -
  note laws = network_okD [OF net(2,4)]
  obtain n where n: "np_stack (k j) = Suc (Suc (Suc n))"
    using laws(7) by blast
  note ok = world_okD [OF network_member(3) [OF net(1,2,4)]]
  have handler: "rtc_handler (W j) ch = RouteHandler"
    using ok(2) at(1) by (simp add: routing_ok_def)
  obtain u w' where w': "Routing_onMessage (k j) (Node_components (cf j)) ch data (W j) = (Return (), w')"
      "accepted_effect env (np_pair (k j)) s (W j) u" "w' = routing_broadcast env m (Some ch) u"
    using state_handled [of "k j" "W j" n ch data m s "cf j"] ok(1,5) n handler sent(2-5) new net(5) laws(4,5) by auto
  have "m_source m = Some i"
    using FromMessage_wf(1) [OF sent(3)] sent(4) by simp
  note unforged = log_unforged [of env data W i m H, OF laws(1,3) sent(1,2) this]
  have "network env H k cf (W(j := w'))"
    by (rule network.Deliver [OF net(1,4) at(3,2) unforged w'(1)])
  then show ?thesis
    using w' by blast
qed

text \<open>C4: announcements spread through a network. When a node has put an announcement on a channel
  and the bytes reach another node that does not have it or a newer one, on any of its
  channels, while that node's neighbour list has room for one more entry in a message, they make that node's graph hold exactly what was announced, state and links, and the
  node passes the same message on to every other open channel that takes it; the network goes
  on from there.\<close>

theorem network_announcement_arrives:
  assumes net: "network env H k cf W" "network_ok env H k" "i \<in> H" "j \<in> H" "i \<noteq> j"
    and sent: "data \<in> log_of (W i)" "message_of env data = Inr m" "State_FromMessage env (Some m) = Inr s"
      "state_id s = i" "m_destination m = None"
    and new: "newer s (graph_state (W j) i)"
    and at: "ch \<in> set (mChannels (W j))" "room env j (W j)" "unat (mStateSequence (W j)) < seq_window"
  shows "\<exists>w'. Routing_onMessage (k j) (Node_components (cf j)) ch data (W j) = (Return (), w')
    \<and> network env H k cf (W(j := w')) \<and> graph_get i w' = Inr s \<and> graph_links w' i = set (st_neighbors s)
    \<and> (\<forall>c \<in> set (mChannels (W j)). \<forall>b. message_binary env m = Inr b \<longrightarrow> c \<noteq> ch \<longrightarrow> rtc_open (W j) c \<longrightarrow>
         rtc_throws (W j) c b = None \<longrightarrow> (c, b) \<in> set (rtc_sent w'))"
proof -
  obtain u w' where w': "Routing_onMessage (k j) (Node_components (cf j)) ch data (W j) = (Return (), w')"
      "network env H k cf (W(j := w'))" "accepted_effect env (np_pair (k j)) s (W j) u" "w' = routing_broadcast env m (Some ch) u"
    using announcement_handled [OF assms] by blast
  have "graph_get i w' = Inr s" "graph_links w' i = set (st_neighbors s)"
    using w'(3,4) sent(4) by (simp_all add: accepted_effect_def Let_def get_state)
  moreover have "(c, b) \<in> set (rtc_sent w')"
    if "c \<in> set (mChannels (W j))" "message_binary env m = Inr b" "c \<noteq> ch" "rtc_open (W j) c" "rtc_throws (W j) c b = None" for c b
    using that w'(3,4) by (simp add: rtc_sent_broadcast(1) accepted_effect_def Let_def node_frame_def)
  ultimately show ?thesis
    using w'(1,2) by blast
qed

text \<open>C3: messages reach the application across a network. In any run, when a node has an entry for
  another in its graph, a route to it and a channel that takes data, then a payload of at most 65373
  bytes its application sends is put on the channel as one message. When those bytes arrive at
  the other node, on any of its channels, while it has a message callback and the message's
  number is new there for that sender, that node's application gets the sender's identifier and
  the payload, followed by at least 16 bytes the decryption leaves behind it (a defect: the
  payload's end is lost), once: replayed bytes change nothing. Nothing is assumed of the graph's
  entry: that it holds the key the other node decrypts with is a property of the network.\<close>

theorem network_delivers_message:
  assumes net: "network env H k cf W" "network_ok env H k" "aead_laws env" "i \<in> H" "j \<in> H" "i \<noteq> j"
    and route: "graph_get j (W i) = Inr st" "routing_findRoute j (W i) = Some ch" "\<And>data. rtc_throws (W i) ch data = None"
    and ready: "callback_set (W j)" "ch' \<in> set (mChannels (W j))"
    and fresh: "Transport_checkSequence i (mSendSequence (w_user (W i))) (w_user (W j)) = (True, t)"
    and size: "length payload \<le> 65373"
  shows "\<exists>v data junk w.
    Node_send (k i) cs (Identifier_binary env j) payload (W i) = (Return (), v)
    \<and> rtc_sent v = rtc_sent (W i) @ [(ch, data)]
    \<and> Routing_onMessage (k j) (Node_components (cf j)) ch' data (W j) = (Return (), w)
    \<and> delivered w = delivered (W j) @ [(i, payload @ junk)] \<and> 16 \<le> length junk
    \<and> (\<forall>c. Routing_onMessage (k j) (Node_components (cf j)) c data w = (Return (), w))"
proof -
  note laws = network_okD [OF net(2,4)] and laws' = network_okD [OF net(2,5)]
  note member = network_member [OF net(1,2,4)] and member' = network_member [OF net(1,2,5)]
  obtain n where n: "np_stack (k j) = Suc (Suc (Suc n))"
    using laws'(7) by blast
  obtain x y where keys: "mEcdh (W i) = Ecdh_new env x" "mEcdh (W j) = Ecdh_new env y"
    using member(2) member'(2) laws(4) laws'(4) by (auto simp: member_ok_def)
  have known: "st_ecdhPublic st = Ecdh_publicKey (mEcdh (W j))"
    using member_entry(1) [OF net(1,2,5,4) route(1)] by (simp add: graph_localEcdhPair_def)
  have handler: "rtc_handler (W j) ch' = RouteHandler"
    using world_okD(2) [OF member'(3)] ready(2) by (simp add: routing_ok_def)
  show ?thesis
    using user_message_end_to_end [OF laws(4) laws'(4) laws(1,2) net(3) laws(6) laws'(6) _ keys, of st ch "Suc (Suc n)" ch' t payload cs "cf j"]
      known route handler ready(1) fresh size n laws(5) laws'(5) net(6) world_okD(5) [OF member(3)] world_okD(5) [OF member'(3)]
    by simp blast
qed


section \<open>The theorems on a concrete network\<close>

text \<open>In the concrete network, the announcement of node 8 arrives at node 7.\<close>

lemma demo_informed:
  obtains W c c' s where "demo_network W" "graph_get 8 (W 7) = Inr s" "routing_findRoute 8 (W 7) = Some c"
    "rtc_throws (W 7) = (\<lambda>_ _. None)" "w_user (W 7) = Transport_new True User 0" "greeted 8 7 c' (W 8)"
    "unpaired (W 7)" "mTable (W 7) = Some (graph_routingTable (W 7))"
    "\<forall>x h. rt_findNextHop (graph_routingTable (W 7)) x = Some h \<longleftrightarrow> h = x \<and> x = 8"
    "unat (mStateSequence (W 7)) < seq_window"
proof -
  obtain W c c' data m s where W: "demo_network W" "greeted 7 8 c (W 7)" "greeted 8 7 c' (W 8)" "announced_on 8 (W 8) data m s"
    by (rule demo_acquainted)
  note g = W(2) [unfolded greeted_def] and d = W(4) [unfolded announced_on_def]
  have "room demo_env 7 (W 7)"
    using demo_room g by blast
  moreover have "newer s (graph_state (W 7) 8)"
    using g by (simp add: newer_def)
  ultimately obtain u w where w: "demo_network (W(7 := w))" "accepted_effect demo_env (np_pair (demo_member 7)) s (W 7) u"
      "w = routing_broadcast demo_env m (Some c) u"
    using announcement_handled [OF W(1) demo_network_ok, of 8 7 data m s c] d g by (auto simp: seq_window_def)
  have "routing_neighbors (W 7) = [8]"
    using g by (simp add: routing_neighbors_def um_keys_def oset_of_def oset_insert_def insort_insert_key_def)
  then have state: "graph_state w 8 = Some s" "graph_get 7 w = Inr (local_announcement 7 (W 7))"
      "st_neighbors (local_announcement 7 (W 7)) = [8]"
    using w(2,3) d g by (simp_all add: accepted_effect_def Let_def rekeyed_def get_state local_announcement_def)
  have frame: "node_frame (W 7) w"
    using w(2,3) node_frame_trans [OF _ node_frame_broadcast, of "W 7" u] by (simp add: accepted_effect_def Let_def)
  have "world_ok demo_env 7 w"
    using demo_world_ok [OF w(1), of 7] by simp
  from node_inv_table [OF world_okD(3) [OF this]] have "mTable w = Some (graph_routingTable w)"
      "\<And>x h. rt_findNextHop (graph_routingTable w) x = Some h \<longleftrightarrow> h = x \<and> x = 8"
    using state(2,3) by auto
  note table = this
  have "rt_findNextHop (graph_routingTable w) 8 = Some 8"
    using table(2) by simp
  then have "routing_findRoute 8 w = Some c"
    using frame g table(1) by (simp add: routing_findRoute_def node_frame_def)
  moreover have "unat (mStateSequence w) < seq_window"
    using w(2,3) g routing_broadcast_frame [of demo_env m "Some c" u]
    by (auto simp: accepted_effect_def Let_def rekeyed_def seq_window_def)
  ultimately show ?thesis
    using that [of "W(7 := w)" s c c'] w(1) state(1) frame g more_world(2) [of w "W 7"] unpaired_more [of w "W 7"] W(3) table
    by (simp add: get_state node_frame_def)
qed

theorem network_views_authentic_witness:
  "\<exists>W s. demo_network W \<and> graph_get 8 (W 7) = Inr s
     \<and> st_ecdhPublic s = Ecdh_publicKey (graph_localEcdhPair (W 8)) \<and> said demo_env (W 8) s"
proof -
  obtain W c c' s where W: "demo_network W" "graph_get 8 (W 7) = Inr s"
    by (rule demo_informed)
  then show ?thesis
    using network_views_authentic [OF W(1) demo_network_ok _ _ W(2)] by auto
qed

theorem network_nodes_consistent_witness:
  "\<exists>W c. demo_network W \<and> mNeighbors (W 7) = [(8, c)] \<and> routing_ok (W 7)
     \<and> mTable (W 7) = Some (graph_routingTable (W 7))"
proof -
  obtain W c c' data m s where W: "demo_network W" "greeted 7 8 c (W 7)"
    by (rule demo_acquainted)
  then have "unat (mStateSequence (W 7)) < seq_window" "mNeighbors (W 7) = [(8, c)]"
    by (simp_all add: greeted_def seq_window_def)
  then show ?thesis
    using network_nodes_consistent [OF W(1) demo_network_ok, of 7] W(1) by auto
qed

theorem network_announcement_arrives_witness:
  "\<exists>W c w s data. demo_network W \<and> graph_state (W 7) 8 = None
     \<and> Routing_onMessage (demo_member 7) (Node_components Configuration_default) c data (W 7) = (Return (), w)
     \<and> graph_get 8 w = Inr s"
proof -
  obtain W c c' data m s where W: "demo_network W" "greeted 7 8 c (W 7)" "announced_on 8 (W 8) data m s"
    by (rule demo_acquainted)
  note g = W(2) [unfolded greeted_def] and d = W(3) [unfolded announced_on_def]
  have "room demo_env 7 (W 7)"
    using demo_room g by blast
  moreover have "newer s (graph_state (W 7) 8)"
    using g by (simp add: newer_def)
  ultimately obtain w where "Routing_onMessage (demo_member 7) (Node_components Configuration_default) c data (W 7) = (Return (), w)"
      "graph_get 8 w = Inr s"
    using network_announcement_arrives [OF W(1) demo_network_ok, of 8 7 data m s c] d g by (auto simp: seq_window_def)
  then show ?thesis
    using W(1) g by blast
qed

theorem network_delivers_message_witness:
  "\<exists>W c v w data junk. demo_network W
    \<and> Node_send (demo_member 7) [] (Identifier_binary demo_env 8) [1, 2, 3] (W 7) = (Return (), v)
    \<and> Routing_onMessage (demo_member 8) (Node_components Configuration_default) c data (W 8) = (Return (), w)
    \<and> delivered w = delivered (W 8) @ [(7, [1, 2, 3] @ junk)]"
proof -
  obtain W c c' s where W: "demo_network W" "graph_get 8 (W 7) = Inr s" "routing_findRoute 8 (W 7) = Some c"
      "rtc_throws (W 7) = (\<lambda>_ _. None)" "w_user (W 7) = Transport_new True User 0" "greeted 8 7 c' (W 8)"
    by (rule demo_informed)
  note g = W(6) [unfolded greeted_def]
  have throws: "rtc_throws (W 7) c data = None" for data
    by (simp add: W(4))
  have ready: "callback_set (W 8)" "c' \<in> set (mChannels (W 8))"
    using g by simp_all
  have "Transport_checkSequence 7 (mSendSequence (w_user (W 7))) (w_user (W 8)) =
      (True, (Transport_new True User 0)\<lparr>mSequences := [(7, 0)]\<rparr>)"
    using g by (simp add: W(5) Transport_checkSequence_def Transport_new_def um_emplace_def)
  from network_delivers_message [OF W(1) demo_network_ok demo_aead_laws _ _ _ W(2,3) throws ready this, of "[1, 2, 3]" "[]"]
  show ?thesis
    using W(1) by simp blast
qed



end
