(* ===== verification/Peer.thy ===== *)
theory Peer
  imports Node_Start
begin

text \<open>
  The command-line program (\<open>src/peer/main.cpp\<close>, without Emscripten): it makes a node, connects
  to the address given as its argument if there is one, and updates the node for ever. What the
  callbacks of libdatachannel do to the node between two rounds is a parameter.
\<close>

section \<open>The program\<close>

text \<open>\<open>args\<close> is what follows the program's name, so \<open>argc\<close> is one more than its length.\<close>

definition peer_config :: "string list \<Rightarrow> Configuration" where
  "peer_config args = Configuration_default\<lparr>cfg_port := Some (if length args + 1 \<le> 1 then 8080 else 0)\<rparr>"

text \<open>\<open>while (true) { update(); ... }\<close>; the value is \<open>None\<close> when it never ends.\<close>

partial_function (option) peer_loop ::
    "('w \<Rightarrow> (unit outcome \<times> 'w) option) \<Rightarrow> ('w \<Rightarrow> 'w) \<Rightarrow> 'w \<Rightarrow> unit outcome option" where
  "peer_loop update between st =
     (case update st of
        None \<Rightarrow> None
      | Some (out, st) \<Rightarrow>
          (case out of
             Return _ \<Rightarrow> peer_loop update between (between st)
           | Throw e \<Rightarrow> Some (Throw e)
           | Overflow \<Rightarrow> Some Overflow))"

datatype exit_status = Exit int | StackOverflow

fun status_of :: "unit outcome \<Rightarrow> exit_status" where
  "status_of (Return _) = Exit 0"
| "status_of (Throw e) = Exit 1"
| "status_of Overflow = StackOverflow"

definition peer_params ::
    "nat \<Rightarrow> ('p, 'k) env \<Rightarrow> 'd webrtc \<Rightarrow> ('p, 'k, 'd, 'f) node \<Rightarrow> ('p, 'k, 'd) node_params" where
  "peer_params stack env lib nd =
     \<lparr>np_env = env, np_webrtc = lib, np_pair = nd_pair nd, np_stack = stack\<rparr>"

text \<open>The \<open>try\<close> block after the node is made: connect, then the loop.\<close>

definition peer_run ::
    "nat \<Rightarrow> ('p::linorder, 'k) env \<Rightarrow> 'd webrtc \<Rightarrow> (nat \<Rightarrow> 'p list \<Rightarrow> 'p list) \<Rightarrow> (nat \<Rightarrow> int)
     \<Rightarrow> ('f \<Rightarrow> ('f scheduler \<times> ('p, 'd) world, unit) prog) \<Rightarrow> (('p, 'd) world \<Rightarrow> ('p, 'd) world)
     \<Rightarrow> ('p, 'k, 'd, 'f) node \<Rightarrow> string list \<Rightarrow> unit outcome option" where
  "peer_run stack env lib shuffle clk task between nd args =
     (let k = peer_params stack env lib nd;
          loop = (\<lambda>w. peer_loop (Node_update k shuffle (nd_components nd) task clk)
            (\<lambda>(s, w). (s, between w)) (nd_scheduler nd, w))
      in case args of
           [] \<Rightarrow> loop (nd_world nd)
         | url # _ \<Rightarrow>
             (case Node_connect k url (nd_world nd) of
                None \<Rightarrow> None
              | Some (Return _, w) \<Rightarrow> loop w
              | Some (Throw e, w) \<Rightarrow> Some (Throw e)
              | Some (Overflow, w) \<Rightarrow> Some Overflow))"

definition peer_main ::
    "nat \<Rightarrow> ('p::linorder, 'k) env \<Rightarrow> 'd webrtc \<Rightarrow> plum \<Rightarrow> bool \<Rightarrow> 32 word \<Rightarrow> 32 word \<Rightarrow> ('p, 'd) world
     \<Rightarrow> (nat \<Rightarrow> 'p list \<Rightarrow> 'p list) \<Rightarrow> (nat \<Rightarrow> int) \<Rightarrow> ('f \<Rightarrow> ('f scheduler \<times> ('p, 'd) world, unit) prog)
     \<Rightarrow> (('p, 'd) world \<Rightarrow> ('p, 'd) world) \<Rightarrow> string list \<Rightarrow> exit_status option" where
  "peer_main stack env lib p indeterminate q q' net shuffle clk task between args =
     map_option status_of
       (case Node_new stack env p indeterminate q q' net (peer_config args) of
          Return nd \<Rightarrow> peer_run stack env lib shuffle clk task between nd args
        | Throw e \<Rightarrow> Some (Throw e)
        | Overflow \<Rightarrow> Some Overflow)"

section \<open>How it ends\<close>

text \<open>What the updates of the components can throw: only what libdatachannel or the random device throws.\<close>

definition refusals :: "('p, 'd, 'z) world_scheme \<Rightarrow> exn set" where
  "refusals w = set_option (rng_fails w) \<union> set_option (pc_fails w) \<union> (\<Union>c. set_option (dc_refuses w c))"

lemma hello_returns:
  "\<exists>w'. graph_update env pair w = (Return (), w') \<and> refusals w' = refusals w"
proof -
  let ?u = "w\<lparr>mHelloSequence := mHelloSequence w + 1, entropy := entropy w + 1\<rparr>"
  obtain m where m: "make_message env (entropy w) Hello (mHelloSequence w) [] (Some pair) None = Inr m"
    by (simp add: make_message_def Message_Create_def message_sign_simp Let_def)
  have "refusals (routing_broadcast env m None ?u) = refusals w"
    using routing_broadcast_frame [of env m None ?u] by (auto simp: refusals_def)
  with m show ?thesis
    by (simp add: graph_update_def graph_broadcastHello_def Let_def)
qed

lemma Networking_refusals:
  fixes w :: "('p, 'd, 'z) world_scheme"
  shows "refusals (snd (Networking_update shuffle w)) = refusals w"
proof -
  have create: "refusals (snd (Networking_createPeering i w)) = refusals w" for i and w :: "('p, 'd, 'z) world_scheme"
    by (auto simp: Networking_createPeering_def Peering_new_def Peering_disconnect_def Let_def bindp_def refusals_def
        split: option.split)
  have connect: "refusals (snd (snd (Peering_connect (p, w)))) = refusals w" for p and w :: "('p, 'd, 'z) world_scheme"
    by (simp add: Peering_connect_def Peering_disconnect_def rtc_close_def routing_removeChannel_def pc_createDataChannel_def
        Peering_setDataChannel_def Let_def refusals_def split: option.split)
  have "refusals (snd (Networking_connectPeer i w)) = refusals w" for i and w :: "('p, 'd, 'z) world_scheme"
  proof -
    have "refusals (store_peering q u) = refusals u" for q and u :: "('p, 'd, 'z) world_scheme"
      by (simp add: store_peering_def refusals_def)
    moreover obtain o1 v where c: "Networking_createPeering i w = (o1, v)"
      by fastforce
    moreover have "refusals (snd (let (out, p, w) = Peering_connect (p, v) in (out, store_peering p w))) = refusals v" for p
      using connect [of p v] calculation(1) by (cases "Peering_connect (p, v)") auto
    ultimately show ?thesis
      using create [of i w] by (cases o1) (simp_all add: Networking_connectPeer_def bindp_def)
  qed
  moreover have "refusals (w\<lparr>entropy := e\<rparr>) = refusals w" for e
    by (simp add: refusals_def)
  ultimately show ?thesis
    by (simp add: Networking_update_def Let_def split: option.split)
qed

lemma update_components_throws:
  "fst (update_components k shuffle cs w) \<in> insert (Return ()) (Throw ` refusals w)"
proof (induction cs arbitrary: w)
  case (Cons c cs)
  note networking = update_throws [of shuffle w, folded refusals_def]
  have step: "fst (component_update k shuffle c w) \<in> insert (Return ()) (Throw ` refusals w)
    \<and> refusals (snd (component_update k shuffle c w)) = refusals w"
  proof (cases c)
    case CGraph
    then show ?thesis
      using hello_returns [of "np_env k" "np_pair k" w] by (clarsimp simp: component_update_def)
  next
    case CNetworking
    then show ?thesis
      using networking Networking_refusals [of shuffle w] by (simp add: component_update_def)
  qed (simp_all add: component_update_def)
  obtain out u where u: "component_update k shuffle c w = (out, u)"
    by fastforce
  have "out \<in> insert (Return ()) (Throw ` refusals w)" "refusals u = refusals w"
    using step by (simp_all add: u)
  then show ?case
    using Cons [of u] by (cases out) (simp_all add: bindp_def u image_iff)
qed simp

lemma idle_scheduler: "mTasks s = [] \<Longrightarrow> Scheduler_run task clk (s, w) = Some (Return (), (s, w))"
  by (subst Scheduler_run.simps) (simp add: Scheduler_runOne_def Scheduler_dequeue_def)

lemma Node_update_idle:
  "mTasks s = [] \<Longrightarrow> Node_update k shuffle cs task clk (s, w) =
     Some (fst (update_components k shuffle cs w), (s, snd (update_components k shuffle cs w)))"
  by (cases "update_components k shuffle cs w"; cases "fst (update_components k shuffle cs w)")
    (simp_all add: Node_update_def idle_scheduler)

text \<open>The state before round \<open>n\<close> of the loop, counted from zero, were no update to throw.\<close>

definition before_round ::
    "('p::linorder, 'k, 'd) node_params \<Rightarrow> (nat \<Rightarrow> 'p list \<Rightarrow> 'p list) \<Rightarrow> component list
     \<Rightarrow> (('p, 'd) world \<Rightarrow> ('p, 'd) world) \<Rightarrow> nat \<Rightarrow> ('p, 'd) world \<Rightarrow> ('p, 'd) world" where
  "before_round k shuffle cs between n w = ((\<lambda>w. between (snd (update_components k shuffle cs w))) ^^ n) w"

lemma before_round_simps:
  "before_round k shuffle cs between 0 w = w"
  "before_round k shuffle cs between (Suc n) w =
     before_round k shuffle cs between n (between (snd (update_components k shuffle cs w)))"
  by (simp_all add: before_round_def funpow_Suc_right del: funpow.simps)

lemma peer_loop_ends:
  assumes "peer_loop u b st = Some out" "u = Node_update k shuffle cs task clk" "b = (\<lambda>(s, w). (s, between w))"
    and "mTasks (fst st) = []"
  shows "\<exists>n e. out = Throw e \<and> fst (update_components k shuffle cs (before_round k shuffle cs between n (snd st))) = Throw e"
  using assms(2,3,4)
proof (induction u b st out rule: peer_loop.raw_induct)
  case (1 loop u b st out)
  let ?o = "fst (update_components k shuffle cs (snd st))" and ?w = "snd (update_components k shuffle cs (snd st))"
  have u: "u st = Some (?o, (fst st, ?w))"
    using Node_update_idle [OF 1(5), of k shuffle cs task clk "snd st"] 1(3) by simp
  show ?case
  proof (cases ?o)
    case (Return x)
    then have "loop u b (fst st, between ?w) = Some out"
      using 1(2,4) u by simp
    from 1(1) [OF this 1(3,4)] obtain n e where
      "out = Throw e" "fst (update_components k shuffle cs (before_round k shuffle cs between n (between ?w))) = Throw e"
      using 1(5) by auto
    then show ?thesis
      by (intro exI [of _ "Suc n"] exI [of _ e]) (simp add: before_round_simps)
  next
    case (Throw e)
    then show ?thesis
      using 1(2) u by (intro exI [of _ 0] exI [of _ e]) (simp add: before_round_simps)
  next
    case Overflow
    then show ?thesis
      using update_components_throws [of k shuffle cs "snd st"] by auto
  qed
qed (rule assms(1))

lemma peer_loop_throws:
  assumes "fst (update_components k shuffle cs (before_round k shuffle cs between n w)) = Throw e" "mTasks s = []"
  shows "peer_loop (Node_update k shuffle cs task clk) (\<lambda>(s, w). (s, between w)) (s, w) \<noteq> None"
  using assms
proof (induction n arbitrary: w)
  case 0
  then show ?case
    by (subst peer_loop.simps) (simp add: Node_update_idle before_round_simps)
next
  case (Suc n)
  let ?w = "between (snd (update_components k shuffle cs w))"
  have "peer_loop (Node_update k shuffle cs task clk) (\<lambda>(s, w). (s, between w)) (s, ?w) \<noteq> None"
    by (rule Suc.IH) (use Suc.prems in \<open>simp_all add: before_round_simps\<close>)
  then show ?case
    using Suc.prems(2) by (subst peer_loop.simps) (auto simp: Node_update_idle split: outcome.split)
qed

lemma peer_loop_outcome:
  assumes "mTasks s = []"
  shows "map_option status_of (peer_loop (Node_update k shuffle cs task clk) (\<lambda>(s, w). (s, between w)) (s, w)) =
    (if \<exists>n e. fst (update_components k shuffle cs (before_round k shuffle cs between n w)) = Throw e then Some (Exit 1) else None)"
proof (cases "peer_loop (Node_update k shuffle cs task clk) (\<lambda>(s, w). (s, between w)) (s, w)")
  case None
  then have "fst (update_components k shuffle cs (before_round k shuffle cs between n w)) \<noteq> Throw e" for n e
    using peer_loop_throws [OF _ assms, of k shuffle cs between n w e task clk] by auto
  with None show ?thesis
    by simp
next
  case (Some out)
  then show ?thesis
    using peer_loop_ends [OF Some refl refl] assms by auto
qed

text \<open>C20: how the peer program ends. With exit code 1 when the node cannot be made, when connecting to
  the address given as the first argument throws, or when a later round of updates throws;
  otherwise its loop never returns (nor may connecting, on an address with white space):
  exit code 0 does not occur, and no task is ever pending. A round of updates throws nothing
  but what libdatachannel throws when a connection or a data channel is made, or the random device,
  in the state before that round; so a program whose library never refuses runs for ever.\<close>

theorem peer_runs_forever:
  fixes task :: "'f \<Rightarrow> ('f scheduler \<times> ('p::linorder, 'd) world, unit) prog"
  shows "peer_main stack env lib p indeterminate q q' net shuffle clk task between args =
     (case (Node_new stack env p indeterminate q q' net (peer_config args) :: ('p, 'k, 'd, 'f) node outcome) of
        Throw e \<Rightarrow> Some (Exit 1)
      | Overflow \<Rightarrow> Some StackOverflow
      | Return nd \<Rightarrow>
          (let k = peer_params stack env lib nd;
               ending = (\<lambda>w. if \<exists>n e. fst (update_components k shuffle (nd_components nd)
                   (before_round k shuffle (nd_components nd) between n w)) = Throw e then Some (Exit 1) else None)
           in case args of
                [] \<Rightarrow> ending (nd_world nd)
              | url # _ \<Rightarrow>
                  (case Node_connect k url (nd_world nd) of
                     None \<Rightarrow> None
                   | Some (Return _, w) \<Rightarrow> ending w
                   | Some (Throw e, w) \<Rightarrow> Some (Exit 1)
                   | Some (Overflow, w) \<Rightarrow> Some StackOverflow)))
    \<and> (\<forall>(k :: ('p, 'k, 'd) node_params) cs w.
         fst (update_components k shuffle cs w) \<in> insert (Return ()) (Throw ` refusals w))"
proof -
  have idle: "mTasks (nd_scheduler nd) = []"
    if "(Node_new stack env p indeterminate q q' net (peer_config args) :: ('p, 'k, 'd, 'f) node outcome) = Return nd" for nd
    using that by (auto simp: Node_new_def Scheduler_new_def split: sum.splits prod.splits outcome.splits)
  show ?thesis
    by (intro conjI allI update_components_throws)
      (auto simp: peer_loop_outcome [OF idle] peer_main_def peer_run_def Let_def split: outcome.split list.split option.split)
qed

end
