(* ===== verification/Helpers.thy ===== *)
theory Helpers
  imports Prelude
begin

text \<open>
  The helper templates of \<open>include/legio/utils.hpp\<close>: visitors made of lambdas, callbacks that do
  not outlive their object, scope guards and the base class that holds an implementation.
  A type parameter of a template is a type variable. \<open>hash_combine\<close> is in \<open>Binary\<close>.
\<close>

section \<open>Visitors\<close>

text \<open>\<open>overloaded\<close> of two lambdas, as \<open>std::visit\<close> calls it on a variant of two alternatives.\<close>

definition overloaded_visit :: "('a \<Rightarrow> 'r) \<Rightarrow> ('b \<Rightarrow> 'r) \<Rightarrow> 'a + 'b \<Rightarrow> 'r" where
  "overloaded_visit f g v = (case v of Inl a \<Rightarrow> f a | Inr b \<Rightarrow> g b)"

section \<open>Weak callbacks\<close>

text \<open>
  The arguments given to \<open>std::bind\<close> are values or placeholders; a placeholder stands for an
  argument of the call, and arguments of the call without a placeholder are dropped.
\<close>

datatype 'a bind_arg = Value 'a | Placeholder nat

fun bound_value :: "'a list \<Rightarrow> 'a bind_arg \<Rightarrow> 'a option" where
  "bound_value args (Value v) = Some v"
| "bound_value args (Placeholder n) = (if 0 < n \<and> n \<le> length args then Some (args ! (n - 1)) else None)"

text \<open>A call with too few arguments for the placeholders does not compile: no result then.\<close>

definition std_bind :: "('t \<Rightarrow> 'a list \<Rightarrow> 'r) \<Rightarrow> 't \<Rightarrow> 'a bind_arg list \<Rightarrow> 'a list \<Rightarrow> 'r option" where
  "std_bind f t bound args = map_option (f t) (those (map (bound_value args) bound))"

text \<open>\<open>alive\<close> is what locking the weak pointer gives when the callback is called; \<open>false\<close> the cast of \<open>false\<close>.\<close>

definition weak_bind ::
    "('t \<Rightarrow> 'a list \<Rightarrow> 'r) \<Rightarrow> 't \<Rightarrow> 'a bind_arg list \<Rightarrow> 'r \<Rightarrow> bool \<Rightarrow> 'a list \<Rightarrow> 'r option" where
  "weak_bind f t bound false alive args = (if alive then std_bind f t bound args else Some false)"

lemma those_values: "those (map (bound_value args) (map Value vs)) = Some vs"
  by (induction vs) simp_all

lemma those_placeholders:
  "n + m \<le> length args \<Longrightarrow>
   those (map (bound_value args) (map Placeholder [Suc n..<Suc (n + m)])) = Some (take m (drop n args))"
proof (induction m arbitrary: n)
  case (Suc m)
  have "[Suc n..<Suc (n + Suc m)] = Suc n # [Suc (Suc n)..<Suc (Suc n + m)]"
    by (simp add: upt_rec)
  moreover have "take (Suc m) (drop n args) = args ! n # take m (drop (Suc n) args)"
    using Suc.prems by (simp add: Cons_nth_drop_Suc [symmetric])
  ultimately show ?case
    using Suc.IH [of "Suc n"] Suc.prems by simp
qed simp

text \<open>A dead object's function is not called; a live one's gets the bound values, then the call's
  arguments that have a placeholder, and no others.\<close>

lemma weak_bind_dead: "weak_bind f t bound false False args = weak_bind g u bound' false False args'"
  by (simp add: weak_bind_def)

lemma those_append:
  "those (xs @ ys) = (case those xs of None \<Rightarrow> None | Some us \<Rightarrow> map_option ((@) us) (those ys))"
  by (cases "those ys"; induction xs) (auto split: option.split)

lemma weak_bind_live:
  assumes "m \<le> length args"
  shows "weak_bind f t (map Value vs @ map Placeholder [1..<Suc m]) false True args = Some (f t (vs @ take m args))"
proof -
  have "those (map (bound_value args) (map Placeholder [1..<Suc m])) = Some (take m args)"
    using those_placeholders [of 0 m args] assms by simp
  then show ?thesis
    unfolding weak_bind_def std_bind_def map_append those_append those_values by simp
qed

section \<open>Scope guards\<close>

record 's scope_guard =
  guard_function :: "('s \<Rightarrow> 's) option"

definition scope_guard_new :: "('s \<Rightarrow> 's) option \<Rightarrow> 's scope_guard" where
  "scope_guard_new func = \<lparr>guard_function = func\<rparr>"

definition scope_guard_destroy :: "'s scope_guard \<Rightarrow> 's \<Rightarrow> 's" where
  "scope_guard_destroy g s = (case guard_function g of Some f \<Rightarrow> f s | None \<Rightarrow> s)"

text \<open>A block with a guard: the destructor runs when the block is left, however it is left.\<close>

definition guarded :: "'s scope_guard \<Rightarrow> ('s, 'a) prog \<Rightarrow> ('s, 'a) prog" where
  "guarded g body s = (let (out, s') = body s in (out, scope_guard_destroy g s'))"

lemma guarded_leaves:
  assumes "body s = (out, s')"
  shows "guarded (scope_guard_new (Some f)) body s = (out, f s')" "guarded (scope_guard_new None) body s = (out, s')"
  using assms by (simp_all add: guarded_def scope_guard_new_def scope_guard_destroy_def)

text \<open>Guards of nested scopes run from the inside out, also past an exception.\<close>

lemma guarded_nested:
  "body s = (Throw e, s') \<Longrightarrow>
   guarded (scope_guard_new (Some f)) (bindp (guarded (scope_guard_new (Some g)) body) rest) s = (Throw e, f (g s'))"
  by (simp add: guarded_def scope_guard_new_def scope_guard_destroy_def bindp_def)

section \<open>The holder of an implementation\<close>

text \<open>\<open>mImpl\<close> is a shared pointer: an object, or null after it was moved from.\<close>

record 'i CheshireCat =
  mImpl :: "'i option"

definition CheshireCat_of :: "'i option \<Rightarrow> 'i CheshireCat" where
  "CheshireCat_of ptr = \<lparr>mImpl = ptr\<rparr>"

definition CheshireCat_make :: "('a \<Rightarrow> exn + 'i) \<Rightarrow> 'a \<Rightarrow> exn + 'i CheshireCat" where
  "CheshireCat_make construct args = sbind (construct args) (\<lambda>i. Inr \<lparr>mImpl = Some i\<rparr>)"

text \<open>Both give the two objects afterwards, the one moved to first.\<close>

definition CheshireCat_assign :: "'i CheshireCat \<Rightarrow> 'i CheshireCat \<Rightarrow> 'i CheshireCat \<times> 'i CheshireCat" where
  "CheshireCat_assign this cc = (this\<lparr>mImpl := mImpl cc\<rparr>, cc\<lparr>mImpl := None\<rparr>)"

definition CheshireCat_move :: "'i CheshireCat \<Rightarrow> 'i CheshireCat \<times> 'i CheshireCat" where
  "CheshireCat_move cc = CheshireCat_assign \<lparr>mImpl = None\<rparr> cc"

definition CheshireCat_impl :: "'i CheshireCat \<Rightarrow> 'i option" where
  "CheshireCat_impl cc = mImpl cc"

text \<open>There is one holder at any time: a move takes the implementation along and leaves null.\<close>

lemma CheshireCat_moves:
  assumes "CheshireCat_make construct args = Inr cc" "CheshireCat_move cc = (b, a)" "CheshireCat_assign c b = (c', b')"
  shows "CheshireCat_impl c' = CheshireCat_impl cc \<and> CheshireCat_impl c' \<noteq> None
    \<and> CheshireCat_impl a = None \<and> CheshireCat_impl b' = None"
  using assms by (auto simp: CheshireCat_make_def CheshireCat_move_def CheshireCat_assign_def CheshireCat_impl_def sbind_Inr_iff)

end
