(* ===== verification/Race.thy ===== *)
theory Race
  imports Graph_Invariant
begin

text \<open>
  Threads in the graph (\<open>src/impl/graph.cpp\<close>). \<open>routing->addNeighbor\<close> and \<open>removeNeighbor\<close> emit
  their event after releasing the mutex of routing, and the branch of \<open>Graph::notify\<close> for that
  event takes no lock at all: several threads can be inside it at once. Here the branch and
  \<open>broadcastState\<close>, which it calls, are cut into the steps between which another thread may run.
  The steps themselves are those of the sequential model, each without interruption: the model
  grants the code more than it asks for, since \<open>updateEdges\<close> and \<open>updateVertice\<close> are called
  without the mutex their comments require.
\<close>

section \<open>The steps of the branch\<close>

datatype 'p announcer =
    Noticed
  | Counted "'p list"
  | Announcing
  | Fetched "32 word"
  | Numbered "32 word"
  | Composed "'p state"
  | Recorded "'p message"

text \<open>
  A step returns what is left to do, None at the end. \<open>mStateSequence++\<close> is a read and a write;
  the message is made and the state recorded in one step, as nothing else looks at the message
  before it is sent. An exception ends the branch.
\<close>

fun announcer_step ::
    "nat \<Rightarrow> ('p::linorder, 'k) env \<Rightarrow> ('p, 'k) EcdsaPair \<Rightarrow> 'p announcer \<Rightarrow> ('p, 'z) graph_scheme
     \<Rightarrow> 'p announcer option \<times> ('p, 'z) graph_scheme" where
  "announcer_step stack env pair Noticed w = (Some (Counted (routing_neighbors w)), w)"
| "announcer_step stack env pair (Counted neighbors) w =
     (case graph_updateEdges (pair_public pair) (pair_public pair) neighbors w of
        (Return True, w) \<Rightarrow> (Some Announcing, w)
      | (_, w) \<Rightarrow> (None, w))"
| "announcer_step stack env pair Announcing w = (Some (Fetched (mStateSequence w)), w)"
| "announcer_step stack env pair (Fetched sequence) w =
     (Some (Numbered sequence), w\<lparr>mStateSequence := sequence + 1\<rparr>)"
| "announcer_step stack env pair (Numbered sequence) w =
     (let localState = State_new (pair_public pair) sequence (Ecdh_publicKey (mEcdh w))
      in (Some (Composed (localState\<lparr>st_neighbors :=
            fold oset_insert (routing_neighbors w) (st_neighbors localState)\<rparr>)), w))"
| "announcer_step stack env pair (Composed localState) w =
     (let seed = entropy w; w = w\<lparr>entropy := seed + 1\<rparr>
      in case State_toMessage env seed localState pair of
           Inl e \<Rightarrow> (None, w)
         | Inr message \<Rightarrow>
             (case graph_updateVertice stack env pair localState w of
                (Return _, w) \<Rightarrow> (Some (Recorded message), w)
              | (_, w) \<Rightarrow> (None, w)))"
| "announcer_step stack env pair (Recorded message) w = (None, routing_broadcast env message None w)"

text \<open>The branch without interruption.\<close>

fun announcer_run ::
    "nat \<Rightarrow> nat \<Rightarrow> ('p::linorder, 'k) env \<Rightarrow> ('p, 'k) EcdsaPair \<Rightarrow> 'p announcer option
     \<Rightarrow> ('p, 'z) graph_scheme \<Rightarrow> 'p announcer option \<times> ('p, 'z) graph_scheme" where
  "announcer_run n stack env pair None w = (None, w)"
| "announcer_run 0 stack env pair (Some a) w = (Some a, w)"
| "announcer_run (Suc n) stack env pair (Some a) w =
     (let (next_step, w) = announcer_step stack env pair a w in announcer_run n stack env pair next_step w)"

lemma announcer_run_broadcast:
  "announcer_run 5 stack env pair (Some Announcing) w =
   (None, snd (graph_broadcastState (Suc stack) env pair w))"
proof -
  let ?s = "(State_new (pair_public pair) (mStateSequence w) (Ecdh_publicKey (mEcdh w)))
    \<lparr>st_neighbors := fold oset_insert (routing_neighbors w)
       (st_neighbors (State_new (pair_public pair) (mStateSequence w) (Ecdh_publicKey (mEcdh w))))\<rparr>"
  let ?u = "w\<lparr>mStateSequence := mStateSequence w + 1\<rparr>"
  have "announcer_run 5 stack env pair (Some Announcing) w =
      announcer_run 2 stack env pair (Some (Composed ?s)) ?u"
    by (simp add: eval_nat_numeral Let_def)
  also have "\<dots> = (None, snd (graph_broadcastState (Suc stack) env pair w))"
    by (simp add: eval_nat_numeral Let_def graph_broadcastState.simps bindp_def split: sum.split prod.split outcome.split)
  finally show ?thesis .
qed

lemma announcer_run_mono:
  "announcer_run n stack env pair a w = (None, w') \<Longrightarrow> announcer_run (n + k) stack env pair a w = (None, w')"
proof (induction n stack env pair a w rule: announcer_run.induct)
  case (1 n stack env pair w)
  then show ?case
    by (cases "n + k") simp_all
qed (auto split: prod.splits)

text \<open>
  The steps are the branch: a thread that runs them without interruption does to the node
  exactly what \<open>Graph::notify\<close> does for a neighbour event in the sequential model, whatever the
  state of the node and whether or not an exception ends it, and it is done after at most seven
  steps.
\<close>

lemma announcer_is_the_branch:
  "announcer_run 7 stack env pair (Some Noticed) w =
   (None, snd (graph_notify (Suc stack) env pair (NeighborEvent i ch) w))"
proof (cases "graph_updateEdges (pair_public pair) (pair_public pair) (routing_neighbors w) w")
  case (Pair out u)
  have "announcer_run 7 stack env pair (Some Noticed) w =
      announcer_run 6 stack env pair (Some (Counted (routing_neighbors w))) w"
    by (simp add: eval_nat_numeral)
  also have "\<dots> = (case out of Return True \<Rightarrow> announcer_run 5 stack env pair (Some Announcing) u | _ \<Rightarrow> (None, u))"
    by (simp add: eval_nat_numeral(2,3) Pair del: announcer_run.simps(3) split: outcome.split bool.split)
      (simp add: eval_nat_numeral Pair split: outcome.split bool.split)
  also have "\<dots> = (None, snd (graph_notify (Suc stack) env pair (NeighborEvent i ch) w))"
    by (simp add: graph_notify_def Let_def bindp_def Pair announcer_run_broadcast
        split: outcome.split bool.split prod.split)
  finally show ?thesis .
qed

section \<open>Several threads\<close>

text \<open>
  What happens to the node, in order: a thread adds or removes a neighbour, which starts the
  branch if the neighbours changed; a channel is added, or removed with the neighbours reached
  through it, which starts nothing since \<open>removeChannel\<close> emits no event; a thread in the branch makes
  its next step; or the mutex of the graph is taken for the announcement of another node. Under \<open>uninterrupted\<close> a call of
  \<open>broadcastState\<close> runs to its end once it has begun, as it would if the mutex were held
  around it.
\<close>

datatype 'p thread_event =
    Adds nat 'p nat
  | Removes nat 'p nat
  | Opens channel
  | Closes channel
  | Runs nat
  | Accepts "'p state"

type_synonym ('p, 'z) threads = "('p, 'z) graph_scheme \<times> (nat \<Rightarrow> 'p announcer option)"

fun thread_step ::
    "bool \<Rightarrow> nat \<Rightarrow> ('p::linorder, 'k) env \<Rightarrow> ('p, 'k) EcdsaPair \<Rightarrow> 'p thread_event
     \<Rightarrow> ('p, 'z) threads \<Rightarrow> ('p, 'z) threads" where
  "thread_step uninterrupted stack env pair (Adds t i c) (w, th) =
     (if th t \<noteq> None then (w, th)
      else (let (emitted, w) = routing_addNeighbor i c w
            in (w, if emitted = None then th else th(t \<mapsto> Noticed))))"
| "thread_step uninterrupted stack env pair (Removes t i c) (w, th) =
     (if th t \<noteq> None then (w, th)
      else (let (emitted, w) = routing_removeNeighbor i c w
            in (w, if emitted = None then th else th(t \<mapsto> Noticed))))"
| "thread_step uninterrupted stack env pair (Opens c) (w, th) = (routing_addChannel c w, th)"
| "thread_step uninterrupted stack env pair (Closes c) (w, th) = (routing_removeChannel c w, th)"
| "thread_step uninterrupted stack env pair (Runs t) (w, th) =
     (case th t of
        None \<Rightarrow> (w, th)
      | Some a \<Rightarrow>
          (let (next_step, w) =
                 (if uninterrupted \<and> a = Announcing
                  then announcer_run 5 stack env pair (Some Announcing) w
                  else announcer_step stack env pair a w)
           in (w, th(t := next_step))))"
| "thread_step uninterrupted stack env pair (Accepts s) (w, th) =
     (snd (graph_insert (Suc (Suc stack)) env pair s w), th)"

definition thread_run ::
    "bool \<Rightarrow> nat \<Rightarrow> ('p::linorder, 'k) env \<Rightarrow> ('p, 'k) EcdsaPair \<Rightarrow> 'p thread_event list
     \<Rightarrow> ('p, 'z) threads \<Rightarrow> ('p, 'z) threads" where
  "thread_run uninterrupted stack env pair = fold (thread_step uninterrupted stack env pair)"

text \<open>The identifiers a schedule adds, and the states of other nodes it brings.\<close>

definition added_ids :: "'p thread_event list \<Rightarrow> 'p set" where
  "added_ids evs = {i. \<exists>t c. Adds t i c \<in> set evs}"

text \<open>
  The identifiers that the links of the local node may list although they are no neighbours: those
  listed so from the start, and those whose channel the schedule closes.
\<close>

definition stale_ids :: "'p \<Rightarrow> ('p, 'z) graph_scheme \<Rightarrow> 'p thread_event list \<Rightarrow> 'p set" where
  "stale_ids self w evs = (graph_links w self - {j. routing_hasNeighbor j w})
     \<union> {i. \<exists>c. Closes c \<in> set evs \<and> ((i, c) \<in> set (mNeighbors w) \<or> (\<exists>t. Adds t i c \<in> set evs))}"

definition only_others :: "'p \<Rightarrow> 'p thread_event list \<Rightarrow> bool" where
  "only_others self evs \<longleftrightarrow> (\<forall>s. Accepts s \<in> set evs \<longrightarrow> state_id s \<noteq> self)"

section \<open>Announcing without interruption\<close>

text \<open>An announcement of any of the identifiers \<open>ids\<close> fits in a message.\<close>

definition ids_fit :: "('p::linorder, 'k) env \<Rightarrow> Ecdh \<Rightarrow> 'p set \<Rightarrow> bool" where
  "ids_fit env ecdh ids \<longleftrightarrow>
     finite ids \<and> length (dh_public ecdh) + (\<Sum>i \<in> ids. length (Identifier_binary env i)) \<le> 65535"

lemma ids_fit_announceable:
  assumes "ids_fit env (mEcdh w) ids" "{j. routing_hasNeighbor j w} \<subseteq> ids"
  shows "announceable env self w"
proof -
  have "(\<Sum>i \<in> set (routing_neighbors w). length (Identifier_binary env i))
      \<le> (\<Sum>i \<in> ids. length (Identifier_binary env i))"
    using assms by (intro sum_mono2) (simp_all add: ids_fit_def routing_neighbors_set)
  then show ?thesis
    using assms(1)
    by (simp add: announceable_neighbors length_concat_distinct [OF routing_neighbors_distinct] ids_fit_def)
qed

definition own_neighbors :: "'p \<Rightarrow> ('p, 'z) graph_scheme \<Rightarrow> 'p set" where
  "own_neighbors self w = (case graph_state w self of None \<Rightarrow> {} | Some st \<Rightarrow> set (st_neighbors st))"

text \<open>Every neighbour is there, and nothing else but stale identifiers.\<close>

definition covers :: "'p set \<Rightarrow> 'p set \<Rightarrow> 'p set \<Rightarrow> bool" where
  "covers stale ids links \<longleftrightarrow> ids \<subseteq> links \<and> links \<subseteq> ids \<union> stale"

text \<open>A thread that will still bring the links of the local node up to date.\<close>

fun repairs :: "'p set \<Rightarrow> 'p set \<Rightarrow> 'p announcer option \<Rightarrow> bool" where
  "repairs stale ids (Some Noticed) = True"
| "repairs stale ids (Some (Counted neighbors)) = covers stale ids (set neighbors)"
| "repairs stale ids (Some Announcing) = True"
| "repairs stale ids _ = False"

fun before_announcement :: "'p announcer option \<Rightarrow> bool" where
  "before_announcement None = True"
| "before_announcement (Some Noticed) = True"
| "before_announcement (Some (Counted neighbors)) = True"
| "before_announcement (Some Announcing) = True"
| "before_announcement _ = False"

definition threads_inv ::
    "('p::linorder, 'k) env \<Rightarrow> 'p \<Rightarrow> Ecdh \<Rightarrow> 'p set \<Rightarrow> ('p \<times> channel) set \<Rightarrow> 'p set \<Rightarrow> ('p, 'z) threads \<Rightarrow> bool" where
  "threads_inv env self ecdh ids pairs stale s \<longleftrightarrow>
     (case s of (w, th) \<Rightarrow>
        graph_sound env self w \<and> mEcdh w = ecdh \<and> {j. routing_hasNeighbor j w} \<subseteq> ids
        \<and> set (mNeighbors w) \<subseteq> pairs
        \<and> (\<forall>t. before_announcement (th t))
        \<and> (\<forall>i. i \<noteq> self \<longrightarrow>
             graph_links w i = (case graph_state w i of None \<Rightarrow> {} | Some st \<Rightarrow> set (st_neighbors st)))
        \<and> (graph_links w self = own_neighbors self w \<or> (\<exists>t. th t = Some Announcing))
        \<and> (covers stale {j. routing_hasNeighbor j w} (graph_links w self)
           \<or> (\<exists>t. repairs stale {j. routing_hasNeighbor j w} (th t))))"

text \<open>A thread that is not \<open>t\<close> is not moved by a step of \<open>t\<close>.\<close>

lemma other_thread: "\<exists>s. P (th s) \<Longrightarrow> \<not> P (th t) \<Longrightarrow> \<exists>s. P ((th(t := x)) s)"
  by (metis fun_upd_other)

text \<open>A change of the channels and neighbours leaves the graph as it is.\<close>

lemma routing_change_sound:
  assumes "graph_sound env self w" "mEcdh w = ecdh" "ids_fit env ecdh ids"
    and w': "w' = w\<lparr>rtc_handler := h, mChannels := cs, mNeighbors := m\<rparr>" and ids: "{j. routing_hasNeighbor j w'} \<subseteq> ids"
  shows "graph_state w' i = graph_state w i" "graph_links w' i = graph_links w i" "graph_sound env self w'" "mEcdh w' = ecdh"
proof -
  have find: "graph_findVertice i w' = graph_findVertice i w" for i
    by (simp add: w' graph_findVertice_def)
  show views: "graph_state w' i = graph_state w i" "graph_links w' i = graph_links w i" for i
    by (simp_all add: w' graph_state_def graph_links_def find [unfolded w'] cong: option.case_cong)
  show ecdh: "mEcdh w' = ecdh"
    using assms(2) by (simp add: w')
  have "table_ok self w' = table_ok self w"
    by (rule table_ok_cong) (simp_all only: views, simp_all add: w')
  moreover have "local_ok self w' = local_ok self w"
    by (rule local_ok_cong) (simp_all only: views, simp_all add: w')
  moreover have "announceable env self w'"
    using ids_fit_announceable [OF _ ids] assms(3) ecdh by simp
  moreover have "graph_wf w' = graph_wf w"
    by (simp add: w' graph_wf_def)
  ultimately show "graph_sound env self w'"
    using assms(1) by (simp add: graph_sound_def)
qed

lemma neighbors_change:
  assumes "threads_inv env self ecdh ids pairs stale (w, th)" "ids_fit env ecdh ids" "th t = None"
    and w': "w' = w\<lparr>mNeighbors := m\<rparr>" and ids: "{j. routing_hasNeighbor j w'} \<subseteq> ids"
    and pairs: "set m \<subseteq> pairs"
  shows "threads_inv env self ecdh ids pairs stale (w', th(t \<mapsto> Noticed))"
proof -
  have "w' = w\<lparr>rtc_handler := rtc_handler w, mChannels := mChannels w, mNeighbors := m\<rparr>"
    by (simp add: w')
  note views = routing_change_sound [OF _ _ assms(2) this ids]
  have w: "graph_sound env self w" "mEcdh w = ecdh"
    using assms(1) by (simp_all add: threads_inv_def)
  note sound = views(3,4) [OF w] and same = views(1,2) [OF w]
  have announcing: "\<exists>s. (th(t \<mapsto> Noticed)) s = Some Announcing" if "\<exists>s. th s = Some Announcing"
  proof -
    from that obtain s where "th s = Some Announcing" ..
    then show ?thesis
      using assms(3) by (intro exI [of _ s]) auto
  qed
  have repairs: "\<exists>s. repairs stale {j. routing_hasNeighbor j w'} ((th(t \<mapsto> Noticed)) s)"
    by (intro exI [of _ t]) simp
  have "graph_links w' self = own_neighbors self w' \<or> (\<exists>s. (th(t \<mapsto> Noticed)) s = Some Announcing)"
    using assms(1) announcing by (simp only: threads_inv_def own_neighbors_def same split) blast
  moreover have "\<forall>s. before_announcement ((th(t \<mapsto> Noticed)) s)"
    using assms(1) by (simp add: threads_inv_def)
  moreover have "set (mNeighbors w') \<subseteq> pairs"
    using pairs by (simp add: w')
  ultimately show ?thesis
    using assms(1) sound ids repairs by (simp add: threads_inv_def same del: fun_upd_apply)
qed

text \<open>A channel that closes takes neighbours away whose identifiers are stale from then on.\<close>

lemma threads_inv_channels:
  assumes "threads_inv env self ecdh ids pairs stale (w, th)" "ids_fit env ecdh ids"
    and w': "w' = w\<lparr>rtc_handler := h, mChannels := cs, mNeighbors := m\<rparr>"
    and fewer: "set m \<subseteq> set (mNeighbors w)" and dropped: "fst ` (set (mNeighbors w) - set m) \<subseteq> stale"
  shows "threads_inv env self ecdh ids pairs stale (w', th)"
proof -
  let ?N = "{j. routing_hasNeighbor j w}" and ?N' = "{j. routing_hasNeighbor j w'}"
  have sub: "?N' \<subseteq> ?N" "?N \<subseteq> ?N' \<union> stale"
    using fewer dropped by (auto simp: routing_hasNeighbor_def um_find_None_iff um_keys_def w' image_iff)
  have w: "graph_sound env self w" "mEcdh w = ecdh" and ids: "?N' \<subseteq> ids"
    using assms(1) sub(1) by (auto simp: threads_inv_def)
  note views = routing_change_sound [OF w assms(2) w' ids]
  have still: "covers stale ?N X \<Longrightarrow> covers stale ?N' X" for X
    using sub unfolding covers_def by blast
  then have "repairs stale ?N a \<Longrightarrow> repairs stale ?N' a" for a
    by (induction stale ?N a rule: repairs.induct) simp_all
  then have "covers stale ?N' (graph_links w self) \<or> (\<exists>t. repairs stale ?N' (th t))"
    using assms(1) still unfolding threads_inv_def prod.case by blast
  moreover have "set (mNeighbors w') \<subseteq> pairs"
    using assms(1) fewer by (auto simp: threads_inv_def w')
  ultimately show ?thesis
    using assms(1) views(3,4) ids by (simp add: threads_inv_def own_neighbors_def views(1,2))
qed

lemma threads_inv_adds:
  assumes "threads_inv env self ecdh ids pairs stale s" "ids_fit env ecdh ids" "i \<in> ids" "(i, c) \<in> pairs"
  shows "threads_inv env self ecdh ids pairs stale (thread_step u stack env pair (Adds t i c) s)"
proof -
  obtain w th where s: "s = (w, th)"
    by force
  have ids: "{j. routing_hasNeighbor j w} \<subseteq> ids"
    using assms(1) by (simp add: s threads_inv_def)
  show ?thesis
  proof (cases "th t = None \<and> fst (routing_addNeighbor i c w) \<noteq> None")
    case True
    then have added: "routing_addNeighbor i c w =
        (Some (NeighborEvent i (Some c)), w\<lparr>mNeighbors := um_emplace i c (mNeighbors w)\<rparr>)"
      by (auto simp: routing_addNeighbor_def split: if_splits)
    have "{j. routing_hasNeighbor j (w\<lparr>mNeighbors := um_emplace i c (mNeighbors w)\<rparr>)} \<subseteq> ids"
      using ids assms(3) by (auto simp: routing_hasNeighbor_def um_finds split: if_splits)
    moreover have "set (um_emplace i c (mNeighbors w)) \<subseteq> pairs"
      using assms(1,4) by (auto simp: s threads_inv_def um_emplace_def split: option.split)
    moreover note neighbors_change [OF assms(1) [unfolded s] assms(2) _ refl, of t]
    ultimately show ?thesis
      using True
      by (simp add: s added)
  next
    case False
    then have "thread_step u stack env pair (Adds t i c) s = s"
      by (auto simp: s routing_addNeighbor_def)
    then show ?thesis
      using assms(1) by simp
  qed
qed

lemma threads_inv_removes:
  assumes "threads_inv env self ecdh ids pairs stale s" "ids_fit env ecdh ids"
  shows "threads_inv env self ecdh ids pairs stale (thread_step u stack env pair (Removes t i c) s)"
proof -
  obtain w th where s: "s = (w, th)"
    by force
  have ids: "{j. routing_hasNeighbor j w} \<subseteq> ids"
    using assms(1) by (simp add: s threads_inv_def)
  show ?thesis
  proof (cases "th t = None \<and> um_find (mNeighbors w) i = Some c")
    case True
    have "{j. routing_hasNeighbor j (w\<lparr>mNeighbors := um_erase i (mNeighbors w)\<rparr>)} \<subseteq> ids"
      using ids by (auto simp: routing_hasNeighbor_def um_finds split: if_splits)
    moreover have "set (um_erase i (mNeighbors w)) \<subseteq> pairs"
      using assms(1) by (auto simp: s threads_inv_def um_erase_def)
    moreover note neighbors_change [OF assms(1) [unfolded s] assms(2) _ refl, of t]
    ultimately show ?thesis
      using True
      by (simp add: s routing_removeNeighbor_def)
  next
    case False
    then have "thread_step u stack env pair (Removes t i c) s = s"
      by (auto simp: s routing_removeNeighbor_def)
    then show ?thesis
      using assms(1) by simp
  qed
qed

lemma threads_inv_opens_closes:
  assumes "threads_inv env self ecdh ids pairs stale s" "ids_fit env ecdh ids"
  shows "threads_inv env self ecdh ids pairs stale (thread_step u stack env pair (Opens c) s)"
    "{i. (i, c) \<in> pairs} \<subseteq> stale \<Longrightarrow> threads_inv env self ecdh ids pairs stale (thread_step u stack env pair (Closes c) s)"
proof -
  obtain w th where s: "s = (w, th)"
    by force
  note channels = threads_inv_channels [OF assms(1) [unfolded s] assms(2)]
  have "routing_addChannel c w = w\<lparr>rtc_handler := rtc_handler (routing_addChannel c w),
      mChannels := mChannels (routing_addChannel c w), mNeighbors := mNeighbors w\<rparr>"
    by (simp add: routing_addChannel_def Let_def)
  from channels [OF this] show "threads_inv env self ecdh ids pairs stale (thread_step u stack env pair (Opens c) s)"
    by (simp add: s)
  have remove: "routing_removeChannel c w = w\<lparr>rtc_handler := rtc_handler (routing_removeChannel c w),
      mChannels := mChannels (routing_removeChannel c w), mNeighbors := filter (\<lambda>p. snd p \<noteq> c) (mNeighbors w)\<rparr>"
    by (simp add: routing_removeChannel_def)
  have "fst ` (set (mNeighbors w) - set (filter (\<lambda>p. snd p \<noteq> c) (mNeighbors w))) \<subseteq> {i. (i, c) \<in> pairs}"
    using assms(1) by (auto simp: s threads_inv_def)
  then show "{i. (i, c) \<in> pairs} \<subseteq> stale \<Longrightarrow>
      threads_inv env self ecdh ids pairs stale (thread_step u stack env pair (Closes c) s)"
    using channels [OF remove] by (auto simp: s)
qed

lemma threads_inv_accepts:
  assumes "threads_inv env self ecdh ids pairs stale s" "self = pair_public pair" "state_id st \<noteq> self"
  shows "threads_inv env self ecdh ids pairs stale (thread_step u (Suc n) env pair (Accepts st) s)"
proof -
  obtain w th where s: "s = (w, th)"
    by force
  have sound: "graph_sound env self w"
    using assms(1) by (simp add: s threads_inv_def)
  show ?thesis
  proof (cases "newer st (graph_state w (state_id st))")
    case False
    then have "graph_findVertice (state_id st) w \<noteq> None"
      using graph_absent by (fastforce simp: newer_def)
    then have "thread_step u (Suc n) env pair (Accepts st) s = s"
      using insert_rejected [of w st "Suc (Suc n)" env pair] False sound by (simp add: s graph_insert_def graph_sound_def)
    then show ?thesis
      using assms(1) by simp
  next
    case True
    then obtain w' where w': "graph_insert (Suc (Suc (Suc n))) env pair st w = (Return True, w')"
      "graph_sound env self w'" "accepted_effect env pair st w w'"
      using insert_accepted_sound [OF sound assms(2,3), of n] by (auto simp: graph_insert_def)
    let ?b = "rekeyed st (graph_state w (state_id st))"
    have frame: "node_frame w w'" and state: "\<And>j. graph_state w' j =
        (if j = state_id st then Some st else if ?b \<and> j = self then Some (local_announcement self w) else graph_state w j)"
      and links: "\<And>j. graph_links w' j =
        (if j = state_id st then set (st_neighbors st)
         else if ?b \<and> j = self then set (st_neighbors (local_announcement self w)) else graph_links w j)"
      using w'(3) by (simp_all add: accepted_effect_def Let_def assms(2))
    have ns: "{j. routing_hasNeighbor j w'} = {j. routing_hasNeighbor j w}" "mEcdh w' = mEcdh w" "mNeighbors w' = mNeighbors w"
      using frame by (simp_all add: node_frame_def routing_hasNeighbor_def)
    have ann: "set (st_neighbors (local_announcement self w)) = {j. routing_hasNeighbor j w}"
      by (simp add: local_announcement_def routing_neighbors_set)
    have "thread_step u (Suc n) env pair (Accepts st) s = (w', th)"
      using w'(1) by (simp add: s)
    then show ?thesis
      using assms(1,3) w'(2) by (cases ?b) (simp_all add: s threads_inv_def ns own_neighbors_def state links ann covers_def)
  qed
qed

lemma broadcast_sound:
  assumes "graph_sound env self w" "self = pair_public pair"
  shows "\<exists>w'. graph_broadcastState (Suc (Suc n)) env pair w = (Return (), w') \<and> graph_sound env self w'
    \<and> announced env pair w w' \<and> node_frame w w'
    \<and> (\<forall>i. graph_state w' i = (if i = self then Some (local_announcement self w) else graph_state w i))
    \<and> (\<forall>i. graph_links w' i = (if i = self then {j. routing_hasNeighbor j w} else graph_links w i))"
proof -
  obtain w' where w': "graph_broadcastState (Suc (Suc n)) env pair w = (Return (), w')" "announced env pair w w'"
    "graph_wf w'" "table_ok self w'"
    "\<forall>i. graph_state w' i = (if i = self then Some (local_announcement self w) else graph_state w i)"
    "\<forall>i. graph_links w' i = (if i = self then set (routing_neighbors w) else graph_links w i)"
    using broadcastState_announced [OF _ _ _ _ assms(2), of w env n] assms(1) by (auto simp: graph_sound_def)
  note f = announced_fields [OF w'(2)]
  have "local_ok self w'"
    using w'(5) f by (simp add: local_ok_def local_announcement_def State_new_def node_frame_def)
  then have "graph_sound env self w'"
    using assms(1) w'(3,4) announceable_frame [OF f(1), of env self] by (simp add: graph_sound_def)
  then show ?thesis
    using w' f by (intro exI [of _ w']) (simp add: routing_neighbors_set)
qed

lemma threads_inv_runs:
  assumes "threads_inv env self ecdh ids pairs stale s" "self = pair_public pair"
  shows "threads_inv env self ecdh ids pairs stale (thread_step True (Suc n) env pair (Runs t) s)"
proof -
  obtain w th where s: "s = (w, th)"
    by force
  let ?N = "{j. routing_hasNeighbor j w}"
  have sound: "graph_sound env self w" "before_announcement (th t)"
    and inv: "threads_inv env self ecdh ids pairs stale (w, th)"
    using assms(1) by (simp_all add: s threads_inv_def)
  have before: "\<forall>u. before_announcement ((th(t := x)) u)" if "before_announcement x" for x
    using inv that by (simp add: threads_inv_def)
  show ?thesis
  proof (cases "th t")
    case None
    then show ?thesis
      using inv by (simp add: s)
  next
    case (Some a)
    consider "a = Noticed" | ns where "a = Counted ns" | "a = Announcing"
      using sound(2) Some by (cases a) auto
    then show ?thesis
    proof cases
      case 1
      then have "thread_step True (Suc n) env pair (Runs t) s = (w, th(t \<mapsto> Counted (routing_neighbors w)))"
        using Some by (simp add: s)
      moreover have "\<exists>u. repairs stale ?N ((th(t \<mapsto> Counted (routing_neighbors w))) u)"
        by (intro exI [of _ t]) (simp add: routing_neighbors_set covers_def)
      moreover have "\<exists>u. (th(t \<mapsto> Counted (routing_neighbors w))) u = Some Announcing"
        if "\<exists>u. th u = Some Announcing"
        using other_thread [of "\<lambda>a. a = Some Announcing", OF that] Some 1 by simp
      ultimately show ?thesis
        using inv before [of "Some (Counted (routing_neighbors w))"] unfolding threads_inv_def
        by (simp del: fun_upd_apply) blast
    next
      case (2 ns)
      obtain l where l: "graph_findVertice self w = Some l"
        using sound(1) local_ok_find [of self w] by (auto simp: graph_sound_def)
      obtain w' where w': "graph_updateEdges self self ns w = (Return (graph_links w self \<noteq> set ns), w')"
        "graph_ext w w'" "\<forall>j. graph_links w' j = (if j = self then set ns else graph_links w j)"
        "table_ok self w'" "graph_links w self = set ns \<longrightarrow> w' = w"
        using updateEdges_view [OF _ _ l l, of ns] sound(1) by (auto simp: graph_sound_def)
      show ?thesis
      proof (cases "graph_links w self = set ns")
        case True
        then have step: "thread_step True (Suc n) env pair (Runs t) s = (w, th(t := None))"
          using Some 2 w'(1,5) assms(2) by (simp add: s)
        have "\<exists>u. repairs stale ?N ((th(t := None)) u)"
          if "\<not> covers stale ?N (graph_links w self)" "\<exists>u. repairs stale ?N (th u)"
          using other_thread [of "repairs stale ?N", OF that(2)] Some 2 that(1) True by simp
        moreover have "\<exists>u. (th(t := None)) u = Some Announcing" if "\<exists>u. th u = Some Announcing"
          using other_thread [of "\<lambda>a. a = Some Announcing", OF that] Some 2 by simp
        ultimately show ?thesis
          using inv before [of None] unfolding step threads_inv_def by (simp del: fun_upd_apply) blast
      next
        case False
        then have step: "thread_step True (Suc n) env pair (Runs t) s = (w', th(t \<mapsto> Announcing))"
          using Some 2 w'(1) assms(2) by (simp add: s)
        have frame: "graph_frame w w'" and wf: "graph_wf w'" and state: "\<And>i. graph_state w' i = graph_state w i"
          using w'(2) by (simp_all add: graph_ext_def)
        note f = graph_frame_fields [OF frame]
        have "graph_sound env self w'"
          using sound(1) wf w'(4) announceable_frame [OF graph_frame_node [OF frame], of env self]
            local_ok_cong [OF state f(3,4)] by (simp add: graph_sound_def)
        moreover have "\<exists>u. (th(t \<mapsto> Announcing)) u = Some Announcing"
          by (intro exI [of _ t]) simp
        moreover from this have "\<exists>u. repairs stale {j. routing_hasNeighbor j w'} ((th(t \<mapsto> Announcing)) u)"
          by (metis repairs.simps(3))
        moreover have "{j. routing_hasNeighbor j w'} = ?N" "mNeighbors w' = mNeighbors w"
          using f(1) by (simp_all add: routing_hasNeighbor_def)
        ultimately show ?thesis
          using inv w'(3) f(3) before [of "Some Announcing"] unfolding step threads_inv_def
          by (simp add: state del: fun_upd_apply)
      qed
    next
      case 3
      obtain w' where w': "graph_broadcastState (Suc (Suc n)) env pair w = (Return (), w')" "graph_sound env self w'"
        "node_frame w w'" "\<And>i. graph_state w' i = (if i = self then Some (local_announcement self w) else graph_state w i)"
        "\<And>i. graph_links w' i = (if i = self then ?N else graph_links w i)"
        using broadcast_sound [OF sound(1) assms(2), of n] by auto
      have step: "thread_step True (Suc n) env pair (Runs t) s = (w', th(t := None))"
        using Some 3 w'(1) announcer_run_broadcast [of "Suc n" env pair w] by (simp add: s del: announcer_run.simps)
      have "{j. routing_hasNeighbor j w'} = ?N" "mEcdh w' = mEcdh w" "mNeighbors w' = mNeighbors w"
        using w'(3) by (simp_all add: node_frame_def routing_hasNeighbor_def)
      moreover have "own_neighbors self w' = ?N"
        using w'(4) by (simp add: own_neighbors_def local_announcement_def routing_neighbors_set)
      ultimately show ?thesis
        using inv w'(2) before [of None] unfolding step threads_inv_def by (simp add: w'(4,5) covers_def del: fun_upd_apply)
    qed
  qed
qed

lemma threads_inv_run:
  assumes "threads_inv env self ecdh ids pairs stale s" "ids_fit env ecdh ids" "self = pair_public pair"
    "added_ids evs \<subseteq> ids" "only_others self evs"
    "{(i, c). \<exists>t. Adds t i c \<in> set evs} \<subseteq> pairs" "{i. \<exists>c. Closes c \<in> set evs \<and> (i, c) \<in> pairs} \<subseteq> stale"
  shows "threads_inv env self ecdh ids pairs stale (thread_run True (Suc n) env pair evs s)"
  using assms(1,4-7) unfolding thread_run_def
proof (induction evs arbitrary: s)
  case Nil
  then show ?case
    by simp
next
  case (Cons ev evs)
  have "threads_inv env self ecdh ids pairs stale (thread_step True (Suc n) env pair ev s)"
  proof (cases ev)
    case (Adds t i c)
    then have "i \<in> ids" "(i, c) \<in> pairs"
      using Cons.prems(2,4) by (auto simp: added_ids_def)
    then show ?thesis
      using threads_inv_adds [OF Cons.prems(1) assms(2)] Adds by blast
  next
    case (Removes t i c)
    then show ?thesis
      using threads_inv_removes [OF Cons.prems(1) assms(2)] by blast
  next
    case (Opens c)
    then show ?thesis
      using threads_inv_opens_closes(1) [OF Cons.prems(1) assms(2)] by blast
  next
    case (Closes c)
    then have "{i. (i, c) \<in> pairs} \<subseteq> stale"
      using Cons.prems(5) by auto
    then show ?thesis
      using threads_inv_opens_closes(2) [OF Cons.prems(1) assms(2)] Closes by blast
  next
    case (Runs t)
    then show ?thesis
      using threads_inv_runs [OF Cons.prems(1) assms(3)] by blast
  next
    case (Accepts st)
    then have "state_id st \<noteq> self"
      using Cons.prems(3) by (simp add: only_others_def)
    then show ?thesis
      using threads_inv_accepts [OF Cons.prems(1) assms(3)] Accepts by blast
  qed
  moreover have "added_ids evs \<subseteq> ids" "only_others self evs" "{(i, c). \<exists>t. Adds t i c \<in> set evs} \<subseteq> pairs"
      "{i. \<exists>c. Closes c \<in> set evs \<and> (i, c) \<in> pairs} \<subseteq> stale"
    using Cons.prems(2-5) by (auto simp: added_ids_def only_others_def)
  ultimately show ?case
    using Cons.IH by simp
qed

text \<open>C7: if no call of \<open>broadcastState\<close> is interrupted (and \<open>updateEdges\<close> and the acceptance of a
  state are single steps, as under the mutex that \<open>notify\<close> does not take), then however threads
  interleave the rest of the branch with neighbours added and removed, channels added and removed
  and announcements of other nodes, no neighbour is lost, in a node whose links list all its
  neighbours at the start and whose neighbour lists all fit in a message: as soon as no thread is
  inside the branch, the announced neighbours of the local node, its links and the entries of the
  routing table are the same and contain all its neighbours, though each thread looked at the
  neighbours at its own time and an old set may have been installed in between. They
  contain nothing else but identifiers that were listed without being neighbours at the start or
  were reached through a channel that the schedule removed, since \<open>removeChannel\<close> drops neighbours
  without an event; so without such closings they are exactly its neighbours.\<close>

theorem uninterrupted_announcements_settle:
  assumes "graph_ready env (pair_public pair) w"
    and "{j. routing_hasNeighbor j w} \<subseteq> graph_links w (pair_public pair)"
    and "ids_fit env (mEcdh w) ({j. routing_hasNeighbor j w} \<union> added_ids evs)"
    and "only_others (pair_public pair) evs" and "0 < stack"
    and "thread_run True stack env pair evs (w, \<lambda>_. None) = (w', \<lambda>_. None)"
  shows "graph_ready env (pair_public pair) w'
    \<and> {j. routing_hasNeighbor j w'} \<subseteq> graph_links w' (pair_public pair)
    \<and> graph_links w' (pair_public pair) \<subseteq> {j. routing_hasNeighbor j w'} \<union> stale_ids (pair_public pair) w evs
    \<and> (\<exists>st. graph_get (pair_public pair) w' = Inr st \<and> set (st_neighbors st) = graph_links w' (pair_public pair))
    \<and> (\<forall>j. rt_findNextHop (graph_routingTable w') j =
         (if j \<in> graph_links w' (pair_public pair) \<and> j \<noteq> pair_public pair then Some j else None))"
proof -
  let ?self = "pair_public pair" and ?ids = "{j. routing_hasNeighbor j w} \<union> added_ids evs"
  let ?pairs = "set (mNeighbors w) \<union> {(i, c). \<exists>t. Adds t i c \<in> set evs}" and ?stale = "stale_ids (pair_public pair) w evs"
  obtain n where n: "stack = Suc n"
    using assms(5) gr0_implies_Suc by blast
  have "threads_inv env ?self (mEcdh w) ?ids ?pairs ?stale (w, \<lambda>_. None)"
    using assms(1,2) by (auto simp: threads_inv_def graph_ready_sound own_neighbors_def covers_def stale_ids_def)
  moreover have "{i. \<exists>c. Closes c \<in> set evs \<and> (i, c) \<in> ?pairs} \<subseteq> ?stale"
    by (auto simp: stale_ids_def)
  ultimately have inv: "threads_inv env ?self (mEcdh w) ?ids ?pairs ?stale (w', \<lambda>_. None)"
    using threads_inv_run [of env ?self "mEcdh w" ?ids ?pairs ?stale "(w, \<lambda>_. None)" pair evs n] assms(3,4,6) by (simp add: n)
  then have sound: "graph_sound env ?self w'" and links: "covers ?stale {j. routing_hasNeighbor j w'} (graph_links w' ?self)"
    "graph_links w' ?self = own_neighbors ?self w'"
    and others: "i \<noteq> ?self \<Longrightarrow> graph_links w' i = (case graph_state w' i of None \<Rightarrow> {} | Some st \<Rightarrow> set (st_neighbors st))" for i
    by (simp_all add: threads_inv_def) metis
  have all: "graph_links w' i = (case graph_state w' i of None \<Rightarrow> {} | Some st \<Rightarrow> set (st_neighbors st))" for i
    using links(2) others [of i] by (cases "i = ?self") (simp_all add: own_neighbors_def)
  obtain st where st: "graph_state w' ?self = Some st"
    using sound by (auto simp: graph_sound_def local_ok_def)
  then have "graph_get ?self w' = Inr st" "set (st_neighbors st) = graph_links w' ?self"
    using links(2) by (simp_all add: get_state own_neighbors_def)
  moreover have "table_ok ?self w'"
    using sound by (simp add: graph_sound_def)
  ultimately show ?thesis
    using sound links(1) all by (simp add: graph_ready_sound table_ok_def graph_routingTable_def covers_def)
qed

section \<open>Interrupted announcements\<close>

text \<open>
  What the steps look at while announcements overlap: the sequence number and the neighbours in
  the state recorded for the local node, its links, the neighbours, the counter, the channels and the key pair.
\<close>

definition midway ::
    "'p \<Rightarrow> 32 word \<times> 'p set \<Rightarrow> 'p set \<Rightarrow> 'p set \<Rightarrow> 32 word \<Rightarrow> channel set \<Rightarrow> Ecdh \<Rightarrow> ('p, 'z) graph_scheme \<Rightarrow> bool" where
  "midway self recorded links ids counter channels ecdh w \<longleftrightarrow>
     graph_wf w \<and> table_ok self w
     \<and> (\<forall>i. i \<noteq> self \<longrightarrow>
          graph_links w i = (case graph_state w i of None \<Rightarrow> {} | Some st \<Rightarrow> set (st_neighbors st)))
     \<and> (\<exists>st. graph_state w self = Some st \<and> (st_sequence st, set (st_neighbors st)) = recorded
          \<and> st_ecdhPublic st = dh_public ecdh)
     \<and> graph_links w self = links \<and> {j. routing_hasNeighbor j w} = ids \<and> mStateSequence w = counter
     \<and> set (mChannels w) = channels \<and> mEcdh w = ecdh"

lemma midway_ready:
  assumes "graph_ready env self w"
  shows "midway self (mStateSequence w - 1, graph_links w self) (graph_links w self) {j. routing_hasNeighbor j w}
    (mStateSequence w) (set (mChannels w)) (mEcdh w) w"
  using assms by (auto simp: midway_def graph_ready_def local_ok_def)

lemma midway_same_graph:
  assumes "midway self q ls ids k cs e w" "g_heap w' = g_heap w" "mVertices w' = mVertices w"
    "mRoutingTable w' = mRoutingTable w" "mTable w' = mTable w"
    "{j. routing_hasNeighbor j w'} = ids'" "mStateSequence w' = k'" "set (mChannels w') = cs" "mEcdh w' = e"
  shows "midway self q ls ids' k' cs e w'"
proof -
  have find: "graph_findVertice i w' = graph_findVertice i w" for i
    using assms by (simp add: graph_findVertice_def)
  have views: "graph_state w' i = graph_state w i" "graph_links w' i = graph_links w i" for i
    using assms by (simp_all add: graph_state_def graph_links_def find cong: option.case_cong)
  have "table_ok self w' = table_ok self w"
    by (rule table_ok_cong) (simp_all add: assms views)
  then show ?thesis
    using assms by (simp add: midway_def views graph_wf_def)
qed

lemma midway_add:
  assumes "midway self q ls ids k cs e w" "c \<in> cs" "i \<notin> ids"
  shows "\<exists>w'. routing_addNeighbor i c w = (Some (NeighborEvent i (Some c)), w')
    \<and> midway self q ls (insert i ids) k cs e w'"
proof -
  have "c \<in> set (mChannels w)" "um_find (mNeighbors w) i = None"
    using assms by (auto simp: midway_def routing_hasNeighbor_def)
  moreover have "midway self q ls (insert i ids) k cs e (w\<lparr>mNeighbors := um_emplace i c (mNeighbors w)\<rparr>)"
    by (rule midway_same_graph [OF assms(1)])
      (use assms(1) calculation(2) in \<open>auto simp: midway_def routing_hasNeighbor_def um_finds\<close>)
  ultimately show ?thesis
    by (simp add: routing_addNeighbor_def)
qed

lemma midway_edges:
  assumes "midway self q ls ids k cs e w" "self = pair_public pair" "ls \<noteq> set ns"
  shows "\<exists>w'. announcer_step stack env pair (Counted ns) w = (Some Announcing, w')
    \<and> midway self q (set ns) ids k cs e w'"
proof -
  obtain l where l: "graph_findVertice self w = Some l"
    using assms(1) by (auto simp: midway_def graph_state_def bind_eq_Some_conv)
  obtain w' where w': "graph_updateEdges self self ns w = (Return True, w')" "graph_ext w w'"
    "\<forall>j. graph_links w' j = (if j = self then set ns else graph_links w j)" "table_ok self w'"
    using updateEdges_view [OF _ _ l l, of ns] assms(1,3) by (auto simp: midway_def)
  have frame: "graph_frame w w'"
    using w'(2) by (simp add: graph_ext_def)
  have "midway self q (set ns) ids k cs e w'"
    using assms(1) w' graph_frame_fields [OF frame] by (simp add: midway_def graph_ext_def routing_hasNeighbor_def)
  then show ?thesis
    using w'(1) assms(2) by simp
qed

lemma midway_unchanged:
  assumes "midway self q (set ns) ids k cs e w" "self = pair_public pair"
  shows "announcer_step stack env pair (Counted ns) w = (None, w)"
proof -
  obtain l where "graph_findVertice self w = Some l"
    using assms(1) by (auto simp: midway_def graph_state_def bind_eq_Some_conv)
  then have "graph_updateEdges self self ns w = (Return False, w)"
    using updateEdges_view [of w self l self l ns] assms(1) by (auto simp: midway_def)
  then show ?thesis
    using assms(2) by simp
qed

lemma midway_count: "midway self q ls ids k cs e w \<Longrightarrow> set (routing_neighbors w) = ids"
  by (simp add: midway_def routing_neighbors_set)

lemma midway_number:
  assumes "midway self q ls ids k cs e w"
  shows "midway self q ls ids k' cs e (w\<lparr>mStateSequence := k'\<rparr>)"
  by (rule midway_same_graph [OF assms]) (use assms in \<open>simp_all add: midway_def routing_hasNeighbor_def\<close>)

lemma midway_compose:
  assumes "midway self q ls ids k cs e w" "self = pair_public pair" "ids_fit env e fit" "ids \<subseteq> fit"
  shows "\<exists>s. announcer_step stack env pair (Numbered n) w = (Some (Composed s), w) \<and> state_id s = self
    \<and> st_sequence s = n \<and> st_ecdhPublic s = dh_public e \<and> set (st_neighbors s) = ids
    \<and> length (State_body env s) \<le> 65535"
proof -
  let ?s = "(State_new self n (dh_public e))\<lparr>st_neighbors := routing_neighbors w\<rparr>"
  have e: "mEcdh w = e"
    using assms(1) by (simp add: midway_def)
  have "announceable env self w"
    using ids_fit_announceable [of env w fit] assms by (simp add: midway_def)
  then have "length (State_body env ?s) \<le> 65535"
    using e by (simp add: announceable_def State_body_layout local_announcement_def State_new_def)
  moreover have "announcer_step stack env pair (Numbered n) w = (Some (Composed ?s), w)"
    using e assms(2) by (simp add: State_new_def Ecdh_publicKey_def fold_oset_insert_id)
  ultimately show ?thesis
    using midway_count [OF assms(1)] by (intro exI [of _ ?s]) (simp add: State_new_def state_id_def)
qed

lemma midway_record:
  assumes "midway self q ls ids k cs e w" "self = pair_public pair" "state_id s = self"
    "st_ecdhPublic s = dh_public e" "length (State_body env s) \<le> 65535"
    "compare_sequence (st_sequence s) (fst q) > 0"
  shows "\<exists>m w'. announcer_step (Suc n) env pair (Composed s) w = (Some (Recorded m), w')
    \<and> midway self (st_sequence s, set (st_neighbors s)) (set (st_neighbors s)) ids k cs e w'"
proof -
  let ?u = "w\<lparr>entropy := entropy w + 1\<rparr>"
  obtain m where m: "State_toMessage env (entropy w) s pair = Inr m"
    using State_toMessage_fits [OF assms(5)] by blast
  have u: "midway self q ls ids k cs e ?u"
    by (rule midway_same_graph [OF assms(1)]) (use assms(1) in \<open>simp_all add: midway_def routing_hasNeighbor_def\<close>)
  then obtain st where st: "graph_wf ?u" "table_ok self ?u" "graph_state ?u self = Some st"
    "(st_sequence st, set (st_neighbors st)) = q" "st_ecdhPublic st = dh_public e"
    unfolding midway_def by blast
  obtain w' where w': "graph_updateVertice (Suc n) env pair s ?u = (Return True, w')" "graph_wf w'"
      "graph_frame ?u w'" "\<forall>i. graph_state w' i = (if i = self then Some s else graph_state ?u i)"
      "\<forall>i. graph_links w' i = (if i = self then set (st_neighbors s) else graph_links ?u i)" "table_ok self w'"
    using record_own [OF st(1-3) assms(3) _ _ assms(2), of n env] st(4,5) assms(4,6) by auto
  have "midway self (st_sequence s, set (st_neighbors s)) (set (st_neighbors s)) ids k cs e w'"
    using u w' assms(4) graph_frame_fields [OF w'(3)] by (simp add: midway_def routing_hasNeighbor_def)
  then show ?thesis
    using m w'(1) by (simp add: Let_def)
qed

lemma midway_send:
  assumes "midway self q ls ids k cs e w"
  shows "midway self q ls ids k cs e (routing_broadcast env m None w)"
  using assms node_frame_broadcast [of w env m None]
  by (simp add: midway_def node_frame_def routing_hasNeighbor_def)

text \<open>
  Three threads add one neighbour each. The first two have updated the links when they take
  their sequence numbers, one after the other; the second then reads the neighbours, and is
  held up. The third adds its neighbour, the first announces it with its lower number, so the
  third finds the links up to date. Now the second thread goes on: its number is higher, and
  its list is the old one.
\<close>

definition overtaking :: "'p \<Rightarrow> nat \<Rightarrow> 'p \<Rightarrow> nat \<Rightarrow> 'p \<Rightarrow> nat \<Rightarrow> 'p thread_event list" where
  "overtaking i ci j cj k ck =
     [Adds 0 i ci, Runs 0, Runs 0, Adds 1 j cj, Runs 1, Runs 1,
      Runs 0, Runs 0, Runs 1, Runs 1, Runs 1,
      Adds 2 k ck, Runs 0, Runs 0, Runs 0, Runs 2, Runs 2, Runs 1, Runs 1]"

lemma overtaking_run:
  assumes "midway self (q - 1, ids) ids ids q cs e w" "self = pair_public pair" "ids_fit env e fit"
    "{i, j, k} \<union> ids \<subseteq> fit" "distinct [i, j, k]" "i \<notin> ids" "j \<notin> ids" "k \<notin> ids" "{ci, cj, ck} \<subseteq> cs"
  shows "\<exists>w'. thread_run False (Suc n) env pair (overtaking i ci j cj k ck) (w, \<lambda>_. None) = (w', \<lambda>_. None)
    \<and> midway self (q + 1, {i, j} \<union> ids) ({i, j} \<union> ids) ({i, j, k} \<union> ids) (q + 2) cs e w'"
proof -
  let ?step = "announcer_step (Suc n) env pair" and ?i = "insert i ids" and ?j = "insert j (insert i ids)"
  let ?k = "insert k (insert j (insert i ids))"
  obtain w1 where w1: "routing_addNeighbor i ci w = (Some (NeighborEvent i (Some ci)), w1)"
    "midway self (q - 1, ids) ids ?i q cs e w1"
    using midway_add [OF assms(1), of ci i] assms by auto
  obtain w2 where w2: "?step (Counted (routing_neighbors w1)) w1 = (Some Announcing, w2)"
    "midway self (q - 1, ids) ?i ?i q cs e w2"
    using midway_edges [OF w1(2) assms(2), of "routing_neighbors w1"] midway_count [OF w1(2)] assms(6) by auto
  obtain w3 where w3: "routing_addNeighbor j cj w2 = (Some (NeighborEvent j (Some cj)), w3)"
    "midway self (q - 1, ids) ?i ?j q cs e w3"
    using midway_add [OF w2(2), of cj j] assms by auto
  have "?i \<noteq> ?j"
    using assms(5,7) by auto
  then obtain w4 where w4: "?step (Counted (routing_neighbors w3)) w3 = (Some Announcing, w4)"
    "midway self (q - 1, ids) ?j ?j q cs e w4"
    using midway_edges [OF w3(2) assms(2), of "routing_neighbors w3"] midway_count [OF w3(2)]
    by (metis midway_edges assms(2) w3(2))
  let ?w5 = "w4\<lparr>mStateSequence := q + 1\<rparr>" and ?w6 = "w4\<lparr>mStateSequence := q + 2\<rparr>"
  have counter: "mStateSequence w4 = q"
    using w4(2) by (simp add: midway_def)
  have w6: "midway self (q - 1, ids) ?j ?j (q + 2) cs e ?w6"
    by (rule midway_number [OF w4(2)])
  obtain s1 where s1: "?step (Numbered (q + 1)) ?w6 = (Some (Composed s1), ?w6)" "state_id s1 = self"
    "st_sequence s1 = q + 1" "st_ecdhPublic s1 = dh_public e" "set (st_neighbors s1) = ?j"
    "length (State_body env s1) \<le> 65535"
    using midway_compose [OF w6 assms(2,3)] assms(4) by auto
  obtain w7 where w7: "routing_addNeighbor k ck ?w6 = (Some (NeighborEvent k (Some ck)), w7)"
    "midway self (q - 1, ids) ?j ?k (q + 2) cs e w7"
    using midway_add [OF w6, of ck k] assms by auto
  obtain s0 where s0: "?step (Numbered q) w7 = (Some (Composed s0), w7)" "state_id s0 = self"
    "st_sequence s0 = q" "st_ecdhPublic s0 = dh_public e" "set (st_neighbors s0) = ?k"
    "length (State_body env s0) \<le> 65535"
    using midway_compose [OF w7(2) assms(2,3)] assms(4) by auto
  obtain m0 w8 where w8: "?step (Composed s0) w7 = (Some (Recorded m0), w8)"
    "midway self (q, ?k) ?k ?k (q + 2) cs e w8"
    using midway_record [OF w7(2) assms(2) s0(2,4,6), of n] s0(3,5) compare_sequence_succ [of q] by auto
  let ?w9 = "routing_broadcast env m0 None w8"
  have w9: "midway self (q, ?k) ?k ?k (q + 2) cs e ?w9"
    by (rule midway_send [OF w8(2)])
  have unchanged: "?step (Counted (routing_neighbors ?w9)) ?w9 = (None, ?w9)"
    using midway_unchanged [OF _ assms(2), of "(q, ?k)" "routing_neighbors ?w9"] w9 midway_count [OF w9] by simp
  have "compare_sequence (st_sequence s1) q > 0"
    using compare_sequence_succ [of "q + 1"] s1(3) by simp
  then have "compare_sequence (st_sequence s1) (fst (q, ?k)) > 0"
    by simp
  then obtain m1 w10 where w10: "?step (Composed s1) ?w9 = (Some (Recorded m1), w10)"
    "midway self (q + 1, ?j) ?j ?k (q + 2) cs e w10"
    using midway_record [OF w9 assms(2) s1(2,4,6), of n] s1(3,5) by auto
  let ?w' = "routing_broadcast env m1 None w10"
  have "midway self (q + 1, ?j) ?j ?k (q + 2) cs e ?w'"
    by (rule midway_send [OF w10(2)])
  moreover have "thread_run False (Suc n) env pair (overtaking i ci j cj k ck) (w, \<lambda>_. None) = (?w', \<lambda>_. None)"
    using w1(1) w2(1) w3(1) w4(1) counter s1(1) w7(1) s0(1) w8(1) unchanged w10(1)
    by (simp add: thread_run_def overtaking_def Let_def add.commute [of 2 q] del: announcer_step.simps(2,5,6) split del: if_split)
  ultimately show ?thesis
    by (intro exI [of _ ?w']) (simp add: insert_commute)
qed

text \<open>C8: as it is written the code can lose a neighbour. From any settled state, whose
  links are the neighbours and whose list with three more fits in a message, three
  threads that each add a neighbour can interleave so that all of them finish their branch and
  the neighbour added last is in the table of neighbours but not in the links of the local node,
  not in the list it announced last and not in the routing table, although every single access to
  the sequence counter, to the links and to the recorded state was undisturbed and the last
  announcement was accepted for its higher number. The node is left in a
  state that satisfies every invariant, so nothing notices until the neighbours change again.\<close>

theorem interrupted_announcement_loses:
  assumes "graph_ready env (pair_public pair) w"
    and "graph_links w (pair_public pair) = {j. routing_hasNeighbor j w}"
    and "ids_fit env (mEcdh w) ({a, b, c} \<union> {j. routing_hasNeighbor j w})"
    and "distinct [a, b, c]" and "\<not> routing_hasNeighbor a w" and "\<not> routing_hasNeighbor b w"
    and "\<not> routing_hasNeighbor c w" and "{ca, cb, cc} \<subseteq> set (mChannels w)" and "0 < stack"
  shows "\<exists>w' st. thread_run False stack env pair (overtaking a ca b cb c cc) (w, \<lambda>_. None) = (w', \<lambda>_. None)
    \<and> graph_ready env (pair_public pair) w' \<and> mStateSequence w' = mStateSequence w + 2 \<and> graph_get (pair_public pair) w' = Inr st
    \<and> st_sequence st = mStateSequence w + 1
    \<and> {j. routing_hasNeighbor j w'} = {a, b, c} \<union> {j. routing_hasNeighbor j w}
    \<and> set (st_neighbors st) = {a, b} \<union> {j. routing_hasNeighbor j w}
    \<and> graph_links w' (pair_public pair) = {a, b} \<union> {j. routing_hasNeighbor j w}
    \<and> rt_findNextHop (graph_routingTable w') c = None"
proof -
  let ?self = "pair_public pair" and ?N = "{j. routing_hasNeighbor j w}"
  obtain n where n: "stack = Suc n"
    using assms(9) gr0_implies_Suc by blast
  have "midway ?self (mStateSequence w - 1, ?N) ?N ?N (mStateSequence w) (set (mChannels w)) (mEcdh w) w"
    using midway_ready [OF assms(1)] assms(2) by simp
  then obtain w' where w': "thread_run False stack env pair (overtaking a ca b cb c cc) (w, \<lambda>_. None) = (w', \<lambda>_. None)"
    "midway ?self (mStateSequence w + 1, {a, b} \<union> ?N) ({a, b} \<union> ?N) ({a, b, c} \<union> ?N)
       (mStateSequence w + 2) (set (mChannels w)) (mEcdh w) w'"
    using overtaking_run [OF _ refl assms(3) subset_refl assms(4) _ _ _ assms(8)] assms(5-7) n
    by blast
  then obtain st where st: "graph_get ?self w' = Inr st" "st_sequence st = mStateSequence w + 1"
    "set (st_neighbors st) = {a, b} \<union> ?N"
    by (auto simp: midway_def get_state)
  have "announceable env ?self w'"
    using w'(2) ids_fit_announceable [OF _ subset_refl, of env w'] assms(3) by (simp add: midway_def)
  moreover have "graph_links w' i = (case graph_state w' i of None \<Rightarrow> {} | Some st \<Rightarrow> set (st_neighbors st))" for i
    using w'(2) by (cases "i = ?self") (auto simp: midway_def)
  ultimately have "graph_ready env ?self w'"
    using w'(2) by (auto simp: midway_def graph_ready_def local_ok_def)
  moreover have "rt_findNextHop (graph_routingTable w') c = None"
    using w'(2) assms(4,7) by (auto simp: midway_def table_ok_def graph_routingTable_def)
  ultimately show ?thesis
    using w' st by (auto simp: midway_def)
qed

section \<open>Concrete threads\<close>

definition demo_channel :: "nat graph" where
  "demo_channel = routing_addChannel 1 demo_start"

lemma demo_channel_ready:
  "graph_ready demo_env (pair_public demo_pair) demo_channel"
  "graph_links demo_channel (pair_public demo_pair) = {j. routing_hasNeighbor j demo_channel}"
  "\<not> routing_hasNeighbor j demo_channel" "mChannels demo_channel = [1]"
  "finite ids \<Longrightarrow> card ids \<le> 3 \<Longrightarrow> ids_fit demo_env (mEcdh demo_channel) ids"
proof -
  show "graph_ready demo_env (pair_public demo_pair) demo_channel"
    unfolding demo_channel_def by (rule graph_ready_addChannel [OF demo_start_ready(1)])
  show none: "\<not> routing_hasNeighbor j demo_channel" "mChannels demo_channel = [1]" for j
    by (simp_all add: demo_channel_def routing_hasNeighbor_def routing_addChannel_def Let_def demo_start_ready
        us_emplace_def)
  have "g_heap demo_channel = g_heap demo_start" "mVertices demo_channel = mVertices demo_start"
    by (simp_all add: demo_channel_def routing_addChannel_def Let_def)
  then have "graph_links demo_channel 7 = graph_links demo_start 7"
    by (simp add: graph_links_def graph_findVertice_def cong: option.case_cong)
  then show "graph_links demo_channel (pair_public demo_pair) = {j. routing_hasNeighbor j demo_channel}"
    using none by (simp add: demo_start_links demo_pair_def)
  have "mEcdh demo_channel = Ecdh_new demo_env 5"
    by (simp add: demo_channel_def routing_addChannel_def Let_def demo_start_ready)
  moreover have "length (Identifier_binary demo_env i) \<le> 33" for i
    by (simp add: demo_env_def identifier_defs)
  then have "(\<Sum>i \<in> ids. length (Identifier_binary demo_env i)) \<le> card ids * 33"
    using sum_bounded_above [of ids "\<lambda>i. length (Identifier_binary demo_env i)" 33] by simp
  ultimately show "finite ids \<Longrightarrow> card ids \<le> 3 \<Longrightarrow> ids_fit demo_env (mEcdh demo_channel) ids"
    by (simp add: ids_fit_def Ecdh_new_def demo_env_def)
qed

lemma counted_ends: "fst (announcer_step stack env pair (Counted ns) w) \<in> {None, Some Announcing}"
  by (simp split: prod.split outcome.split bool.split)

definition demo_schedule :: "nat thread_event list" where
  "demo_schedule = [Adds 0 8 1, Adds 1 9 1, Runs 1, Runs 0, Runs 0, Runs 1, Runs 1, Runs 0, Closes 2]"

lemma demo_schedule_ends:
  "\<exists>w'. thread_run True 1 demo_env demo_pair demo_schedule (demo_channel, \<lambda>_. None) = (w', \<lambda>_. None)"
proof -
  let ?u = "demo_channel\<lparr>mNeighbors := um_emplace 8 1 (mNeighbors demo_channel)\<rparr>"
  let ?w = "?u\<lparr>mNeighbors := um_emplace 9 1 (mNeighbors ?u)\<rparr>"
  have adds: "routing_addNeighbor 8 1 demo_channel = (Some (NeighborEvent 8 (Some 1)), ?u)"
    "routing_addNeighbor 9 1 ?u = (Some (NeighborEvent 9 (Some 1)), ?w)"
    using demo_channel_ready(3) [of 8] demo_channel_ready(3) [of 9]
    by (simp_all add: routing_addNeighbor_def routing_hasNeighbor_def demo_channel_ready(4) um_finds)
  have ends: "\<exists>x v. announcer_step 1 demo_env demo_pair (Counted ns) w = (x, v) \<and> (x = None \<or> x = Some Announcing)"
    for ns and w :: "nat graph"
    using counted_ends [of 1 demo_env demo_pair ns w] by (metis prod.collapse insertE singletonD)
  obtain x v where x: "announcer_step 1 demo_env demo_pair (Counted (routing_neighbors ?w)) ?w = (x, v)"
    "x = None \<or> x = Some Announcing"
    using ends by blast
  obtain y v' where y: "announcer_step 1 demo_env demo_pair (Counted (routing_neighbors ?w)) v = (y, v')"
    "y = None \<or> y = Some Announcing"
    using ends by blast
  show ?thesis
    using x y by (elim disjE) (auto simp: thread_run_def demo_schedule_def adds announcer_run_broadcast Let_def
      fun_eq_iff simp del: announcer_step.simps(2) One_nat_def)
qed

theorem uninterrupted_announcements_settle_witness:
  "\<exists>w'. thread_run True 1 demo_env demo_pair demo_schedule (demo_channel, \<lambda>_. None) = (w', \<lambda>_. None)
     \<and> graph_links w' (pair_public demo_pair) = {j. routing_hasNeighbor j w'}"
proof -
  have ids: "added_ids demo_schedule = {8, 9}"
    by (auto simp: added_ids_def demo_schedule_def)
  have "ids_fit demo_env (mEcdh demo_channel) ({j. routing_hasNeighbor j demo_channel} \<union> added_ids demo_schedule)"
    unfolding ids by (rule demo_channel_ready(5)) (simp_all add: demo_channel_ready(3))
  moreover have "only_others (pair_public demo_pair) demo_schedule"
    by (simp add: only_others_def demo_schedule_def)
  moreover obtain w' where "thread_run True 1 demo_env demo_pair demo_schedule (demo_channel, \<lambda>_. None) = (w', \<lambda>_. None)"
    using demo_schedule_ends by blast
  moreover have "(i, c) \<notin> set (mNeighbors demo_channel)" for i c
    using demo_channel_ready(3) [of i] by (force simp: routing_hasNeighbor_def um_find_None_iff um_keys_def)
  ultimately show ?thesis
    using uninterrupted_announcements_settle [OF demo_channel_ready(1) equalityD2 [OF demo_channel_ready(2)], of demo_schedule 1 w']
    by (auto simp: stale_ids_def demo_schedule_def demo_channel_ready(2,3) simp del: One_nat_def)
qed

theorem interrupted_announcement_loses_witness:
  "\<exists>w'. thread_run False 1 demo_env demo_pair (overtaking 8 1 9 1 10 1) (demo_channel, \<lambda>_. None) = (w', \<lambda>_. None)
     \<and> routing_hasNeighbor 10 w' \<and> rt_findNextHop (graph_routingTable w') 10 = None"
proof -
  have "ids_fit demo_env (mEcdh demo_channel) ({8, 9, 10} \<union> {j. routing_hasNeighbor j demo_channel})"
    by (rule demo_channel_ready(5)) (simp_all add: demo_channel_ready(3) card_insert_if)
  then obtain w' where "thread_run False 1 demo_env demo_pair (overtaking 8 1 9 1 10 1) (demo_channel, \<lambda>_. None) = (w', \<lambda>_. None)"
    "{j. routing_hasNeighbor j w'} = {8, 9, 10} \<union> {j. routing_hasNeighbor j demo_channel}"
    "rt_findNextHop (graph_routingTable w') 10 = None"
    using interrupted_announcement_loses [OF demo_channel_ready(1,2), of 8 9 10 1 1 1 1]
    by (auto simp: demo_channel_ready(3,4))
  then show ?thesis
    by auto
qed

end
