(* ===== verification/Lock_Order.thy ===== *)
theory Lock_Order
  imports Prelude
begin

text \<open>
  Locking in general: what a piece of code does to mutexes and to the data they guard, as far as
  its control flow decides it (a skeleton), the sequences of acquisitions, releases and accesses
  it can give rise to, threads that perform such sequences, and the discipline under which they
  neither block each other for good nor access the same data at once.
\<close>

section \<open>Skeletons and their traces\<close>

datatype mode = Shared | Exclusive

datatype ('m, 'v) action =
    Acquire mode 'm
  | Release 'm
  | Reads 'v
  | Writes 'v

text \<open>
  \<open>Hold md m s\<close> is a scope with a lock guard on \<open>m\<close> (\<open>std::unique_lock\<close>, \<open>std::lock_guard\<close>, or
  \<open>std::shared_lock\<close>), \<open>Either\<close> a branch on data, \<open>Repeat\<close> a loop, \<open>Catch\<close> a block whose
  exceptions are caught.
\<close>

datatype ('m, 'v) skeleton =
    Nop
  | Read 'v
  | Write 'v
  | Hold mode 'm "('m, 'v) skeleton"
  | Then "('m, 'v) skeleton" "('m, 'v) skeleton"
  | Either "('m, 'v) skeleton" "('m, 'v) skeleton"
  | Repeat "('m, 'v) skeleton"
  | Catch "('m, 'v) skeleton"

text \<open>
  \<open>traces s xs ok\<close>: the code can perform \<open>xs\<close>, and then returns (\<open>ok\<close>) or throws. Any code may
  throw before it does anything; a guard releases its mutex either way.
\<close>

inductive traces :: "('m, 'v) skeleton \<Rightarrow> ('m, 'v) action list \<Rightarrow> bool \<Rightarrow> bool" where
  throws: "traces s [] False"
| nop: "traces Nop [] True"
| reads: "traces (Read v) [Reads v] True"
| writes: "traces (Write v) [Writes v] True"
| hold: "traces s xs ok \<Longrightarrow> traces (Hold md m s) (Acquire md m # xs @ [Release m]) ok"
| then_first: "traces s xs False \<Longrightarrow> traces (Then s t) xs False"
| then_both: "traces s xs True \<Longrightarrow> traces t ys ok \<Longrightarrow> traces (Then s t) (xs @ ys) ok"
| either_left: "traces s xs ok \<Longrightarrow> traces (Either s t) xs ok"
| either_right: "traces t xs ok \<Longrightarrow> traces (Either s t) xs ok"
| repeat_end: "traces (Repeat s) [] True"
| repeat_throws: "traces s xs False \<Longrightarrow> traces (Repeat s) xs False"
| repeat_more: "traces s xs True \<Longrightarrow> traces (Repeat s) ys ok \<Longrightarrow> traces (Repeat s) (xs @ ys) ok"
| catch: "traces s xs ok \<Longrightarrow> traces (Catch s) xs True"

text \<open>
  The discipline, checked on the skeleton: a mutex is acquired above all those held around it,
  data that has a guard is read under the guard and written under the guard held exclusively.
\<close>

fun may_read :: "('v \<Rightarrow> 'm option) \<Rightarrow> ('m \<times> mode) list \<Rightarrow> 'v \<Rightarrow> bool" where
  "may_read guard held v = (case guard v of None \<Rightarrow> True | Some m \<Rightarrow> m \<in> fst ` set held)"

fun may_write :: "('v \<Rightarrow> 'm option) \<Rightarrow> ('m \<times> mode) list \<Rightarrow> 'v \<Rightarrow> bool" where
  "may_write guard held v = (case guard v of None \<Rightarrow> True | Some m \<Rightarrow> (m, Exclusive) \<in> set held)"

fun disciplined ::
    "('m \<Rightarrow> nat) \<Rightarrow> ('v \<Rightarrow> 'm option) \<Rightarrow> ('m \<times> mode) list \<Rightarrow> ('m, 'v) skeleton \<Rightarrow> bool" where
  "disciplined rank guard held Nop = True"
| "disciplined rank guard held (Read v) = may_read guard held v"
| "disciplined rank guard held (Write v) = may_write guard held v"
| "disciplined rank guard held (Hold md m s) \<longleftrightarrow>
     (\<forall>h \<in> set held. rank (fst h) < rank m) \<and> disciplined rank guard ((m, md) # held) s"
| "disciplined rank guard held (Then s t) \<longleftrightarrow> disciplined rank guard held s \<and> disciplined rank guard held t"
| "disciplined rank guard held (Either s t) \<longleftrightarrow> disciplined rank guard held s \<and> disciplined rank guard held t"
| "disciplined rank guard held (Repeat s) \<longleftrightarrow> disciplined rank guard held s"
| "disciplined rank guard held (Catch s) \<longleftrightarrow> disciplined rank guard held s"

text \<open>
  Performing actions with the mutexes \<open>held\<close>, innermost first: None as soon as the discipline is
  broken or a mutex is released out of turn.
\<close>

fun replay ::
    "('m \<Rightarrow> nat) \<Rightarrow> ('v \<Rightarrow> 'm option) \<Rightarrow> ('m \<times> mode) list \<Rightarrow> ('m, 'v) action list
     \<Rightarrow> ('m \<times> mode) list option" where
  "replay rank guard held [] = Some held"
| "replay rank guard held (Acquire md m # xs) =
     (if \<forall>h \<in> set held. rank (fst h) < rank m then replay rank guard ((m, md) # held) xs else None)"
| "replay rank guard held (Release m # xs) =
     (case held of [] \<Rightarrow> None | h # rest \<Rightarrow> if fst h = m then replay rank guard rest xs else None)"
| "replay rank guard held (Reads v # xs) = (if may_read guard held v then replay rank guard held xs else None)"
| "replay rank guard held (Writes v # xs) = (if may_write guard held v then replay rank guard held xs else None)"

lemma replay_traces:
  assumes "traces s xs ok" "disciplined rank guard held s"
  shows "replay rank guard held (xs @ ys) = replay rank guard held ys"
  using assms by (induction arbitrary: held ys rule: traces.induct) (simp_all del: may_read.simps may_write.simps)

section \<open>Threads\<close>

text \<open>
  Who holds each mutex, and what each thread has left to do. A mutex can be had exclusively when
  nobody holds it, and shared when nobody holds it exclusively; a thread does not take a mutex it
  holds.
\<close>

type_synonym ('m, 'v) lock_state = "('m \<Rightarrow> nat \<Rightarrow> mode option) \<times> (nat \<Rightarrow> ('m, 'v) action list)"

inductive lock_step :: "('m, 'v) lock_state \<Rightarrow> ('m, 'v) lock_state \<Rightarrow> bool" where
  acquire: "todo t = Acquire md m # xs \<Longrightarrow> holders m t = None \<Longrightarrow>
    (\<forall>u. holders m u \<noteq> None \<longrightarrow> md = Shared \<and> holders m u = Some Shared) \<Longrightarrow>
    lock_step (holders, todo) (holders(m := (holders m)(t \<mapsto> md)), todo(t := xs))"
| release: "todo t = Release m # xs \<Longrightarrow> holders m t \<noteq> None \<Longrightarrow>
    lock_step (holders, todo) (holders(m := (holders m)(t := None)), todo(t := xs))"
| access: "todo t = Reads v # xs \<or> todo t = Writes v # xs \<Longrightarrow>
    lock_step (holders, todo) (holders, todo(t := xs))"

inductive_cases lock_stepE: "lock_step (holders, todo) s'"

definition finished :: "('m, 'v) lock_state \<Rightarrow> bool" where
  "finished s \<longleftrightarrow> (\<forall>t. snd s t = [])"

definition stuck :: "('m, 'v) lock_state \<Rightarrow> bool" where
  "stuck s \<longleftrightarrow> \<not> finished s \<and> (\<forall>s'. \<not> lock_step s s')"

text \<open>
  A thread that can go on whatever the policy of the mutexes: an implementation may keep a reader
  waiting behind a writer that waits, so only a mutex nobody holds is sure to be had.
\<close>

definition can_go_on :: "('m, 'v) lock_state \<Rightarrow> nat \<Rightarrow> bool" where
  "can_go_on s t \<longleftrightarrow>
     (case snd s t of
        [] \<Rightarrow> False
      | Acquire md m # xs \<Rightarrow> \<forall>u. fst s m u = None
      | _ \<Rightarrow> True)"

text \<open>Two threads about to access the same data, one of them to write it.\<close>

definition race_on :: "'v \<Rightarrow> ('m, 'v) lock_state \<Rightarrow> bool" where
  "race_on v s \<longleftrightarrow>
     (\<exists>t u xs ys. t \<noteq> u \<and> snd s t = Writes v # xs \<and> (snd s u = Reads v # ys \<or> snd s u = Writes v # ys))"

text \<open>Every thread keeps the discipline in what it has left, and holds what it has acquired.\<close>

definition lock_inv :: "('m \<Rightarrow> nat) \<Rightarrow> ('v \<Rightarrow> 'm option) \<Rightarrow> ('m, 'v) lock_state \<Rightarrow> bool" where
  "lock_inv rank guard s \<longleftrightarrow>
     (\<forall>m t u. fst s m t = Some Exclusive \<longrightarrow> u \<noteq> t \<longrightarrow> fst s m u = None)
     \<and> (\<exists>held. \<forall>t. sorted_wrt (\<lambda>a b. rank (fst b) < rank (fst a)) (held t)
          \<and> (\<forall>m. fst s m t = map_of (held t) m)
          \<and> replay rank guard (held t) (snd s t) = Some [])"

text \<open>A step takes one action away, so a run is as long as the actions it has performed.\<close>

definition actions_left :: "nat \<Rightarrow> ('m, 'v) lock_state \<Rightarrow> nat" where
  "actions_left k s = (\<Sum>t<k. length (snd s t))"

lemma lock_step_actions:
  assumes "lock_step s s'" "\<forall>t\<ge>k. snd s t = []"
  shows "actions_left k s = Suc (actions_left k s') \<and> (\<forall>t\<ge>k. snd s' t = [])"
proof -
  obtain t a xs where t: "snd s t = a # xs" "snd s' = (snd s)(t := xs)"
    using assms(1) by (cases rule: lock_step.cases) auto
  then have "t < k"
    using assms(2) by (metis linorder_not_less list.discI)
  then have "actions_left k r = length (snd r t) + (\<Sum>u \<in> {..<k} - {t}. length (snd r u))"
    for r :: "('a, 'b) lock_state"
    unfolding actions_left_def by (simp add: sum.remove)
  then show ?thesis
    using t assms(2) by auto
qed

lemma lock_run_actions:
  assumes "(lock_step ^^ i) s s'" "\<forall>t\<ge>k. snd s t = []"
  shows "actions_left k s = i + actions_left k s' \<and> (\<forall>t\<ge>k. snd s' t = [])"
  using assms(1)
proof (induction i arbitrary: s')
  case 0
  then show ?case
    using assms(2) by simp
next
  case (Suc i)
  then obtain r where "(lock_step ^^ i) s r" "lock_step r s'"
    by auto
  then show ?case
    using Suc.IH lock_step_actions [of r s' k] by fastforce
qed

lemma finished_actions:
  assumes "\<forall>t\<ge>k. snd s t = []"
  shows "finished s \<longleftrightarrow> actions_left k s = 0"
  using assms by (auto simp: finished_def actions_left_def) (meson lessThan_iff linorder_not_less)

lemma distinct_held:
  fixes rank :: "'m \<Rightarrow> nat"
  shows "sorted_wrt (\<lambda>a b. rank (fst b) < rank (fst a)) held \<Longrightarrow> distinct (map fst held)"
  by (induction held) fastforce+

text \<open>A thread that runs alone performs whatever keeps the discipline.\<close>

lemma run_alone:
  fixes rank :: "'m \<Rightarrow> nat"
  assumes "replay rank guard held xs = Some held'" "sorted_wrt (\<lambda>a b. rank (fst b) < rank (fst a)) held"
    "\<And>m u. holders m u = (if u = t then map_of held m else None)" "todo t = xs @ ys"
  shows "\<exists>holders'. lock_step\<^sup>*\<^sup>* (holders, todo) (holders', todo(t := ys))
    \<and> (\<forall>m u. holders' m u = (if u = t then map_of held' m else None))"
  using assms
proof (induction xs arbitrary: held holders todo)
  case Nil
  then have "todo(t := ys) = todo"
    by auto
  with Nil show ?case
    by (intro exI [of _ holders]) auto
next
  case (Cons a xs)
  have "\<exists>held1 holders1. lock_step (holders, todo) (holders1, todo(t := xs @ ys))
      \<and> replay rank guard held1 xs = Some held' \<and> sorted_wrt (\<lambda>a b. rank (fst b) < rank (fst a)) held1
      \<and> (\<forall>m u. holders1 m u = (if u = t then map_of held1 m else None))"
  proof (cases a)
    case (Acquire md m)
    then have *: "\<forall>h \<in> set held. rank (fst h) < rank m" "replay rank guard ((m, md) # held) xs = Some held'"
      using Cons.prems(1) by (auto split: if_splits)
    then have sorted: "sorted_wrt (\<lambda>a b. rank (fst b) < rank (fst a)) ((m, md) # held)"
      using Cons.prems(2) by simp
    then have "map_of held m = None"
      using distinct_held [OF sorted] by (simp add: map_of_eq_None_iff)
    then have "lock_step (holders, todo) (holders(m := (holders m)(t \<mapsto> md)), todo(t := xs @ ys))"
      using Cons.prems(3,4) Acquire by (intro lock_step.acquire) simp_all
    then show ?thesis
      using * sorted Cons.prems(3)
      by (intro exI [of _ "(m, md) # held"] exI [of _ "holders(m := (holders m)(t \<mapsto> md))"]) simp
  next
    case (Release m)
    then obtain md rest where *: "held = (m, md) # rest" "replay rank guard rest xs = Some held'"
      using Cons.prems(1) by (auto split: list.splits if_splits)
    then have "map_of rest m = None"
      using distinct_held [OF Cons.prems(2)] by (simp add: map_of_eq_None_iff)
    moreover have "lock_step (holders, todo) (holders(m := (holders m)(t := None)), todo(t := xs @ ys))"
      using Cons.prems(3) [of m t] Cons.prems(4) Release *(1) by (intro lock_step.release) simp_all
    ultimately show ?thesis
      using * Cons.prems(2,3)
      by (intro exI [of _ rest] exI [of _ "holders(m := (holders m)(t := None))"]) auto
  next
    case (Reads v)
    then show ?thesis
      using Cons.prems lock_step.access [of todo t v "xs @ ys" holders]
      by (intro exI [of _ held] exI [of _ holders]) (simp split: if_splits del: may_read.simps)
  next
    case (Writes v)
    then show ?thesis
      using Cons.prems lock_step.access [of todo t v "xs @ ys" holders]
      by (intro exI [of _ held] exI [of _ holders]) (simp split: if_splits del: may_write.simps)
  qed
  then obtain held1 holders1 where step: "lock_step (holders, todo) (holders1, todo(t := xs @ ys))"
    and 1: "replay rank guard held1 xs = Some held'" "sorted_wrt (\<lambda>a b. rank (fst b) < rank (fst a)) held1"
    "\<And>m u. holders1 m u = (if u = t then map_of held1 m else None)"
    by blast
  obtain holders' where "lock_step\<^sup>*\<^sup>* (holders1, todo(t := xs @ ys)) (holders', todo(t := ys))"
    "\<forall>m u. holders' m u = (if u = t then map_of held' m else None)"
    using Cons.IH [OF 1, of "todo(t := xs @ ys)"] unfolding fun_upd_same fun_upd_upd by blast
  then show ?case
    using converse_rtranclp_into_rtranclp [of lock_step, OF step] by blast
qed

locale lock_order =
  fixes rank :: "'m \<Rightarrow> nat" and guard :: "'v \<Rightarrow> 'm option" and bound :: nat
  assumes bounded: "rank m < bound"
begin

lemma inv_start:
  assumes "\<And>t. replay rank guard [] (todo t) = Some []"
  shows "lock_inv rank guard (\<lambda>_ _. None, todo)"
  using assms by (auto simp: lock_inv_def intro: exI [of _ "\<lambda>_. []"])

lemma inv_thread:
  assumes "lock_inv rank guard (holders, todo)" "holders' = holders(m := (holders m)(t := x))"
    "sorted_wrt (\<lambda>a b. rank (fst b) < rank (fst a)) held" "\<And>n. holders' n t = map_of held n"
    "replay rank guard held xs = Some []"
    "\<And>u. x = Some Exclusive \<Longrightarrow> u \<noteq> t \<Longrightarrow> holders m u = None"
    "\<And>u. x \<noteq> None \<Longrightarrow> u \<noteq> t \<Longrightarrow> holders m u \<noteq> Some Exclusive"
  shows "lock_inv rank guard (holders', todo(t := xs))"
proof -
  obtain hs where hs: "\<And>u. sorted_wrt (\<lambda>a b. rank (fst b) < rank (fst a)) (hs u)"
    "\<And>u m. holders m u = map_of (hs u) m" "\<And>u. replay rank guard (hs u) (todo u) = Some []"
    using assms(1) unfolding lock_inv_def fst_conv snd_conv by blast
  have excl: "holders n s = Some Exclusive \<Longrightarrow> u \<noteq> s \<Longrightarrow> holders n u = None" for n s u
    using assms(1) by (simp add: lock_inv_def)
  have "holders' n s = Some Exclusive \<Longrightarrow> u \<noteq> s \<Longrightarrow> holders' n u = None" for n s u
    using excl [of n s u] assms(6) [of u] assms(7) [of s] unfolding assms(2)
    by (cases x) (auto split: if_splits)
  moreover have "\<forall>u. sorted_wrt (\<lambda>a b. rank (fst b) < rank (fst a)) ((hs(t := held)) u)
      \<and> (\<forall>n. holders' n u = map_of ((hs(t := held)) u) n)
      \<and> replay rank guard ((hs(t := held)) u) ((todo(t := xs)) u) = Some []"
    using hs assms(3-5) unfolding assms(2) by (auto simp: fun_upd_apply)
  ultimately show ?thesis
    unfolding lock_inv_def fst_conv snd_conv by blast
qed

lemma inv_step:
  assumes "lock_inv rank guard s" "lock_step s s'"
  shows "lock_inv rank guard s'"
proof -
  obtain holders todo where s: "s = (holders, todo)"
    by force
  obtain hs where ok: "\<And>u. sorted_wrt (\<lambda>a b. rank (fst b) < rank (fst a)) (hs u)"
    "\<And>u m. holders m u = map_of (hs u) m" "\<And>u. replay rank guard (hs u) (todo u) = Some []"
    using assms(1) unfolding s lock_inv_def fst_conv snd_conv by blast
  from assms(2) consider
      t md m xs where "s' = (holders(m := (holders m)(t := Some md)), todo(t := xs))" "todo t = Acquire md m # xs"
        "holders m t = None" "\<forall>u. holders m u \<noteq> None \<longrightarrow> md = Shared \<and> holders m u = Some Shared"
    | t m xs where "s' = (holders(m := (holders m)(t := None)), todo(t := xs))" "todo t = Release m # xs"
    | t v xs where "s' = (holders, todo(t := xs))" "todo t = Reads v # xs \<or> todo t = Writes v # xs"
    unfolding s by (elim lock_stepE) blast+
  then show ?thesis
  proof cases
    case (1 t md m xs)
    have above: "\<forall>h \<in> set (hs t). rank (fst h) < rank m" "replay rank guard ((m, md) # hs t) xs = Some []"
      using ok(3) [of t] 1(2) by (auto split: if_splits)
    show ?thesis
      unfolding 1(1)
      by (rule inv_thread [OF assms(1) [unfolded s] refl, where held = "(m, md) # hs t"])
        (use ok above 1(3,4) in auto)
  next
    case (2 t m xs)
    obtain h rest where rest: "hs t = h # rest" "fst h = m" "replay rank guard rest xs = Some []"
      using ok(3) [of t] 2(2) by (auto split: list.splits if_splits)
    have "m \<notin> fst ` set rest"
      using distinct_held [OF ok(1) [of t]] rest(1,2) by auto
    then have "map_of rest m = None"
      by (simp add: map_of_eq_None_iff)
    then show ?thesis
      unfolding 2(1)
      by (intro inv_thread [OF assms(1) [unfolded s] refl, where held = rest])
        (use ok(1) [of t] ok(2) [of _ t] rest in \<open>auto simp: fun_upd_apply split: prod.splits\<close>)
  next
    case (3 t v xs)
    have "replay rank guard (hs t) xs = Some []"
      using ok(3) [of t] 3(2) by (auto split: if_splits)
    then have "\<forall>u. sorted_wrt (\<lambda>a b. rank (fst b) < rank (fst a)) (hs u) \<and> (\<forall>m. holders m u = map_of (hs u) m)
        \<and> replay rank guard (hs u) ((todo(t := xs)) u) = Some []"
      using ok by simp
    then show ?thesis
      using assms(1) unfolding 3(1) s lock_inv_def fst_conv snd_conv by blast
  qed
qed

lemma next_action:
  assumes "lock_inv rank guard (holders, todo)" "todo t = a # xs"
  shows "case a of
      Acquire md m \<Rightarrow> holders m t = None \<and> (\<forall>n. holders n t \<noteq> None \<longrightarrow> rank n < rank m)
    | Release m \<Rightarrow> holders m t \<noteq> None
    | Reads v \<Rightarrow> \<forall>m. guard v = Some m \<longrightarrow> holders m t \<noteq> None
    | Writes v \<Rightarrow> \<forall>m. guard v = Some m \<longrightarrow> holders m t = Some Exclusive"
proof -
  obtain held where held: "sorted_wrt (\<lambda>a b. rank (fst b) < rank (fst a)) held"
    "\<And>m. holders m t = map_of held m" "replay rank guard held (a # xs) = Some []"
    using assms unfolding lock_inv_def fst_conv snd_conv by metis
  have rank_less: "rank n < rank m" if "map_of held n \<noteq> None" "\<forall>h \<in> set held. rank (fst h) < rank m" for m n
    using that map_of_SomeD [of held n] by fastforce
  show ?thesis
  proof (cases a)
    case (Acquire md m)
    then have "\<forall>h \<in> set held. rank (fst h) < rank m"
      using held(3) by (simp split: if_splits)
    then have "map_of held n \<noteq> None \<Longrightarrow> rank n < rank m" for n
      using rank_less by blast
    moreover from this [of m] have "map_of held m = None"
      by blast
    ultimately show ?thesis
      using Acquire held(2) by simp
  next
    case (Release m)
    then obtain h rest where "held = h # rest" "fst h = m"
      using held(3) by (auto split: list.splits if_splits)
    then show ?thesis
      using Release held(2) by (cases h) simp
  next
    case (Reads v)
    then have "may_read guard held v"
      using held(3) by (simp split: if_splits del: may_read.simps)
    then show ?thesis
      using Reads held(2) by (auto simp: map_of_eq_None_iff split: option.splits)
  next
    case (Writes v)
    then have "may_write guard held v"
      using held(3) by (simp split: if_splits del: may_write.simps)
    then show ?thesis
      using Writes held(2) distinct_held [OF held(1)] by (auto split: option.splits)
  qed
qed

text \<open>Some thread can always go on: of those that wait, take one for a mutex of highest rank.\<close>

lemma progress:
  assumes "lock_inv rank guard s" "\<not> finished s"
  shows "\<exists>t. can_go_on s t"
proof (rule ccontr)
  assume none: "\<nexists>t. can_go_on s t"
  obtain holders todo where s: "s = (holders, todo)"
    by force
  have inv: "lock_inv rank guard (holders, todo)"
    using assms(1) by (simp add: s)
  have waits: "\<exists>md m xs u. todo t = Acquire md m # xs \<and> holders m u \<noteq> None" if "todo t \<noteq> []" for t
  proof (cases "todo t")
    case (Cons a xs)
    have "\<not> can_go_on (holders, todo) t"
      using none s by blast
    with Cons show ?thesis
      by (cases a) (simp_all add: can_go_on_def)
  qed (use that in simp)
  have busy: "todo u \<noteq> []" if "holders m u \<noteq> None" for m u
  proof
    assume "todo u = []"
    moreover obtain held where "\<And>m. holders m u = map_of held m" "replay rank guard held (todo u) = Some []"
      using inv unfolding lock_inv_def fst_conv snd_conv by metis
    ultimately show False
      using that by simp
  qed
  have "False" if "todo t = Acquire md m # xs" "holders m u \<noteq> None" for t md m xs u
    using that
  proof (induction "bound - rank m" arbitrary: t md m xs u rule: less_induct)
    case less
    obtain md' n ys v where n: "todo u = Acquire md' n # ys" "holders n v \<noteq> None"
      using waits [OF busy [OF less.prems(2)]] by blast
    then have "rank m < rank n"
      using next_action [OF inv n(1)] less.prems(2) by simp
    then have "bound - rank n < bound - rank m"
      using bounded [of n] by arith
    then show ?case
      using less.hyps [OF _ n] by blast
  qed
  then show False
    using assms(2) waits unfolding finished_def s snd_conv by metis
qed

lemma can_step:
  assumes "lock_inv rank guard s" "can_go_on s t"
  shows "\<exists>s'. lock_step s s'"
proof -
  obtain holders todo where s: "s = (holders, todo)"
    by force
  obtain a xs where a: "todo t = a # xs"
    using assms(2) by (cases "todo t") (simp_all add: can_go_on_def s)
  note next_action [OF assms(1) [unfolded s] a]
  then show ?thesis
    using assms(2) a lock_step.acquire [of todo t _ _ xs holders] lock_step.release [of todo t _ xs holders]
      lock_step.access [of todo t _ xs holders] unfolding s
    by (cases a) (auto simp: can_go_on_def)
qed

lemma no_race:
  assumes "lock_inv rank guard s" "guard v = Some m"
  shows "\<not> race_on v s"
proof
  assume "race_on v s"
  then obtain t u xs a ys where t: "t \<noteq> u" "snd s t = Writes v # xs" "snd s u = a # ys" "a = Reads v \<or> a = Writes v"
    unfolding race_on_def by blast
  have inv: "lock_inv rank guard (fst s, snd s)"
    using assms(1) by simp
  have "fst s m t = Some Exclusive"
    using next_action [OF inv t(2)] assms(2) by simp
  moreover have "fst s m u \<noteq> None"
    using next_action [OF inv t(3)] t(4) assms(2) by auto
  ultimately show False
    using assms(1) t(1) by (auto simp: lock_inv_def)
qed

lemma inv_run: "(lock_step ^^ i) s s' \<Longrightarrow> lock_inv rank guard s \<Longrightarrow> lock_inv rank guard s'"
  by (induction i arbitrary: s') (auto intro: inv_step)

text \<open>Threads that keep the discipline all finish, whatever the schedule, and never race.\<close>

lemma disciplined_runs:
  assumes "\<And>t. t < k \<Longrightarrow> \<exists>s ok. disciplined rank guard [] s \<and> traces s (todo t) ok" "\<And>t. k \<le> t \<Longrightarrow> todo t = []"
    and run: "(lock_step ^^ i) (\<lambda>_ _. None, todo) s"
  shows "i \<le> (\<Sum>t<k. length (todo t))" "finished s \<longleftrightarrow> i = (\<Sum>t<k. length (todo t))"
    "\<not> finished s \<Longrightarrow> \<exists>t s'. can_go_on s t \<and> lock_step s s'" "guard v = Some m \<Longrightarrow> \<not> race_on v s"
proof -
  have "replay rank guard [] (todo t) = Some []" for t
  proof (cases "t < k")
    case True
    then show ?thesis
      using assms(1) [OF True] replay_traces [of _ "todo t" _ rank guard "[]" "[]"] by auto
  qed (simp add: assms(2))
  then have inv: "lock_inv rank guard s"
    using inv_run [OF run] inv_start by blast
  then show "\<not> finished s \<Longrightarrow> \<exists>t s'. can_go_on s t \<and> lock_step s s'" "guard v = Some m \<Longrightarrow> \<not> race_on v s"
    using progress can_step no_race by blast+
  have "(\<Sum>t<k. length (todo t)) = i + actions_left k s" "finished s \<longleftrightarrow> actions_left k s = 0"
    using lock_run_actions [OF run, of k] finished_actions [of k s] assms(2) by (simp_all add: actions_left_def)
  then show "i \<le> (\<Sum>t<k. length (todo t))" "finished s \<longleftrightarrow> i = (\<Sum>t<k. length (todo t))"
    by simp_all
qed

end

end
