(* ===== verification/Locks.thy ===== *)
theory Locks
  imports Lock_Order
begin

text \<open>
  The mutexes of the node, the data they guard, and how its functions use them: one skeleton for
  each function of \<open>src/impl\<close> that takes a lock, touches shared data or calls one that does. Other
  code is left out, a branch on data may go either way, and a function may throw anywhere. The
  mutexes of all routing tables count as one, as do those of the two transports, and their data:
  a thread waits in the model whenever it waits in the program. Members that are set by the
  constructors only are not listed. What libdatachannel and libplum do in a call is a parameter,
  \<open>lib\<close>: a skeleton for each function that the code calls on shared objects or under a mutex. Of
  their own threads they call back holding none of these mutexes.
\<close>

section \<open>The mutexes and what they guard\<close>

datatype mutex =
    MessageCallbackMutex
  | NetworkingMutex
  | GraphMutex
  | RoutingMutex
  | RoutingTableMutex
  | SequencesMutex
  | SchedulerMutex
  | ServerMutex

text \<open>The order in which they nest.\<close>

fun mutex_rank :: "mutex \<Rightarrow> nat" where
  "mutex_rank MessageCallbackMutex = 0"
| "mutex_rank NetworkingMutex = 1"
| "mutex_rank GraphMutex = 2"
| "mutex_rank RoutingMutex = 3"
| "mutex_rank RoutingTableMutex = 4"
| "mutex_rank SequencesMutex = 5"
| "mutex_rank SchedulerMutex = 6"
| "mutex_rank ServerMutex = 7"

text \<open>
  \<open>Vertices\<close> are the vertices of the graph with \<open>mVertices\<close> and \<open>mRoutingTable\<close>, \<open>DataChannel\<close> is
  \<open>mDataChannel\<close> of a peering, \<open>Tasks\<close> are the tasks and their next number, \<open>Endpoint\<close> is what the URL of the server is made of.
\<close>

datatype shared =
    Callback
  | Peerings
  | DataChannel
  | Vertices
  | StateSequence
  | HelloSequence
  | Channels
  | Neighbors
  | Table
  | NextHops
  | Sequences
  | Tasks
  | Endpoint

text \<open>
  The guard of each. None for those of the graph: the comments in \<open>graph.cpp\<close> ask for the mutex of
  the graph, but one branch of \<open>Graph::notify\<close> does without. None for the data channel of a
  peering: it is used under the mutex of networking and in callbacks, which take none.
\<close>

fun mutex_guard :: "shared \<Rightarrow> mutex option" where
  "mutex_guard Callback = Some MessageCallbackMutex"
| "mutex_guard Peerings = Some NetworkingMutex"
| "mutex_guard DataChannel = None"
| "mutex_guard Vertices = None"
| "mutex_guard StateSequence = None"
| "mutex_guard HelloSequence = Some GraphMutex"
| "mutex_guard Channels = Some RoutingMutex"
| "mutex_guard Neighbors = Some RoutingMutex"
| "mutex_guard Table = Some RoutingMutex"
| "mutex_guard NextHops = Some RoutingTableMutex"
| "mutex_guard Sequences = Some SequencesMutex"
| "mutex_guard Tasks = Some SchedulerMutex"
| "mutex_guard Endpoint = Some ServerMutex"

interpretation mutexes: lock_order mutex_rank mutex_guard 8
proof
  show "mutex_rank m < 8" for m
    by (cases m) simp_all
qed

type_synonym code = "(mutex, shared) skeleton"

text \<open>
  The functions of libdatachannel and libplum that are called. The \<open>Handlers\<close> set callbacks other
  than \<open>onMessage\<close>; to drop a channel, a connection or a server may destroy it.
\<close>

datatype foreign =
    ChannelOnMessage
  | ChannelIsOpen
  | ChannelSend
  | ChannelClose
  | ChannelHandlers
  | ChannelDrop
  | PeerConnectionNew
  | PeerConnectionHandlers
  | PeerConnectionState
  | CreateDataChannel
  | SetRemoteDescription
  | WebSocketNew
  | WebSocketOpen
  | WebSocketServerNew
  | WebSocketServerHandlers
  | WebSocketServerPort
  | WebSocketServerDrop
  | PlumLocalAddress
  | PlumCertificate

section \<open>Routing\<close>

definition RoutingTable_add_locks :: code where
  "RoutingTable_add_locks = Hold Exclusive RoutingTableMutex (Write NextHops)"

definition RoutingTable_read_locks :: code where
  "RoutingTable_read_locks = Hold Shared RoutingTableMutex (Read NextHops)"

definition addChannel_locks :: "(foreign \<Rightarrow> code) \<Rightarrow> code" where
  "addChannel_locks lib = Hold Exclusive RoutingMutex (Then (lib ChannelOnMessage) (Write Channels))"

definition removeChannel_locks :: "(foreign \<Rightarrow> code) \<Rightarrow> code" where
  "removeChannel_locks lib =
     Hold Exclusive RoutingMutex
       (Then (Read Channels)
         (Then (Either (Then (lib ChannelOnMessage) (Write Channels)) Nop)
           (Repeat (Then (Read Neighbors) (Either (Write Neighbors) Nop)))))"

text \<open>The event is emitted after \<open>lock.unlock()\<close>.\<close>

definition addNeighbor_locks :: "code \<Rightarrow> code" where
  "addNeighbor_locks emit =
     Then
       (Hold Exclusive RoutingMutex
         (Then (Read Channels) (Either (Then (Read Neighbors) (Either (Write Neighbors) Nop)) Nop)))
       (Either emit Nop)"

definition removeNeighbor_locks :: "code \<Rightarrow> code" where
  "removeNeighbor_locks emit =
     Then (Hold Exclusive RoutingMutex (Then (Read Neighbors) (Either (Write Neighbors) Nop)))
       (Either emit Nop)"

definition neighbors_locks :: code where
  "neighbors_locks = Hold Exclusive RoutingMutex (Read Neighbors)"

definition table_locks :: code where
  "table_locks = Hold Shared RoutingMutex (Read Table)"

definition setTable_locks :: code where
  "setTable_locks = Hold Exclusive RoutingMutex (Write Table)"

definition broadcast_locks :: "(foreign \<Rightarrow> code) \<Rightarrow> code" where
  "broadcast_locks lib =
     Hold Exclusive RoutingMutex
       (Then (Read Channels)
         (Repeat (Either Nop (Then (lib ChannelIsOpen) (Either (Catch (lib ChannelSend)) Nop)))))"

definition findRoute_locks :: code where
  "findRoute_locks =
     Hold Shared RoutingMutex
       (Then (Read Table) (Either Nop (Then RoutingTable_read_locks (Either Nop (Read Neighbors)))))"

definition route_locks :: "(foreign \<Rightarrow> code) \<Rightarrow> code \<Rightarrow> code" where
  "route_locks lib emit = Either emit (Then findRoute_locks (Either (lib ChannelSend) Nop))"

section \<open>The graph\<close>

definition computeRoutingTable_locks :: code where
  "computeRoutingTable_locks =
     Then (Write Vertices)
       (Then (Repeat RoutingTable_add_locks) (Then RoutingTable_read_locks setTable_locks))"

definition updateEdges_locks :: code where
  "updateEdges_locks =
     Then (Read Vertices) (Either Nop (Then (Write Vertices) computeRoutingTable_locks))"

text \<open>As in the graph itself, the first argument is the number of stack frames left.\<close>

fun updateVertice_locks :: "(foreign \<Rightarrow> code) \<Rightarrow> nat \<Rightarrow> code"
  and broadcastState_locks :: "(foreign \<Rightarrow> code) \<Rightarrow> nat \<Rightarrow> code" where
  "updateVertice_locks lib 0 = Nop"
| "updateVertice_locks lib (Suc stack) =
     Then (Read Vertices)
       (Either Nop
         (Then
           (Either (Then (Either (broadcastState_locks lib stack) Nop) (Write Vertices))
             (Then (Write Vertices) (broadcastState_locks lib stack)))
           updateEdges_locks))"
| "broadcastState_locks lib 0 = Nop"
| "broadcastState_locks lib (Suc stack) =
     Then (Then (Read StateSequence) (Write StateSequence))
       (Then neighbors_locks (Then (updateVertice_locks lib stack) (broadcast_locks lib)))"

definition insert_locks :: "(foreign \<Rightarrow> code) \<Rightarrow> nat \<Rightarrow> code" where
  "insert_locks lib stack = Hold Exclusive GraphMutex (updateVertice_locks lib stack)"

definition Graph_get_locks :: code where
  "Graph_get_locks = Hold Exclusive GraphMutex (Read Vertices)"

definition Graph_count_locks :: code where
  "Graph_count_locks = Hold Shared GraphMutex (Read Vertices)"

definition Graph_update_locks :: "(foreign \<Rightarrow> code) \<Rightarrow> code" where
  "Graph_update_locks lib =
     Hold Exclusive GraphMutex (Then (Then (Read HelloSequence) (Write HelloSequence)) (broadcast_locks lib))"

text \<open>The branch for a neighbour event takes no lock of its own.\<close>

definition Graph_neighbor_locks :: "(foreign \<Rightarrow> code) \<Rightarrow> nat \<Rightarrow> code" where
  "Graph_neighbor_locks lib stack =
     Then neighbors_locks (Then updateEdges_locks (Either (broadcastState_locks lib stack) Nop))"

definition Graph_message_locks :: "(foreign \<Rightarrow> code) \<Rightarrow> nat \<Rightarrow> code" where
  "Graph_message_locks lib stack =
     Either (Then neighbors_locks (Either (addNeighbor_locks (Graph_neighbor_locks lib stack)) Nop))
       (Either (Then (insert_locks lib stack) (Either (broadcast_locks lib) Nop)) Nop)"

section \<open>Transports and peerings\<close>

definition checkSequence_locks :: code where
  "checkSequence_locks =
     Hold Exclusive SequencesMutex (Then (Read Sequences) (Either (Write Sequences) Nop))"

definition incoming_locks :: "code \<Rightarrow> code" where
  "incoming_locks receive = Then checkSequence_locks (Either Nop receive)"

definition broadcastable_incoming_locks :: "(foreign \<Rightarrow> code) \<Rightarrow> code \<Rightarrow> code" where
  "broadcastable_incoming_locks lib receive =
     Either (incoming_locks receive)
       (Either Nop (Then checkSequence_locks (Either Nop (Then (broadcast_locks lib) receive))))"

definition Transport_notify_locks :: "code \<Rightarrow> code" where
  "Transport_notify_locks incoming = Either Nop incoming"

text \<open>\<open>route\<close> is what \<open>Routing::send\<close> comes to: \<open>route_locks\<close>, or less for a given destination.\<close>

definition Transport_send_locks :: "code \<Rightarrow> code" where
  "Transport_send_locks route = Then Graph_get_locks route"

definition disconnect_locks :: "(foreign \<Rightarrow> code) \<Rightarrow> code" where
  "disconnect_locks lib =
     Then (Read DataChannel)
       (Either
         (Then (removeChannel_locks lib)
           (Then (lib ChannelClose) (Then (Write DataChannel) (lib ChannelDrop))))
         Nop)"

definition setDataChannel_locks :: "(foreign \<Rightarrow> code) \<Rightarrow> code" where
  "setDataChannel_locks lib = Then (Write DataChannel) (Then (lib ChannelDrop) (lib ChannelHandlers))"

definition Peering_connect_locks :: "(foreign \<Rightarrow> code) \<Rightarrow> code" where
  "Peering_connect_locks lib =
     Then (disconnect_locks lib) (Then (lib CreateDataChannel) (setDataChannel_locks lib))"

definition createPeering_locks :: "(foreign \<Rightarrow> code) \<Rightarrow> code" where
  "createPeering_locks lib =
     Then (Read Peerings)
       (Either Nop
         (Then (disconnect_locks lib)
           (Then (lib PeerConnectionNew) (Then (lib PeerConnectionHandlers) (Write Peerings)))))"

definition connectPeer_locks :: "(foreign \<Rightarrow> code) \<Rightarrow> code" where
  "connectPeer_locks lib = Hold Exclusive NetworkingMutex (Then (createPeering_locks lib) (Peering_connect_locks lib))"

definition connectWebSocket_locks :: "(foreign \<Rightarrow> code) \<Rightarrow> code" where
  "connectWebSocket_locks lib =
     Hold Exclusive NetworkingMutex
       (Then (lib WebSocketNew) (Then (lib ChannelHandlers) (lib WebSocketOpen)))"

definition Peering_receive_locks :: "(foreign \<Rightarrow> code) \<Rightarrow> code" where
  "Peering_receive_locks lib = Then (Either (lib PeerConnectionState) Nop) (Either Nop (lib SetRemoteDescription))"

definition Networking_receive_locks :: "(foreign \<Rightarrow> code) \<Rightarrow> code" where
  "Networking_receive_locks lib =
     Hold Exclusive NetworkingMutex (Then (createPeering_locks lib) (Peering_receive_locks lib))"

definition Networking_isConnected_locks :: "(foreign \<Rightarrow> code) \<Rightarrow> code" where
  "Networking_isConnected_locks lib =
     Hold Exclusive NetworkingMutex
       (Then (Read Peerings) (Repeat (Then (Read DataChannel) (Either (lib ChannelIsOpen) Nop))))"

definition Networking_update_locks :: "(foreign \<Rightarrow> code) \<Rightarrow> code" where
  "Networking_update_locks lib =
     Hold Exclusive NetworkingMutex
       (Then (Read Peerings)
         (Either Nop
           (Then table_locks
             (Then RoutingTable_read_locks
               (Then (Repeat (Read Peerings)) (Either (Then (createPeering_locks lib) (Peering_connect_locks lib)) Nop))))))"

section \<open>The scheduler, the server and the node\<close>

definition dequeue_locks :: code where
  "dequeue_locks = Hold Exclusive SchedulerMutex (Then (Read Tasks) (Either (Write Tasks) Nop))"

definition schedule_locks :: code where
  "schedule_locks = Hold Exclusive SchedulerMutex (Write Tasks)"

definition Scheduler_run_locks :: "code \<Rightarrow> code" where
  "Scheduler_run_locks task = Then (Repeat (Then dequeue_locks (Catch task))) dequeue_locks"

definition generateUrl_locks :: "(foreign \<Rightarrow> code) \<Rightarrow> code" where
  "generateUrl_locks lib = Then (Read Endpoint) (Then (lib WebSocketServerPort) (lib PlumLocalAddress))"

definition url_locks :: "(foreign \<Rightarrow> code) \<Rightarrow> code" where
  "url_locks lib = Hold Exclusive ServerMutex (generateUrl_locks lib)"

definition createWebSocketServer_locks :: "(foreign \<Rightarrow> code) \<Rightarrow> code" where
  "createWebSocketServer_locks lib =
     Hold Exclusive ServerMutex
       (Then (Then (Write Endpoint) (lib WebSocketServerDrop))
         (Then (lib WebSocketServerNew) (Then (Write Endpoint) (lib WebSocketServerHandlers))))"

definition updateExternal_locks :: "(foreign \<Rightarrow> code) \<Rightarrow> code" where
  "updateExternal_locks lib =
     Hold Exclusive ServerMutex (Then (Write Endpoint) (generateUrl_locks lib))"

definition PlumMappingCallback_locks :: "(foreign \<Rightarrow> code) \<Rightarrow> code" where
  "PlumMappingCallback_locks lib =
     Either Nop
       (Either
         (Then (lib PlumCertificate) (Then (createWebSocketServer_locks lib) (updateExternal_locks lib)))
         (updateExternal_locks lib))"

text \<open>\<open>callback\<close> is the function the application gave to \<open>onMessage\<close>.\<close>

definition Node_receive_locks :: "code \<Rightarrow> code" where
  "Node_receive_locks callback =
     Hold Exclusive MessageCallbackMutex (Then (Read Callback) (Either callback Nop))"

definition onMessage_locks :: code where
  "onMessage_locks = Hold Exclusive MessageCallbackMutex (Write Callback)"

text \<open>\<open>Node::notify\<close> for a message: the graph, the signaling transport and the user transport.\<close>

definition notify_message_locks :: "(foreign \<Rightarrow> code) \<Rightarrow> nat \<Rightarrow> code \<Rightarrow> code" where
  "notify_message_locks lib stack callback =
     Then (Graph_message_locks lib stack)
       (Then (Transport_notify_locks (incoming_locks (Networking_receive_locks lib)))
         (Transport_notify_locks (broadcastable_incoming_locks lib (Node_receive_locks callback))))"

definition Node_update_locks :: "(foreign \<Rightarrow> code) \<Rightarrow> code \<Rightarrow> code" where
  "Node_update_locks lib task =
     Then (Graph_update_locks lib) (Then (Networking_update_locks lib) (Scheduler_run_locks task))"

definition isConnected_locks :: code where
  "isConnected_locks = Then table_locks RoutingTable_read_locks"

definition connect_locks :: "(foreign \<Rightarrow> code) \<Rightarrow> code" where
  "connect_locks lib = Either (connectWebSocket_locks lib) (connectPeer_locks lib)"

section \<open>Threads of the program\<close>

text \<open>
  What the application, libdatachannel and libplum call. A data channel that opens is added with
  its neighbour, a WebSocket without, and each is removed when it closes; \<open>sendLocalDescription\<close> goes through the signaling transport,
  to the remote node or, if the application connected to itself, to this one. A thread makes
  any number of these calls, and whoever makes a call may catch what it throws.
\<close>

definition channel_message_locks :: "(foreign \<Rightarrow> code) \<Rightarrow> nat \<Rightarrow> code \<Rightarrow> code" where
  "channel_message_locks lib stack callback = Catch (route_locks lib (notify_message_locks lib stack callback))"

definition channel_open_locks :: "(foreign \<Rightarrow> code) \<Rightarrow> nat \<Rightarrow> code" where
  "channel_open_locks lib stack =
     Then (Read DataChannel) (Then (addChannel_locks lib) (addNeighbor_locks (Graph_neighbor_locks lib stack)))"

definition channel_closed_locks :: "(foreign \<Rightarrow> code) \<Rightarrow> code" where
  "channel_closed_locks lib = Then (Read DataChannel) (removeChannel_locks lib)"

definition send_locks :: "(foreign \<Rightarrow> code) \<Rightarrow> nat \<Rightarrow> code \<Rightarrow> code" where
  "send_locks lib stack callback = Transport_send_locks (route_locks lib (notify_message_locks lib stack callback))"

text \<open>\<open>onLocalDescription\<close> and \<open>onGatheringStateChange\<close>.\<close>

definition description_locks :: "(foreign \<Rightarrow> code) \<Rightarrow> nat \<Rightarrow> code \<Rightarrow> code" where
  "description_locks lib stack callback =
     Then (lib PeerConnectionState) (Either (send_locks lib stack callback) Nop)"

definition thread_locks :: "(foreign \<Rightarrow> code) \<Rightarrow> nat \<Rightarrow> code \<Rightarrow> code \<Rightarrow> code" where
  "thread_locks lib stack callback task =
     Repeat (Catch
       (Either (channel_message_locks lib stack callback)
       (Either (channel_open_locks lib stack)
       (Either (channel_closed_locks lib)
       (Either (setDataChannel_locks lib)
       (Either (addChannel_locks lib)
       (Either (removeChannel_locks lib)
       (Either (send_locks lib stack callback)
       (Either (broadcast_locks lib)
       (Either (connect_locks lib)
       (Either (Node_update_locks lib task)
       (Either onMessage_locks
       (Either isConnected_locks
       (Either (Networking_isConnected_locks lib)
       (Either Graph_get_locks
       (Either Graph_count_locks
       (Either (removeNeighbor_locks (Graph_neighbor_locks lib stack))
       (Either schedule_locks
       (Either (url_locks lib)
       (Either (PlumMappingCallback_locks lib)
         (description_locks lib stack callback)))))))))))))))))))))"

lemmas routing_locks =
  RoutingTable_add_locks_def RoutingTable_read_locks_def addChannel_locks_def removeChannel_locks_def
  addNeighbor_locks_def removeNeighbor_locks_def neighbors_locks_def table_locks_def
  setTable_locks_def broadcast_locks_def findRoute_locks_def route_locks_def

lemmas graph_locks =
  computeRoutingTable_locks_def updateEdges_locks_def insert_locks_def Graph_get_locks_def
  Graph_count_locks_def Graph_update_locks_def Graph_neighbor_locks_def Graph_message_locks_def

lemmas node_locks =
  checkSequence_locks_def incoming_locks_def broadcastable_incoming_locks_def
  Transport_notify_locks_def Transport_send_locks_def disconnect_locks_def setDataChannel_locks_def
  Peering_connect_locks_def createPeering_locks_def channel_closed_locks_def
  connectPeer_locks_def connectWebSocket_locks_def Peering_receive_locks_def Networking_receive_locks_def
  Networking_isConnected_locks_def Networking_update_locks_def dequeue_locks_def schedule_locks_def
  Scheduler_run_locks_def generateUrl_locks_def url_locks_def createWebSocketServer_locks_def updateExternal_locks_def
  PlumMappingCallback_locks_def Node_receive_locks_def onMessage_locks_def notify_message_locks_def
  Node_update_locks_def isConnected_locks_def connect_locks_def channel_message_locks_def
  channel_open_locks_def send_locks_def description_locks_def

abbreviation follows :: "mutex list \<Rightarrow> code \<Rightarrow> bool" where
  "follows held \<equiv> disciplined mutex_rank mutex_guard (map (\<lambda>m. (m, Exclusive)) held)"

text \<open>Code that takes no mutex and touches no shared data, in whatever it does.\<close>

fun quiet :: "code \<Rightarrow> bool" where
  "quiet Nop \<longleftrightarrow> True"
| "quiet (Read v) \<longleftrightarrow> False"
| "quiet (Write v) \<longleftrightarrow> False"
| "quiet (Hold md m s) \<longleftrightarrow> False"
| "quiet (Then s t) \<longleftrightarrow> quiet s \<and> quiet t"
| "quiet (Either s t) \<longleftrightarrow> quiet s \<and> quiet t"
| "quiet (Repeat s) \<longleftrightarrow> quiet s"
| "quiet (Catch s) \<longleftrightarrow> quiet s"

lemma quiet_disciplined: "quiet s \<Longrightarrow> disciplined rank guard held s"
  by (induction s) simp_all

lemma quiet_traces: "quiet s \<Longrightarrow> traces s [] True"
proof (induction s)
  case (Then s t)
  then show ?case
    using traces.then_both [of s "[]" t "[]" True] by simp
qed (auto intro: traces.intros)

lemma announcement_follows:
  assumes "\<forall>f. quiet (lib f)" "\<forall>h \<in> set held. mutex_rank h < mutex_rank RoutingMutex"
  shows "follows held (updateVertice_locks lib stack)" "follows held (broadcastState_locks lib stack)"
  using assms by (induction stack) (auto simp: routing_locks graph_locks quiet_disciplined)

lemma thread_follows:
  assumes "\<forall>f. quiet (lib f)" "follows [MessageCallbackMutex] callback" "follows [] task"
  shows "follows [] (thread_locks lib stack callback task)"
  using assms announcement_follows [OF assms(1), of "[GraphMutex]" stack] announcement_follows [OF assms(1), of "[]" stack]
  by (simp add: thread_locks_def routing_locks graph_locks node_locks quiet_disciplined)

section \<open>Deadlock and races\<close>

text \<open>
  A message that is pending on a channel, delivered by libdatachannel within the call of
  \<open>onMessage\<close> with which \<open>addChannel\<close> sets the handler: the handler comes to take the mutex of
  routing, which \<open>addChannel\<close> holds.
\<close>

lemma waits_for_itself:
  assumes "replay mutex_rank mutex_guard [] xs = Some held" "(m, Exclusive) \<in> set held" "distinct (map fst held)"
  shows "\<exists>holders todo. lock_step\<^sup>*\<^sup>* (\<lambda>_ _. None, (\<lambda>_. [])(0 := xs @ Acquire md m # ys)) (holders, todo)
    \<and> holders m 0 = Some Exclusive \<and> stuck (holders, todo)"
proof -
  let ?start = "(\<lambda>_. [])(0 := xs @ Acquire md m # ys)" and ?todo = "(\<lambda>_. [])(0 := Acquire md m # ys)"
  have "\<exists>holders. lock_step\<^sup>*\<^sup>* (\<lambda>_ _. None, ?start) (holders, ?start(0 := Acquire md m # ys))
      \<and> (\<forall>n u. holders n u = (if u = 0 then map_of held n else None))"
    by (rule run_alone [OF assms(1)]) simp_all
  then obtain holders where run: "lock_step\<^sup>*\<^sup>* (\<lambda>_ _. None, ?start) (holders, ?start(0 := Acquire md m # ys))"
    and own: "\<forall>n u. holders n u = (if u = 0 then map_of held n else None)"
    by blast
  have held: "holders m 0 = Some Exclusive"
    using own assms(2,3) by simp
  have "\<not> lock_step (holders, ?todo) s" for s
    using held by (auto elim!: lock_stepE split: if_splits)
  then have "stuck (holders, ?todo)"
    by (auto simp: stuck_def finished_def)
  then show ?thesis
    using run held by auto
qed

lemma message_traces:
  assumes "traces (Graph_message_locks lib stack) xs True"
  shows "traces (channel_message_locks lib stack callback) xs True"
proof -
  have idle: "traces (Transport_notify_locks incoming) [] True" for incoming
    unfolding Transport_notify_locks_def by (rule traces.either_left [OF traces.nop])
  have "traces (notify_message_locks lib stack callback) xs True"
    using traces.then_both [OF assms traces.then_both [OF idle idle]] by (simp add: notify_message_locks_def)
  then show ?thesis
    unfolding channel_message_locks_def route_locks_def by (intro traces.catch traces.either_left)
qed




text \<open>C21: data that has a guard is never raced on. Under the same conditions no state is reached in
  which one thread is about to write the channels, the neighbours or the table of routing, the
  entries of a routing table, the peerings, the sequence numbers let through by a transport, the
  tasks, the message callback, the endpoint of the server or the Hello counter, while another is about
  to read or write the same.\<close>

theorem guarded_data_never_raced:
  assumes "\<forall>f. quiet (lib f)" and "follows [MessageCallbackMutex] callback" and "follows [] task"
    and "\<And>t. t < threads \<Longrightarrow> \<exists>ok. traces (thread_locks lib stack callback task) (todo t) ok"
    and "\<And>t. threads \<le> t \<Longrightarrow> todo t = []"
    and "lock_step\<^sup>*\<^sup>* (\<lambda>_ _. None, todo) s" and "v \<notin> {Vertices, StateSequence, DataChannel}"
  shows "\<not> race_on v s"
proof -
  have "\<exists>c ok. disciplined mutex_rank mutex_guard [] c \<and> traces c (todo t) ok" if "t < threads" for t
    using thread_follows [OF assms(1-3), of stack] assms(4) [OF that] by auto
  moreover obtain i where "(lock_step ^^ i) (\<lambda>_ _. None, todo) s"
    using assms(6) by (auto simp: rtranclp_power)
  moreover obtain m where "mutex_guard v = Some m"
    using assms(7) by (cases v) auto
  ultimately show ?thesis
    using mutexes.disciplined_runs(4) [of threads todo i s] assms(5) by blast
qed

text \<open>
  A callback that sends to other nodes, broadcasts, connects or asks the node for its state keeps
  to what is asked of it. Below, two threads that each flood a message.
\<close>

definition polite_callback :: "(foreign \<Rightarrow> code) \<Rightarrow> code" where
  "polite_callback lib =
     Repeat (Either (Transport_send_locks (Then findRoute_locks (Either (lib ChannelSend) Nop)))
       (Either (broadcast_locks lib) (Either (connect_locks lib) (Either isConnected_locks Graph_count_locks))))"

lemma polite_callback_follows:
  assumes "\<forall>f. quiet (lib f)"
  shows "follows [MessageCallbackMutex] (polite_callback lib)" "follows [] Nop"
  using assms by (simp_all add: polite_callback_def routing_locks graph_locks node_locks quiet_disciplined)

definition demo_actions :: "nat \<Rightarrow> (mutex, shared) action list" where
  "demo_actions t = (if t < 2 then [Acquire Exclusive RoutingMutex, Reads Channels, Release RoutingMutex] else [])"

lemma demo_actions_traces:
  "t < 2 \<Longrightarrow> \<exists>ok. traces (thread_locks lib 3 (polite_callback lib) Nop) (demo_actions t) ok"
  "2 \<le> t \<Longrightarrow> demo_actions t = []"
proof -
  have "traces (broadcast_locks lib) [Acquire Exclusive RoutingMutex, Reads Channels, Release RoutingMutex] True"
    using traces.hold [OF traces.then_both [OF traces.reads traces.repeat_end]] unfolding broadcast_locks_def by fastforce
  from traces.repeat_more [OF traces.catch [OF traces.either_right [OF traces.either_right [OF traces.either_right
        [OF traces.either_right [OF traces.either_right [OF traces.either_right [OF traces.either_right
          [OF traces.either_left [OF this]]]]]]]]] traces.repeat_end]
  have "traces (thread_locks lib 3 (polite_callback lib) Nop) [Acquire Exclusive RoutingMutex, Reads Channels, Release RoutingMutex] True"
    unfolding thread_locks_def by fastforce
  then show "t < 2 \<Longrightarrow> \<exists>ok. traces (thread_locks lib 3 (polite_callback lib) Nop) (demo_actions t) ok"
    by (auto simp: demo_actions_def)
qed (simp add: demo_actions_def)

lemma polite_library: "\<forall>f::foreign. quiet (case f of ChannelIsOpen \<Rightarrow> Either Nop Nop | _ \<Rightarrow> Nop)"
  by (simp split: foreign.split)


theorem guarded_data_never_raced_witness: "\<not> race_on Channels (\<lambda>_ _. None, demo_actions)"
  using guarded_data_never_raced [OF polite_library polite_callback_follows [OF polite_library] demo_actions_traces,
    where s = "(\<lambda>_ _. None, demo_actions)" and v = Channels]
  by simp

section \<open>Reentrant callbacks\<close>

lemma checkSequence_traces:
  "traces checkSequence_locks [Acquire Exclusive SequencesMutex, Reads Sequences, Writes Sequences, Release SequencesMutex] True"
  using traces.hold [OF traces.then_both [OF traces.reads traces.either_left [OF traces.writes]]]
  unfolding checkSequence_locks_def by fastforce

text \<open>A user message whose delivery is recorded by its transport and reaches the callback.\<close>

definition delivery_prefix :: "(mutex, shared) action list" where
  "delivery_prefix =
     [Acquire Exclusive SequencesMutex, Reads Sequences, Writes Sequences, Release SequencesMutex,
      Acquire Exclusive MessageCallbackMutex, Reads Callback]"

lemma deliver_traces:
  assumes "traces (Either callback Nop) xs True"
  shows "traces (notify_message_locks lib stack callback) (delivery_prefix @ xs @ [Release MessageCallbackMutex]) True"
proof -
  have "traces (Node_receive_locks callback)
      (Acquire Exclusive MessageCallbackMutex # ([Reads Callback] @ xs) @ [Release MessageCallbackMutex]) True"
    unfolding Node_receive_locks_def by (rule traces.hold [OF traces.then_both [OF traces.reads assms]])
  then have user: "traces (Transport_notify_locks (broadcastable_incoming_locks lib (Node_receive_locks callback)))
      (delivery_prefix @ xs @ [Release MessageCallbackMutex]) True"
    using traces.either_right [OF traces.either_left [OF traces.then_both [OF checkSequence_traces traces.either_right]]]
    unfolding Transport_notify_locks_def broadcastable_incoming_locks_def incoming_locks_def delivery_prefix_def
    by fastforce
  have signaling: "traces (Transport_notify_locks (incoming_locks (Networking_receive_locks lib))) [] True"
    unfolding Transport_notify_locks_def by (rule traces.either_left [OF traces.nop])
  have graph: "traces (Graph_message_locks lib stack) [] True"
    unfolding Graph_message_locks_def by (rule traces.either_right [OF traces.either_right [OF traces.nop]])
  show ?thesis
    using traces.then_both [OF graph traces.then_both [OF signaling user]] by (simp add: notify_message_locks_def)
qed

text \<open>Both callbacks come to take \<open>messageCallbackMutex\<close> again.\<close>

lemma reenters:
  assumes "callback = onMessage_locks \<or> callback = send_locks lib stack inner"
  shows "\<exists>us ys. traces callback (us @ Acquire Exclusive MessageCallbackMutex # ys) True
    \<and> replay mutex_rank mutex_guard [(MessageCallbackMutex, Exclusive)] us = Some [(MessageCallbackMutex, Exclusive)]"
    (is "?result")
  using assms
proof
  let ?m = "MessageCallbackMutex" and ?held = "[(MessageCallbackMutex, Exclusive)]"
  assume "callback = onMessage_locks"
  then have "traces callback ([] @ Acquire Exclusive ?m # [Writes Callback] @ [Release ?m]) True"
    using traces.hold [OF traces.writes] unfolding onMessage_locks_def by fastforce
  moreover have "replay mutex_rank mutex_guard ?held [] = Some ?held"
    by simp
  ultimately show ?result
    by blast
next
  let ?m = "MessageCallbackMutex" and ?held = "[(MessageCallbackMutex, Exclusive)]"
  assume callback: "callback = send_locks lib stack inner"
  let ?g = "Acquire Exclusive GraphMutex # [Reads Vertices] @ [Release GraphMutex]"
  let ?s = "[Acquire Exclusive SequencesMutex, Reads Sequences, Writes Sequences, Release SequencesMutex]"
  have "traces Graph_get_locks ?g True"
    unfolding Graph_get_locks_def by (rule traces.hold [OF traces.reads])
  moreover have "traces (route_locks lib (notify_message_locks lib stack inner)) (delivery_prefix @ [] @ [Release ?m]) True"
    unfolding route_locks_def
    by (rule traces.either_left [OF deliver_traces [OF traces.either_right [OF traces.nop]]])
  ultimately have "traces callback (?g @ delivery_prefix @ [] @ [Release ?m]) True"
    unfolding callback send_locks_def Transport_send_locks_def by (rule traces.then_both)
  then have "traces callback ((?g @ ?s) @ Acquire Exclusive ?m # [Reads Callback, Release ?m]) True"
    by (simp add: delivery_prefix_def)
  moreover have "replay mutex_rank mutex_guard ?held (?g @ ?s) = Some ?held"
    by simp
  ultimately show ?result
    by blast
qed

text \<open>C23: a message callback that calls \<open>onMessage\<close>, or sends to the identifier of its own node,
  blocks the thread that delivers the message for ever, as \<open>Node::receive\<close> holds
  \<open>messageCallbackMutex\<close> while it calls the callback and a message to the own identifier is
  delivered before \<open>send\<close> returns. One thread is enough: there is a message it receives and a
  run after which it holds the mutex, waits for it, and nothing can move.\<close>

theorem reentrant_callback_deadlocks:
  assumes "callback = onMessage_locks \<or> callback = send_locks lib stack inner"
  shows "\<exists>xs holders todo. traces (channel_message_locks lib stack callback) xs True
    \<and> lock_step\<^sup>*\<^sup>* (\<lambda>_ _. None, (\<lambda>_. [])(0 := xs)) (holders, todo)
    \<and> holders MessageCallbackMutex 0 = Some Exclusive \<and> stuck (holders, todo)"
proof -
  let ?m = "MessageCallbackMutex" and ?held = "[(MessageCallbackMutex, Exclusive)]"
  obtain us ys where us: "traces callback (us @ Acquire Exclusive ?m # ys) True"
    "replay mutex_rank mutex_guard ?held us = Some ?held"
    using reenters [OF assms] by blast
  let ?pre = "delivery_prefix @ us" and ?post = "ys @ [Release ?m]"
  have "traces (channel_message_locks lib stack callback) (delivery_prefix @ (us @ Acquire Exclusive ?m # ys) @ [Release ?m]) True"
    unfolding channel_message_locks_def route_locks_def
    by (rule traces.catch [OF traces.either_left [OF deliver_traces [OF traces.either_left [OF us(1)]]]])
  then have "traces (channel_message_locks lib stack callback) (?pre @ Acquire Exclusive ?m # ?post) True"
    by simp
  moreover have "replay mutex_rank mutex_guard [] ?pre = Some ?held"
    using us(2) by (simp add: delivery_prefix_def)
  ultimately show ?thesis
    using waits_for_itself [of ?pre ?held ?m Exclusive ?post] by auto
qed

theorem reentrant_callback_deadlocks_witness:
  "\<exists>xs holders todo. traces (channel_message_locks (\<lambda>_. Nop) 3 (send_locks (\<lambda>_. Nop) 3 Nop)) xs True
     \<and> lock_step\<^sup>*\<^sup>* (\<lambda>_ _. None, (\<lambda>_. [])(0 := xs)) (holders, todo) \<and> stuck (holders, todo)"
  using reentrant_callback_deadlocks [of "send_locks (\<lambda>_. Nop) 3 Nop" "\<lambda>_. Nop" 3 Nop] by blast

section \<open>The graph without its mutex\<close>

text \<open>The two sides of the race: an announcement under the mutex, a Hello that adds a neighbour.\<close>

definition announcement_prefix :: "(mutex, shared) action list" where
  "announcement_prefix = [Acquire Exclusive GraphMutex, Reads Vertices]"

definition hello_prefix :: "(mutex, shared) action list" where
  "hello_prefix =
     [Acquire Exclusive RoutingMutex, Reads Neighbors, Release RoutingMutex,
      Acquire Exclusive RoutingMutex, Reads Channels, Reads Neighbors, Writes Neighbors, Release RoutingMutex,
      Acquire Exclusive RoutingMutex, Reads Neighbors, Release RoutingMutex]"

lemma updateEdges_traces: "traces updateEdges_locks [Reads Vertices] True"
  using traces.then_both [OF traces.reads traces.either_left [OF traces.nop]] unfolding updateEdges_locks_def by fastforce

lemma announcement_traces:
  "traces (Graph_message_locks lib (Suc stack))
     (announcement_prefix @ Writes Vertices # [Reads Vertices, Release GraphMutex]) True"
proof -
  have "traces (Then (Either (broadcastState_locks lib stack) Nop) (Write Vertices)) ([] @ [Writes Vertices]) True"
    by (rule traces.then_both [OF traces.either_right [OF traces.nop] traces.writes])
  from traces.then_both [OF traces.either_left [OF this] updateEdges_traces]
  have "traces (updateVertice_locks lib (Suc stack)) ([Reads Vertices] @ ([] @ [Writes Vertices]) @ [Reads Vertices]) True"
    unfolding updateVertice_locks.simps by (rule traces.then_both [OF traces.reads traces.either_right])
  from traces.then_both [OF traces.hold [OF this] traces.either_right [OF traces.nop]]
  have "traces (Then (insert_locks lib (Suc stack)) (Either (broadcast_locks lib) Nop))
      (announcement_prefix @ Writes Vertices # [Reads Vertices, Release GraphMutex]) True"
    unfolding insert_locks_def by (fastforce simp: announcement_prefix_def)
  then show ?thesis
    unfolding Graph_message_locks_def by (intro traces.either_right [OF traces.either_left])
qed

lemma hello_traces:
  "traces (Graph_message_locks lib stack) (hello_prefix @ Reads Vertices # []) True"
proof -
  have count: "traces neighbors_locks [Acquire Exclusive RoutingMutex, Reads Neighbors, Release RoutingMutex] True"
    using traces.hold [OF traces.reads] unfolding neighbors_locks_def by fastforce
  have "traces (Then updateEdges_locks (Either (broadcastState_locks lib stack) Nop)) ([Reads Vertices] @ []) True"
    by (rule traces.then_both [OF updateEdges_traces traces.either_right [OF traces.nop]])
  from traces.then_both [OF count this]
  have branch: "traces (Graph_neighbor_locks lib stack)
      ([Acquire Exclusive RoutingMutex, Reads Neighbors, Release RoutingMutex] @ [Reads Vertices] @ []) True"
    by (simp add: Graph_neighbor_locks_def)
  have "traces (Then (Read Channels) (Either (Then (Read Neighbors) (Either (Write Neighbors) Nop)) Nop))
      ([Reads Channels] @ [Reads Neighbors] @ [Writes Neighbors]) True"
    by (rule traces.then_both [OF traces.reads traces.either_left [OF traces.then_both
          [OF traces.reads traces.either_left [OF traces.writes]]]])
  from traces.then_both [OF traces.hold [OF this] traces.either_left [OF branch]]
  have "traces (addNeighbor_locks (Graph_neighbor_locks lib stack))
      ((Acquire Exclusive RoutingMutex # ([Reads Channels] @ [Reads Neighbors] @ [Writes Neighbors]) @ [Release RoutingMutex])
       @ [Acquire Exclusive RoutingMutex, Reads Neighbors, Release RoutingMutex] @ [Reads Vertices] @ []) True"
    unfolding addNeighbor_locks_def by this
  from traces.then_both [OF count traces.either_left [OF this]]
  show ?thesis
    unfolding Graph_message_locks_def by (intro traces.either_left) (simp add: hello_prefix_def)
qed

text \<open>Two threads, one of which reaches its write under a mutex and the other its read under none.\<close>

lemma race_of_prefixes:
  assumes "replay mutex_rank mutex_guard [] us = Some [(m, Exclusive)]" "replay mutex_rank mutex_guard [] vs = Some []"
  shows "\<exists>holders todo. lock_step\<^sup>*\<^sup>*
        (\<lambda>_ _. None, (\<lambda>_. [])(0::nat := us @ Writes v # xs, 1 := vs @ Reads v # ys)) (holders, todo)
      \<and> holders m 0 = Some Exclusive \<and> todo 0 = Writes v # xs \<and> todo 1 = Reads v # ys"
proof -
  let ?todo = "(\<lambda>_. [])(0::nat := us @ Writes v # xs, 1 := vs @ Reads v # ys)"
  have "\<exists>holders. lock_step\<^sup>*\<^sup>* (\<lambda>_ _. None, ?todo) (holders, ?todo(1 := Reads v # ys))
      \<and> (\<forall>n u. holders n u = (if u = 1 then map_of [] n else None))"
    using assms(2) by (rule run_alone) simp_all
  then obtain holders where first: "lock_step\<^sup>*\<^sup>* (\<lambda>_ _. None, ?todo) (holders, ?todo(1 := Reads v # ys))"
    and none: "\<And>n u. holders n u = None"
    by auto
  have "\<exists>holders'. lock_step\<^sup>*\<^sup>* (holders, ?todo(1 := Reads v # ys)) (holders', (?todo(1 := Reads v # ys))(0 := Writes v # xs))
      \<and> (\<forall>n u. holders' n u = (if u = 0 then map_of [(m, Exclusive)] n else None))"
    using assms(1) by (rule run_alone) (simp_all add: none)
  then obtain holders' where second:
    "lock_step\<^sup>*\<^sup>* (holders, ?todo(1 := Reads v # ys)) (holders', (?todo(1 := Reads v # ys))(0 := Writes v # xs))"
    "holders' m 0 = Some Exclusive"
    by auto
  have "lock_step\<^sup>*\<^sup>* (\<lambda>_ _. None, ?todo) (holders', (?todo(1 := Reads v # ys))(0 := Writes v # xs))"
    using first second(1) by (rule rtranclp_trans)
  then show ?thesis
    using second(2) by (intro exI [of _ holders'] exI [of _ "(?todo(1 := Reads v # ys))(0 := Writes v # xs)"]) simp
qed

definition connect_prefix :: "(mutex, shared) action list" where
  "connect_prefix = [Acquire Exclusive NetworkingMutex, Reads Peerings, Reads DataChannel]"

lemma connect_traces:
  assumes "\<forall>f. quiet (lib f)"
  shows "traces (connectPeer_locks lib) (connect_prefix @ Writes DataChannel # [Release NetworkingMutex]) True"
proof -
  have lib: "traces (lib f) [] True" for f
    using assms quiet_traces by blast
  have "traces (disconnect_locks lib) ([Reads DataChannel] @ []) True"
    unfolding disconnect_locks_def by (rule traces.then_both [OF traces.reads traces.either_right [OF traces.nop]])
  from traces.then_both [OF this traces.then_both [OF lib traces.then_both [OF traces.writes traces.then_both [OF lib lib]]]]
  have connect: "traces (Peering_connect_locks lib) ([Reads DataChannel] @ [Writes DataChannel]) True"
    by (simp add: Peering_connect_locks_def setDataChannel_locks_def)
  have "traces (createPeering_locks lib) ([Reads Peerings] @ []) True"
    unfolding createPeering_locks_def by (rule traces.then_both [OF traces.reads traces.either_left [OF traces.nop]])
  from traces.hold [OF traces.then_both [OF this connect]] show ?thesis
    unfolding connectPeer_locks_def connect_prefix_def by fastforce
qed

lemma closed_traces:
  "traces (channel_closed_locks lib)
     ([] @ Reads DataChannel # [Acquire Exclusive RoutingMutex, Reads Channels, Release RoutingMutex]) True"
proof -
  have "traces (removeChannel_locks lib) (Acquire Exclusive RoutingMutex # ([Reads Channels] @ [] @ []) @ [Release RoutingMutex]) True"
    unfolding removeChannel_locks_def
    by (rule traces.hold [OF traces.then_both [OF traces.reads traces.then_both
          [OF traces.either_right [OF traces.nop] traces.repeat_end]]])
  from traces.then_both [OF traces.reads this] show ?thesis
    unfolding channel_closed_locks_def by fastforce
qed

text \<open>C22: some data is raced on, by two threads that each make one call, with nobody else about.
  That of the graph is, against what the comments in \<open>graph.cpp\<close> require: one thread takes over an
  announcement, holds the mutex of the graph, and is about to write a vertex, and the other, which
  has just added a neighbour for a Hello, is about to read the vertices. Both messages arrive on
  channels, and neither needs an exception or anything of the application. The data channel of a
  peering is raced on as well: \<open>connectPeer\<close> is about to replace it, holding the mutex of
  networking, while the callback of a data channel that closes is about to read it. The calls of
  libdatachannel need not call back for this.\<close>

theorem unguarded_data_raced:
  assumes "\<forall>f. quiet (lib f)"
  shows "(\<exists>xs ys holders todo us vs.
       traces (channel_message_locks lib (Suc stack) callback) xs True
     \<and> traces (channel_message_locks lib (Suc stack) callback) ys True
     \<and> lock_step\<^sup>*\<^sup>* (\<lambda>_ _. None, (\<lambda>_. [])(0::nat := xs, 1 := ys)) (holders, todo)
     \<and> holders GraphMutex 0 = Some Exclusive
     \<and> todo 0 = Writes Vertices # us \<and> todo 1 = Reads Vertices # vs)
   \<and> (\<exists>xs ys holders todo us vs.
       traces (connectPeer_locks lib) xs True \<and> traces (channel_closed_locks lib) ys True
     \<and> lock_step\<^sup>*\<^sup>* (\<lambda>_ _. None, (\<lambda>_. [])(0::nat := xs, 1 := ys)) (holders, todo)
     \<and> holders NetworkingMutex 0 = Some Exclusive
     \<and> todo 0 = Writes DataChannel # us \<and> todo 1 = Reads DataChannel # vs)"
proof (rule conjI)
  have "replay mutex_rank mutex_guard [] announcement_prefix = Some [(GraphMutex, Exclusive)]"
    "replay mutex_rank mutex_guard [] hello_prefix = Some []"
    by (simp_all add: announcement_prefix_def hello_prefix_def)
  from race_of_prefixes [OF this] message_traces [OF announcement_traces] message_traces [OF hello_traces]
  show "\<exists>xs ys holders todo us vs.
       traces (channel_message_locks lib (Suc stack) callback) xs True
     \<and> traces (channel_message_locks lib (Suc stack) callback) ys True
     \<and> lock_step\<^sup>*\<^sup>* (\<lambda>_ _. None, (\<lambda>_. [])(0::nat := xs, 1 := ys)) (holders, todo)
     \<and> holders GraphMutex 0 = Some Exclusive
     \<and> todo 0 = Writes Vertices # us \<and> todo 1 = Reads Vertices # vs"
    by meson
next
  have "replay mutex_rank mutex_guard [] connect_prefix = Some [(NetworkingMutex, Exclusive)]"
    "replay mutex_rank mutex_guard [] [] = Some []"
    by (simp_all add: connect_prefix_def)
  from race_of_prefixes [OF this] connect_traces [OF assms] closed_traces
  show "\<exists>xs ys holders todo us vs.
       traces (connectPeer_locks lib) xs True \<and> traces (channel_closed_locks lib) ys True
     \<and> lock_step\<^sup>*\<^sup>* (\<lambda>_ _. None, (\<lambda>_. [])(0::nat := xs, 1 := ys)) (holders, todo)
     \<and> holders NetworkingMutex 0 = Some Exclusive
     \<and> todo 0 = Writes DataChannel # us \<and> todo 1 = Reads DataChannel # vs"
    by meson
qed

theorem unguarded_data_raced_witness:
  "\<exists>xs ys holders todo us vs.
       traces (connectPeer_locks (\<lambda>_. Nop)) xs True \<and> traces (channel_closed_locks (\<lambda>_. Nop)) ys True
     \<and> lock_step\<^sup>*\<^sup>* (\<lambda>_ _. None, (\<lambda>_. [])(0::nat := xs, 1 := ys)) (holders, todo)
     \<and> holders NetworkingMutex 0 = Some Exclusive
     \<and> todo 0 = Writes DataChannel # us \<and> todo 1 = Reads DataChannel # vs"
  using unguarded_data_raced [of "\<lambda>_. Nop"] by simp

end
